theory Spec2Isabelle
  imports Main
begin

section \<open>Values exchanged with the remote service\<close>

text \<open>
  Every remote call of \<^verbatim>\<open>app.py\<close> returns \<^verbatim>\<open>response.json()\<close>, a Python value built
  from \<^verbatim>\<open>None\<close>, booleans, numbers, strings, lists and dicts. A dict is kept as the list
  of its items in insertion order; a lookup takes the first item with the key. Numbers are
  integers: no property below reads a fractional number.
\<close>

datatype json =
    JNull
  | JBool bool
  | JNum int
  | JStr string
  | JArr "json list"
  | JObj "(string \<times> json) list"

text \<open>The exceptions the pipeline can meet. \<open>RequestException\<close> is a transport failure
  raised by \<^verbatim>\<open>requests.get\<close> or \<^verbatim>\<open>requests.post\<close>; \<open>JSONDecodeError\<close> is raised by
  \<^verbatim>\<open>response.json()\<close> on a body that is not JSON.\<close>

datatype error =
    KeyError
  | TypeError
  | IndexError
  | ValueError
  | OverflowError
  | JSONDecodeError
  | RequestException

text \<open>Python truth value, as tested by \<^verbatim>\<open>if not data\<close>, \<^verbatim>\<open>if after\<close> and
  \<^verbatim>\<open>if not data['artists']['next']\<close>.\<close>

fun truthy :: "json \<Rightarrow> bool" where
  "truthy JNull = False"
| "truthy (JBool b) = b"
| "truthy (JNum n) = (n \<noteq> 0)"
| "truthy (JStr s) = (s \<noteq> [])"
| "truthy (JArr xs) = (xs \<noteq> [])"
| "truthy (JObj kvs) = (kvs \<noteq> [])"

text \<open>\<^verbatim>\<open>d[k]\<close> with a string key: a dict without the key raises KeyError, every other
  value raises TypeError.\<close>

fun subscript :: "json \<Rightarrow> string \<Rightarrow> error + json" where
  "subscript (JObj kvs) k = (case map_of kvs k of None \<Rightarrow> Inl KeyError | Some v \<Rightarrow> Inr v)"
| "subscript _ k = Inl TypeError"

text \<open>\<^verbatim>\<open>xs[0]\<close>: the first element of a list or string, IndexError when it is empty; a dict
  parsed from JSON has string keys only, so the key \<^verbatim>\<open>0\<close> is missing.\<close>

fun subscript0 :: "json \<Rightarrow> error + json" where
  "subscript0 (JArr []) = Inl IndexError"
| "subscript0 (JArr (x # xs)) = Inr x"
| "subscript0 (JStr []) = Inl IndexError"
| "subscript0 (JStr (c # cs)) = Inr (JStr [c])"
| "subscript0 (JObj kvs) = Inl KeyError"
| "subscript0 _ = Inl TypeError"

text \<open>The elements a \<^verbatim>\<open>for\<close> loop or \<^verbatim>\<open>list.extend\<close> draws from a value: the elements of
  a list, the characters of a string, the keys of a dict; anything else is not iterable.\<close>

fun iterate :: "json \<Rightarrow> error + json list" where
  "iterate (JArr xs) = Inr xs"
| "iterate (JStr s) = Inr (map (\<lambda>c. JStr [c]) s)"
| "iterate (JObj kvs) = Inr (map (\<lambda>kv. JStr (fst kv)) kvs)"
| "iterate _ = Inl TypeError"

text \<open>\<^verbatim>\<open>xs[:n]\<close> on a list or a string; other values cannot be sliced.\<close>

fun slice_to :: "nat \<Rightarrow> json \<Rightarrow> error + json" where
  "slice_to n (JArr xs) = Inr (JArr (take n xs))"
| "slice_to n (JStr s) = Inr (JStr (take n s))"
| "slice_to n _ = Inl TypeError"

text \<open>\<^verbatim>\<open>len(x)\<close>: defined on strings, lists and dicts.\<close>

fun py_len :: "json \<Rightarrow> error + nat" where
  "py_len (JStr s) = Inr (length s)"
| "py_len (JArr xs) = Inr (length xs)"
| "py_len (JObj kvs) = Inr (length kvs)"
| "py_len _ = Inl TypeError"

text \<open>Sequencing of steps that may raise: the first exception ends the computation.\<close>

definition and_then :: "error + 'a \<Rightarrow> ('a \<Rightarrow> error + 'b) \<Rightarrow> error + 'b" where
  "and_then m f = (case m of Inl e \<Rightarrow> Inl e | Inr x \<Rightarrow> f x)"

section \<open>Remote calls\<close>

text \<open>
  The path of a call names the endpoint; the f-string paths of the source
  (\<^verbatim>\<open>f'/artists/{artist_id}/albums'\<close> and the like) are kept as a constructor holding the
  value that is formatted into the path.
\<close>

datatype endpoint =
    Me
  | MeFollowing
  | RelatedArtists json
  | ArtistAlbums json
  | AlbumTracks json
  | UserPlaylists json
  | PlaylistTracks json

text \<open>A call carries the bearer token, the endpoint and either the query parameters of a
  GET (in the order the source writes the dict; \<^verbatim>\<open>params=None\<close> is the empty list) or the
  JSON body of a POST.\<close>

datatype request =
    GET string endpoint "(string \<times> json) list"
  | POST string endpoint json

record response =
  status_code :: nat
  body :: "json option"

text \<open>
  The remote service is outside the program. It answers a call either with a transport
  failure or with a response, and the answer may depend on the calls made before: the
  service is a function of the log of earlier calls and of the call. A body that is not
  JSON is \<open>None\<close>.
\<close>

type_synonym service = "request list \<Rightarrow> request \<Rightarrow> error + response"

definition response_json :: "response \<Rightarrow> error + json" where
  "response_json r = (case body r of None \<Rightarrow> Inl JSONDecodeError | Some j \<Rightarrow> Inr j)"

text \<open>\<^verbatim>\<open>SpotifyAPI.make_request\<close>: status 401 gives \<^verbatim>\<open>None\<close>, every other status the decoded
  body. The call is added to the log whatever its outcome.\<close>

definition make_request ::
  "service \<Rightarrow> endpoint \<Rightarrow> string \<Rightarrow> (string \<times> json) list \<Rightarrow> request list
    \<Rightarrow> (error + json) \<times> request list" where
  "make_request srv endpoint access_token params log =
     (let rq = GET access_token endpoint params in
      case srv log rq of
        Inl e \<Rightarrow> (Inl e, log @ [rq])
      | Inr r \<Rightarrow>
          if status_code r = 401 then (Inr JNull, log @ [rq])
          else (response_json r, log @ [rq]))"

text \<open>\<^verbatim>\<open>SpotifyAPI.add_tracks_to_playlist\<close>: the loop
  \<^verbatim>\<open>for i in range(0, len(track_uris), 100)\<close> posts \<^verbatim>\<open>track_uris[i:i+100]\<close> and ignores
  the response; only a transport failure stops it.\<close>

definition add_tracks_request :: "string \<Rightarrow> json \<Rightarrow> json list \<Rightarrow> request" where
  "add_tracks_request access_token playlist_id batch =
     POST access_token (PlaylistTracks playlist_id) (JObj [(''uris'', JArr batch)])"

function add_tracks_from ::
  "service \<Rightarrow> string \<Rightarrow> json \<Rightarrow> json list \<Rightarrow> nat \<Rightarrow> request list
    \<Rightarrow> (error + unit) \<times> request list" where
  "add_tracks_from srv access_token playlist_id track_uris i log =
     (if i < length track_uris then
        (let batch = take 100 (drop i track_uris);
             rq = add_tracks_request access_token playlist_id batch in
         case srv log rq of
           Inl e \<Rightarrow> (Inl e, log @ [rq])
         | Inr r \<Rightarrow> add_tracks_from srv access_token playlist_id track_uris (i + 100) (log @ [rq]))
      else (Inr (), log))"
  by pat_completeness auto
termination
  by (relation "measure (\<lambda>(srv, tok, pid, uris, i, log). length uris - i)") auto

definition add_tracks_to_playlist ::
  "service \<Rightarrow> string \<Rightarrow> json \<Rightarrow> json list \<Rightarrow> request list \<Rightarrow> (error + unit) \<times> request list" where
  "add_tracks_to_playlist srv access_token playlist_id track_uris log =
     add_tracks_from srv access_token playlist_id track_uris 0 log"

declare add_tracks_from.simps [simp del]

text \<open>\<^verbatim>\<open>SpotifyAPI.get_followed_artists\<close>. The query of a page holds \<^verbatim>\<open>after\<close> only when the
  cursor is true in Python's sense.\<close>

definition followed_params :: "int \<Rightarrow> json \<Rightarrow> (string \<times> json) list" where
  "followed_params limit after =
     [(''type'', JStr ''artist''), (''limit'', JNum limit)]
       @ (if truthy after then [(''after'', after)] else [])"

text \<open>The body of the loop after a true \<^verbatim>\<open>data\<close>: extend \<^verbatim>\<open>artists\<close> by
  \<^verbatim>\<open>data['artists']['items']\<close>; stop (\<open>None\<close>) when \<^verbatim>\<open>data['artists']['next']\<close> is false,
  otherwise go on with the cursor \<^verbatim>\<open>data['artists']['cursors']['after']\<close>.\<close>

definition followed_page :: "json list \<Rightarrow> json \<Rightarrow> error + json list \<times> json option" where
  "followed_page artists data =
     and_then (subscript data ''artists'') (\<lambda>a.
     and_then (subscript a ''items'') (\<lambda>items.
     and_then (iterate items) (\<lambda>xs.
     and_then (subscript a ''next'') (\<lambda>nxt.
       if \<not> truthy nxt then Inr (artists @ xs, None)
       else
         and_then (subscript a ''cursors'') (\<lambda>cursors.
         and_then (subscript cursors ''after'') (\<lambda>after.
           Inr (artists @ xs, Some after)))))))"

text \<open>The \<^verbatim>\<open>while True\<close> loop. It has no bound of its own: a service that always names a
  next page keeps it running, and then the function has no value (\<open>None\<close>).\<close>

partial_function (option) followed_artists_loop ::
  "service \<Rightarrow> string \<Rightarrow> int \<Rightarrow> json list \<Rightarrow> json \<Rightarrow> request list
    \<Rightarrow> ((error + json list) \<times> request list) option" where
  "followed_artists_loop srv access_token limit artists after log =
     (case make_request srv MeFollowing access_token (followed_params limit after) log of
        (Inl e, log1) \<Rightarrow> Some (Inl e, log1)
      | (Inr data, log1) \<Rightarrow>
          if \<not> truthy data then Some (Inr artists, log1)
          else
            (case followed_page artists data of
               Inl e \<Rightarrow> Some (Inl e, log1)
             | Inr (artists1, None) \<Rightarrow> Some (Inr artists1, log1)
             | Inr (artists1, Some after1) \<Rightarrow>
                 followed_artists_loop srv access_token limit artists1 after1 log1))"

declare followed_artists_loop.simps [code]

definition get_followed_artists ::
  "service \<Rightarrow> string \<Rightarrow> int \<Rightarrow> request list \<Rightarrow> ((error + json list) \<times> request list) option" where
  "get_followed_artists srv access_token limit log =
     followed_artists_loop srv access_token limit [] JNull log"

text \<open>The three getters share one shape: \<^verbatim>\<open>data[field] if data else []\<close>.\<close>

definition field_or_empty :: "string \<Rightarrow> (error + json) \<times> request list \<Rightarrow> (error + json) \<times> request list" where
  "field_or_empty field res =
     (case res of
        (Inl e, log1) \<Rightarrow> (Inl e, log1)
      | (Inr data, log1) \<Rightarrow>
          if truthy data then (subscript data field, log1) else (Inr (JArr []), log1))"

definition get_related_artists ::
  "service \<Rightarrow> string \<Rightarrow> json \<Rightarrow> request list \<Rightarrow> (error + json) \<times> request list" where
  "get_related_artists srv access_token artist_id log =
     field_or_empty ''artists'' (make_request srv (RelatedArtists artist_id) access_token [] log)"

definition albums_params :: "int \<Rightarrow> (string \<times> json) list" where
  "albums_params limit =
     [(''include_groups'', JStr ''album,single''), (''market'', JStr ''US''), (''limit'', JNum limit)]"

definition get_artist_albums ::
  "service \<Rightarrow> string \<Rightarrow> json \<Rightarrow> int \<Rightarrow> request list \<Rightarrow> (error + json) \<times> request list" where
  "get_artist_albums srv access_token artist_id limit log =
     field_or_empty ''items''
       (make_request srv (ArtistAlbums artist_id) access_token (albums_params limit) log)"

definition get_album_tracks ::
  "service \<Rightarrow> string \<Rightarrow> json \<Rightarrow> request list \<Rightarrow> (error + json) \<times> request list" where
  "get_album_tracks srv access_token album_id log =
     field_or_empty ''items'' (make_request srv (AlbumTracks album_id) access_token [] log)"

definition get_user_profile ::
  "service \<Rightarrow> string \<Rightarrow> request list \<Rightarrow> (error + json) \<times> request list" where
  "get_user_profile srv access_token log = make_request srv Me access_token [] log"

text \<open>\<^verbatim>\<open>SpotifyAPI.create_playlist\<close>: one POST, whose decoded body is returned whatever the
  status.\<close>

definition create_playlist_request :: "string \<Rightarrow> json \<Rightarrow> string \<Rightarrow> string \<Rightarrow> request" where
  "create_playlist_request access_token user_id name description =
     POST access_token (UserPlaylists user_id)
       (JObj [(''name'', JStr name), (''description'', JStr description), (''public'', JBool False)])"

definition create_playlist ::
  "service \<Rightarrow> string \<Rightarrow> json \<Rightarrow> string \<Rightarrow> string \<Rightarrow> request list
    \<Rightarrow> (error + json) \<times> request list" where
  "create_playlist srv access_token user_id name description log =
     (let rq = create_playlist_request access_token user_id name description in
      case srv log rq of
        Inl e \<Rightarrow> (Inl e, log @ [rq])
      | Inr r \<Rightarrow> (response_json r, log @ [rq]))"

section \<open>Release dates\<close>

text \<open>
  A naive \<^verbatim>\<open>datetime\<close> is kept as the number of microseconds since 0001-01-01 00:00:00, the
  first instant the type has. Comparing two such numbers is comparing the datetimes, and
  subtracting a \<^verbatim>\<open>timedelta\<close> is subtracting its microseconds; the result must not fall
  before the first instant. The day number of a date is computed as \<^verbatim>\<open>datetime.py\<close> does
  (\<^verbatim>\<open>_is_leap\<close>, \<^verbatim>\<open>_days_before_year\<close>, \<^verbatim>\<open>_days_in_month\<close>, \<^verbatim>\<open>_days_before_month\<close>,
  \<^verbatim>\<open>_ymd2ord\<close>).
\<close>

type_synonym datetime = int

definition microseconds_per_second :: int where
  "microseconds_per_second = 1000000"

definition microseconds_per_day :: int where
  "microseconds_per_day = 86400 * microseconds_per_second"

definition is_leap :: "int \<Rightarrow> bool" where
  "is_leap year = (year mod 4 = 0 \<and> (if year mod 100 = 0 then year mod 400 = 0 else True))"

definition days_before_year :: "int \<Rightarrow> int" where
  "days_before_year year = (let y = year - 1 in y * 365 + y div 4 - y div 100 + y div 400)"

definition days_in_month :: "int \<Rightarrow> int \<Rightarrow> int" where
  "days_in_month year month =
     (if month = 2 \<and> is_leap year then 29
      else [31, 28, 31, 30, 31, 30, 31, 31, 30, 31, 30, 31] ! nat (month - 1))"

definition days_before_month :: "int \<Rightarrow> int \<Rightarrow> int" where
  "days_before_month year month =
     [0, 31, 59, 90, 120, 151, 181, 212, 243, 273, 304, 334] ! nat (month - 1)
       + (if month > 2 \<and> is_leap year then 1 else 0)"

definition ymd2ord :: "int \<Rightarrow> int \<Rightarrow> int \<Rightarrow> int" where
  "ymd2ord year month day = days_before_year year + days_before_month year month + day"

text \<open>\<^verbatim>\<open>datetime(year, month, day)\<close>, at midnight: ValueError unless the year is in 1..9999,
  the month in 1..12 and the day in the month.\<close>

definition datetime_of_date :: "int \<Rightarrow> int \<Rightarrow> int \<Rightarrow> error + datetime" where
  "datetime_of_date year month day =
     (if 1 \<le> year \<and> year \<le> 9999 \<and> 1 \<le> month \<and> month \<le> 12
         \<and> 1 \<le> day \<and> day \<le> days_in_month year month
      then Inr ((ymd2ord year month day - 1) * microseconds_per_day)
      else Inl ValueError)"

text \<open>
  \<^verbatim>\<open>datetime.strptime\<close> turns the format into a regular expression, matches it at the
  start of the string and raises ValueError when it does not match or when characters
  remain after the match. The directives are \<^verbatim>\<open>%Y\<close> = \<^verbatim>\<open>\d\d\d\d\<close>,
  \<^verbatim>\<open>%m\<close> = \<^verbatim>\<open>1[0-2]|0[1-9]|[1-9]\<close> and \<^verbatim>\<open>%d\<close> = \<^verbatim>\<open>3[0-1]|[1-2]\d|0[1-9]|[1-9]| [1-9]\<close>.
  A string is a Python \<^verbatim>\<open>str\<close> whose code points are below 256, where \<^verbatim>\<open>\d\<close> is an
  ASCII digit.
\<close>

definition digit :: "char \<Rightarrow> int option" where
  "digit c =
     (let n = (of_char c :: nat) in if 48 \<le> n \<and> n \<le> 57 then Some (int n - 48) else None)"

text \<open>The year that \<^verbatim>\<open>%Y\<close> reads from exactly four digits.\<close>

definition year_of :: "string \<Rightarrow> int option" where
  "year_of s =
     (case map digit s of
        [Some a, Some b, Some c, Some d] \<Rightarrow> Some (1000 * a + 100 * b + 10 * c + d)
      | _ \<Rightarrow> None)"

text \<open>Format \<^verbatim>\<open>'%Y'\<close>: exactly four digits; month and day default to 1.\<close>

definition strptime_Y :: "string \<Rightarrow> error + datetime" where
  "strptime_Y s =
     (case year_of s of
        None \<Rightarrow> Inl ValueError
      | Some year \<Rightarrow> datetime_of_date year 1 1)"

text \<open>The two characters of a month that \<^verbatim>\<open>%m\<close> accepts, and of a day that \<^verbatim>\<open>%d\<close>
  accepts.\<close>

definition month_of :: "char \<Rightarrow> char \<Rightarrow> int option" where
  "month_of m1 m2 =
     (case (digit m1, digit m2) of
        (Some a, Some b) \<Rightarrow> if 1 \<le> 10 * a + b \<and> 10 * a + b \<le> 12 then Some (10 * a + b) else None
      | _ \<Rightarrow> None)"

definition day_of :: "char \<Rightarrow> char \<Rightarrow> int option" where
  "day_of d1 d2 =
     (case (digit d1, digit d2) of
        (Some a, Some b) \<Rightarrow> if 1 \<le> 10 * a + b \<and> 10 * a + b \<le> 31 then Some (10 * a + b) else None
      | (None, Some b) \<Rightarrow> if d1 = CHR '' '' \<and> 1 \<le> b then Some b else None
      | _ \<Rightarrow> None)"

text \<open>Format \<^verbatim>\<open>'%Y-%m-%d'\<close> on a string of ten characters, the only strings the source
  parses with it: with four characters for the year and two hyphens, month and day have two
  characters each, or characters remain after the match.\<close>

definition strptime_Ymd :: "string \<Rightarrow> error + datetime" where
  "strptime_Ymd s =
     (case s of
        [y1, y2, y3, y4, h1, m1, m2, h2, d1, d2] \<Rightarrow>
          if h1 = CHR ''-'' \<and> h2 = CHR ''-'' then
            (case year_of [y1, y2, y3, y4] of
               None \<Rightarrow> Inl ValueError
             | Some year \<Rightarrow>
                 (case month_of m1 m2 of
                    None \<Rightarrow> Inl ValueError
                  | Some month \<Rightarrow>
                      (case day_of d1 d2 of
                         None \<Rightarrow> Inl ValueError
                       | Some day \<Rightarrow> datetime_of_date year month day)))
          else Inl ValueError
      | _ \<Rightarrow> Inl ValueError)"

text \<open>Line 248:
  \<^verbatim>\<open>datetime.strptime(album['release_date'], '%Y-%m-%d' if len(album['release_date']) == 10 else '%Y')\<close>.
  \<^verbatim>\<open>strptime\<close> raises TypeError on a value that is not a string.\<close>

definition parse_release_date :: "json \<Rightarrow> error + datetime" where
  "parse_release_date album =
     and_then (subscript album ''release_date'') (\<lambda>release_date.
     and_then (py_len release_date) (\<lambda>n.
       case release_date of
         JStr s \<Rightarrow> if n = 10 then strptime_Ymd s else strptime_Y s
       | _ \<Rightarrow> Inl TypeError))"

text \<open>Line 240: \<^verbatim>\<open>datetime.now() - timedelta(days=7)\<close>.\<close>

definition one_week_before :: "datetime \<Rightarrow> error + datetime" where
  "one_week_before now =
     (if now - 7 * microseconds_per_day < 0 then Inl OverflowError
      else Inr (now - 7 * microseconds_per_day))"

section \<open>The pipeline of \<^verbatim>\<open>generate_playlist\<close>\<close>

text \<open>
  \<^verbatim>\<open>all_artists\<close> is a Python set of the \<^verbatim>\<open>id\<close> values. Python holds two members of a set
  apart by \<^verbatim>\<open>==\<close>, for which \<^verbatim>\<open>True\<close> is \<^verbatim>\<open>1\<close> and \<^verbatim>\<open>False\<close> is \<^verbatim>\<open>0\<close>; strings, numbers and
  \<^verbatim>\<open>None\<close> are equal to themselves only. \<^verbatim>\<open>set.add\<close> raises TypeError on an unhashable value
  (a list or a dict) and leaves the set as it is when it holds a member equal to the value.
\<close>

fun py_eq :: "json \<Rightarrow> json \<Rightarrow> bool" where
  "py_eq (JBool b) (JNum n) = (n = (if b then 1 else 0))"
| "py_eq (JNum n) (JBool b) = (n = (if b then 1 else 0))"
| "py_eq x y = (x = y)"

definition set_add :: "json set \<Rightarrow> json \<Rightarrow> error + json set" where
  "set_add all_artists x =
     (case x of
        JArr xs \<Rightarrow> Inl TypeError
      | JObj kvs \<Rightarrow> Inl TypeError
      | _ \<Rightarrow> Inr (if \<exists>y \<in> all_artists. py_eq y x then all_artists else insert x all_artists))"

text \<open>Lines 234-235: \<^verbatim>\<open>for related in related_artists[:5]: all_artists.add(related['id'])\<close>,
  over the elements of the slice.\<close>

fun add_related :: "json set \<Rightarrow> json list \<Rightarrow> error + json set" where
  "add_related all_artists [] = Inr all_artists"
| "add_related all_artists (related # rest) =
     and_then (subscript related ''id'') (\<lambda>related_id.
     and_then (set_add all_artists related_id) (\<lambda>all_artists1.
       add_related all_artists1 rest))"

text \<open>Lines 229-235: the loop over the followed artists.\<close>

fun collect_artists ::
  "service \<Rightarrow> string \<Rightarrow> json set \<Rightarrow> json list \<Rightarrow> request list
    \<Rightarrow> (error + json set) \<times> request list" where
  "collect_artists srv access_token all_artists [] log = (Inr all_artists, log)"
| "collect_artists srv access_token all_artists (artist # rest) log =
     (case and_then (subscript artist ''id'') (\<lambda>artist_id.
             and_then (set_add all_artists artist_id) (\<lambda>all_artists1.
               Inr (artist_id, all_artists1))) of
        Inl e \<Rightarrow> (Inl e, log)
      | Inr (artist_id, all_artists1) \<Rightarrow>
          (case get_related_artists srv access_token artist_id log of
             (Inl e, log1) \<Rightarrow> (Inl e, log1)
           | (Inr related_artists, log1) \<Rightarrow>
               (case and_then (slice_to 5 related_artists) (\<lambda>first5.
                       and_then (iterate first5) (\<lambda>relateds.
                         add_related all_artists1 relateds)) of
                  Inl e \<Rightarrow> (Inl e, log1)
                | Inr all_artists2 \<Rightarrow>
                    collect_artists srv access_token all_artists2 rest log1)))"

text \<open>Lines 253-259: the dict appended for one track of a qualifying album; its values
  are evaluated in the order written.\<close>

definition track_entry :: "json \<Rightarrow> json \<Rightarrow> error + json" where
  "track_entry album track =
     and_then (subscript track ''uri'') (\<lambda>uri.
     and_then (subscript track ''name'') (\<lambda>name.
     and_then (subscript album ''artists'') (\<lambda>artists.
     and_then (subscript0 artists) (\<lambda>first_artist.
     and_then (subscript first_artist ''name'') (\<lambda>artist.
     and_then (subscript album ''name'') (\<lambda>album_name.
     and_then (subscript album ''release_date'') (\<lambda>release_date.
       Inr (JObj [(''uri'', uri), (''name'', name), (''artist'', artist),
                  (''album'', album_name), (''release_date'', release_date)]))))))))"

text \<open>Lines 252-259: \<^verbatim>\<open>for track in tracks: recent_tracks.append({...})\<close>.\<close>

fun append_tracks :: "json \<Rightarrow> json list \<Rightarrow> json list \<Rightarrow> error + json list" where
  "append_tracks album recent_tracks [] = Inr recent_tracks"
| "append_tracks album recent_tracks (track # rest) =
     and_then (track_entry album track) (\<lambda>entry.
       append_tracks album (recent_tracks @ [entry]) rest)"

text \<open>Lines 246-259: the loop over the albums of one artist.\<close>

fun scan_albums ::
  "service \<Rightarrow> string \<Rightarrow> datetime \<Rightarrow> json list \<Rightarrow> json list \<Rightarrow> request list
    \<Rightarrow> (error + json list) \<times> request list" where
  "scan_albums srv access_token one_week_ago recent_tracks [] log = (Inr recent_tracks, log)"
| "scan_albums srv access_token one_week_ago recent_tracks (album # rest) log =
     (case parse_release_date album of
        Inl e \<Rightarrow> (Inl e, log)
      | Inr release_date \<Rightarrow>
          if release_date \<ge> one_week_ago then
            (case subscript album ''id'' of
               Inl e \<Rightarrow> (Inl e, log)
             | Inr album_id \<Rightarrow>
                 (case get_album_tracks srv access_token album_id log of
                    (Inl e, log1) \<Rightarrow> (Inl e, log1)
                  | (Inr tracks, log1) \<Rightarrow>
                      (case and_then (iterate tracks) (append_tracks album recent_tracks) of
                         Inl e \<Rightarrow> (Inl e, log1)
                       | Inr recent_tracks1 \<Rightarrow>
                           scan_albums srv access_token one_week_ago recent_tracks1 rest log1)))
          else scan_albums srv access_token one_week_ago recent_tracks rest log)"

text \<open>Lines 243-259: the loop over \<^verbatim>\<open>list(all_artists)[:50]\<close>, with \<^verbatim>\<open>limit=10\<close> for the
  albums of each artist.\<close>

fun scan_artists ::
  "service \<Rightarrow> string \<Rightarrow> datetime \<Rightarrow> json list \<Rightarrow> json list \<Rightarrow> request list
    \<Rightarrow> (error + json list) \<times> request list" where
  "scan_artists srv access_token one_week_ago recent_tracks [] log = (Inr recent_tracks, log)"
| "scan_artists srv access_token one_week_ago recent_tracks (artist_id # rest) log =
     (case get_artist_albums srv access_token artist_id 10 log of
        (Inl e, log1) \<Rightarrow> (Inl e, log1)
      | (Inr albums, log1) \<Rightarrow>
          (case iterate albums of
             Inl e \<Rightarrow> (Inl e, log1)
           | Inr album_list \<Rightarrow>
               (case scan_albums srv access_token one_week_ago recent_tracks album_list log1 of
                  (Inl e, log2) \<Rightarrow> (Inl e, log2)
                | (Inr recent_tracks1, log2) \<Rightarrow>
                    scan_artists srv access_token one_week_ago recent_tracks1 rest log2)))"

text \<open>Line 277: \<^verbatim>\<open>[track['uri'] for track in recent_tracks]\<close>.\<close>

fun track_uris_of :: "json list \<Rightarrow> error + json list" where
  "track_uris_of [] = Inr []"
| "track_uris_of (track # rest) =
     and_then (subscript track ''uri'') (\<lambda>uri.
     and_then (track_uris_of rest) (\<lambda>uris. Inr (uri # uris)))"

text \<open>
  What the handler returns: the JSON body and the status.
  \<^item> \<open>NotAuthenticated\<close>: \<^verbatim>\<open>{'error': 'Not authenticated'}\<close>, status 401;
  \<^item> \<open>NoRecentReleases\<close>: \<^verbatim>\<open>{'message': 'No recent releases found from the last week'}\<close>,
    status 200;
  \<^item> \<open>PlaylistCreated\<close>: \<^verbatim>\<open>success\<close>, the playlist's name and URL, the number of tracks added
    and the first ten tracks, status 200;
  \<^item> \<open>Failed\<close>: \<^verbatim>\<open>{'error': 'Failed to generate playlist: ...'}\<close>, status 500, for any
    exception caught by \<^verbatim>\<open>except Exception\<close>.
\<close>

datatype outcome =
    NotAuthenticated
  | NoRecentReleases
  | PlaylistCreated string json nat "json list"
  | Failed error

fun status_of :: "outcome \<Rightarrow> nat" where
  "status_of NotAuthenticated = 401"
| "status_of NoRecentReleases = 200"
| "status_of (PlaylistCreated name url added preview) = 200"
| "status_of (Failed e) = 500"

text \<open>The clock is read three times: for the window (line 240) and, formatted as
  \<^verbatim>\<open>%Y-%m-%d\<close>, for the name (line 266) and the description (line 267) of the playlist.\<close>

record clock =
  now :: datetime
  name_date :: string
  description_date :: string

text \<open>Lines 264-286: the playlist is created and filled.\<close>

definition publish_playlist ::
  "service \<Rightarrow> string \<Rightarrow> clock \<Rightarrow> json list \<Rightarrow> request list \<Rightarrow> outcome \<times> request list" where
  "publish_playlist srv access_token clk recent_tracks log =
     (case get_user_profile srv access_token log of
        (Inl e, log1) \<Rightarrow> (Failed e, log1)
      | (Inr user_profile, log1) \<Rightarrow>
          (let playlist_name = ''Weekly Discoveries - '' @ name_date clk;
               playlist_description =
                 ''Recent releases from your followed artists and their related artists (last 7 days). Generated on ''
                   @ description_date clk in
           case subscript user_profile ''id'' of
             Inl e \<Rightarrow> (Failed e, log1)
           | Inr user_id \<Rightarrow>
               (case create_playlist srv access_token user_id playlist_name playlist_description log1 of
                  (Inl e, log2) \<Rightarrow> (Failed e, log2)
                | (Inr playlist, log2) \<Rightarrow>
                    (case and_then (track_uris_of recent_tracks) (\<lambda>track_uris.
                            and_then (subscript playlist ''id'') (\<lambda>playlist_id.
                              Inr (track_uris, playlist_id))) of
                       Inl e \<Rightarrow> (Failed e, log2)
                     | Inr (track_uris, playlist_id) \<Rightarrow>
                         (case add_tracks_to_playlist srv access_token playlist_id track_uris log2 of
                            (Inl e, log3) \<Rightarrow> (Failed e, log3)
                          | (Inr u, log3) \<Rightarrow>
                              (case and_then (subscript playlist ''external_urls'') (\<lambda>urls.
                                      subscript urls ''spotify'') of
                                 Inl e \<Rightarrow> (Failed e, log3)
                               | Inr playlist_url \<Rightarrow>
                                   (PlaylistCreated playlist_name playlist_url
                                      (length recent_tracks) (take 10 recent_tracks), log3)))))))"

text \<open>Lines 240-262: the window is fixed, the artists are scanned, and an empty list of
  tracks ends the run with the message.\<close>

definition find_and_publish ::
  "service \<Rightarrow> string \<Rightarrow> clock \<Rightarrow> json list \<Rightarrow> request list \<Rightarrow> outcome \<times> request list" where
  "find_and_publish srv access_token clk artist_ids log =
     (case one_week_before (now clk) of
        Inl e \<Rightarrow> (Failed e, log)
      | Inr one_week_ago \<Rightarrow>
          (case scan_artists srv access_token one_week_ago [] artist_ids log of
             (Inl e, log1) \<Rightarrow> (Failed e, log1)
           | (Inr recent_tracks, log1) \<Rightarrow>
               if recent_tracks = [] then (NoRecentReleases, log1)
               else publish_playlist srv access_token clk recent_tracks log1))"

text \<open>
  The handler \<^verbatim>\<open>generate_playlist\<close>. The session either holds an access token or not. The
  order in which \<^verbatim>\<open>list(all_artists)\<close> lists a set is left to the Python runtime: it is the
  parameter \<open>list_of\<close>. The result is the outcome and the log of the calls made, or \<open>None\<close>
  when the walk over the followed artists does not end.
\<close>

definition generate_playlist ::
  "service \<Rightarrow> (json set \<Rightarrow> json list) \<Rightarrow> clock \<Rightarrow> string option
    \<Rightarrow> (outcome \<times> request list) option" where
  "generate_playlist srv list_of clk session =
     (case session of
        None \<Rightarrow> Some (NotAuthenticated, [])
      | Some access_token \<Rightarrow>
          (case get_followed_artists srv access_token 50 [] of
             None \<Rightarrow> None
           | Some (Inl e, log1) \<Rightarrow> Some (Failed e, log1)
           | Some (Inr followed_artists, log1) \<Rightarrow>
               (case collect_artists srv access_token {} followed_artists log1 of
                  (Inl e, log2) \<Rightarrow> Some (Failed e, log2)
                | (Inr all_artists, log2) \<Rightarrow>
                    Some (find_and_publish srv access_token clk (take 50 (list_of all_artists)) log2))))"

section \<open>Auxiliary definitions\<close>






definition sample_token :: string where "sample_token = ''token''"

text \<open>The decimal digits of a year (four) and of a month or day (two), as strings.\<close>

definition digit_char :: "int \<Rightarrow> char" where
  "digit_char d = char_of (48 + nat d)"

definition year_string :: "int \<Rightarrow> string" where
  "year_string y = map digit_char [y div 1000 mod 10, y div 100 mod 10, y div 10 mod 10, y mod 10]"

definition two_digits :: "int \<Rightarrow> string" where
  "two_digits n = map digit_char [n div 10 mod 10, n mod 10]"

definition date_string :: "int \<Rightarrow> int \<Rightarrow> int \<Rightarrow> string" where
  "date_string y m d = year_string y @ ''-'' @ two_digits m @ ''-'' @ two_digits d"

text \<open>A service that answers every call with an error object (here: rate limiting), and a
  service that answers every call with status 401.\<close>

definition error_body :: "(string \<times> json) list" where
  "error_body = [(''error'', JObj [(''status'', JNum 429),
                                    (''message'', JStr ''API rate limit exceeded'')])]"

definition error_body_service :: service where
  "error_body_service log rq = Inr \<lparr>status_code = 429, body = Some (JObj error_body)\<rparr>"

definition unauthorized_service :: service where
  "unauthorized_service log rq =
     Inr \<lparr>status_code = 401,
          body = Some (JObj [(''error'', JObj [(''status'', JNum 401),
                                               (''message'', JStr ''The access token expired'')])])\<rparr>"

definition sample_artist_id :: json where
  "sample_artist_id = JStr ''artist1''"

text \<open>
  A small world for the examples: two followed artists on two pages of the listing; seven
  related artists for the first and one for the second; for the first artist a release of
  2024-03-14 with the same track listed twice and a release of 2023; for the second artist
  ten old releases followed by a new one. The clock stands at 2024-03-15 12:00.
\<close>

definition named :: "string \<Rightarrow> string \<Rightarrow> json" where
  "named ident name = JObj [(''id'', JStr ident), (''name'', JStr name)]"

definition sample_album :: json where
  "sample_album =
     JObj [(''id'', JStr ''album1''), (''name'', JStr ''New Album''),
           (''release_date'', JStr ''2024-03-14''),
           (''artists'', JArr [named ''artist1'' ''First Artist'', named ''artist9'' ''Guest''])]"

definition old_album :: json where
  "old_album =
     JObj [(''id'', JStr ''album0''), (''name'', JStr ''Old Album''),
           (''release_date'', JStr ''2023''),
           (''artists'', JArr [named ''artist1'' ''First Artist''])]"

definition late_album :: json where
  "late_album =
     JObj [(''id'', JStr ''album11''), (''name'', JStr ''Eleventh Album''),
           (''release_date'', JStr ''2024-03-14''),
           (''artists'', JArr [named ''artist2'' ''Second Artist''])]"

definition sample_track :: json where
  "sample_track = JObj [(''uri'', JStr ''spotify:track:1''), (''name'', JStr ''Song'')]"

definition sample_tracks :: "json list" where
  "sample_tracks = [sample_track, sample_track]"

definition sample_entry :: json where
  "sample_entry =
     JObj [(''uri'', JStr ''spotify:track:1''), (''name'', JStr ''Song''),
           (''artist'', JStr ''First Artist''), (''album'', JStr ''New Album''),
           (''release_date'', JStr ''2024-03-14'')]"

definition sample_related :: "json list" where
  "sample_related =
       [named ''related1'' ''Related 1'',
        named ''related2'' ''Related 2'',
        named ''related3'' ''Related 3'',
        named ''related4'' ''Related 4'',
        named ''related5'' ''Related 5'',
        named ''related6'' ''Related 6'',
        named ''related7'' ''Related 7'']"

definition sample_page1 :: json where
  "sample_page1 =
     JObj [(''artists'',
            JObj [(''items'', JArr [named ''artist1'' ''First Artist'']),
                  (''next'', JStr ''https://api.spotify.com/v1/me/following?type=artist&after=artist1''),
                  (''cursors'', JObj [(''after'', JStr ''artist1'')])])]"

definition sample_page2 :: json where
  "sample_page2 =
     JObj [(''artists'',
            JObj [(''items'', JArr [named ''artist2'' ''Second Artist'']),
                  (''next'', JNull),
                  (''cursors'', JObj [(''after'', JNull)])])]"

definition album_listing :: "json \<Rightarrow> json list" where
  "album_listing artist_id =
     (if artist_id = JStr ''artist1'' then [sample_album, old_album]
      else if artist_id = JStr ''artist2'' then replicate 10 old_album @ [late_album]
      else [])"

definition limit_of :: "(string \<times> json) list \<Rightarrow> nat" where
  "limit_of params = (case map_of params ''limit'' of Some (JNum n) \<Rightarrow> nat n | _ \<Rightarrow> 20)"

definition sample_playlist_object :: json where
  "sample_playlist_object =
     JObj [(''id'', JStr ''playlist1''),
           (''external_urls'',
            JObj [(''spotify'', JStr ''https://open.spotify.com/playlist/playlist1'')])]"

definition sample_get :: "endpoint \<Rightarrow> (string \<times> json) list \<Rightarrow> json" where
  "sample_get endpoint params =
     (case endpoint of
        Me \<Rightarrow> JObj [(''id'', JStr ''user1'')]
      | MeFollowing \<Rightarrow>
          (case map_of params ''after'' of None \<Rightarrow> sample_page1 | Some after \<Rightarrow> sample_page2)
      | RelatedArtists artist_id \<Rightarrow>
          JObj [(''artists'',
                 JArr (if artist_id = JStr ''artist1'' then sample_related
                       else if artist_id = JStr ''artist2'' then [named ''related1'' ''Related 1'']
                       else []))]
      | ArtistAlbums artist_id \<Rightarrow>
          JObj [(''items'', JArr (take (limit_of params) (album_listing artist_id)))]
      | AlbumTracks album_id \<Rightarrow>
          JObj [(''items'', JArr (if album_id = JStr ''album1'' then sample_tracks else []))]
      | UserPlaylists user_id \<Rightarrow> JObj []
      | PlaylistTracks playlist_id \<Rightarrow> JObj [])"

definition sample_service :: service where
  "sample_service log rq =
     (case rq of
        GET tok endpoint params \<Rightarrow>
          Inr \<lparr>status_code = 200, body = Some (sample_get endpoint params)\<rparr>
      | POST tok endpoint payload \<Rightarrow>
          (case endpoint of
             UserPlaylists user_id \<Rightarrow> Inr \<lparr>status_code = 201, body = Some sample_playlist_object\<rparr>
           | _ \<Rightarrow> Inr \<lparr>status_code = 201, body = Some (JObj [(''snapshot_id'', JStr ''s1'')])\<rparr>))"

definition sample_universe :: "json list" where
  "sample_universe = [JStr ''artist1'', JStr ''artist2'', JStr ''related1'', JStr ''related2'', JStr ''related3'', JStr ''related4'', JStr ''related5'', JStr ''related6'', JStr ''related7'']"

definition sample_list_of :: "json set \<Rightarrow> json list" where
  "sample_list_of s = filter (\<lambda>x. x \<in> s) sample_universe"

definition sample_clock :: clock where
  "sample_clock =
     \<lparr>now = 738959 * microseconds_per_day + 12 * 3600 * microseconds_per_second,
      name_date = ''2024-03-15'', description_date = ''2024-03-15''\<rparr>"

text \<open>The call that fetches the tracks of an album (none when the album has no \<^verbatim>\<open>id\<close>), and
  the calls that list the albums of an artist.\<close>

definition track_request :: "string \<Rightarrow> json \<Rightarrow> request list" where
  "track_request tok album =
     (case subscript album ''id'' of
        Inl e \<Rightarrow> []
      | Inr album_id \<Rightarrow> [GET tok (AlbumTracks album_id) []])"

fun lists_albums :: "request \<Rightarrow> bool" where
  "lists_albums (GET tok (ArtistAlbums artist_id) params) = True"
| "lists_albums rq = False"

definition albums_request :: "string \<Rightarrow> json \<Rightarrow> request" where
  "albums_request tok artist_id =
     GET tok (ArtistAlbums artist_id)
       [(''include_groups'', JStr ''album,single''), (''market'', JStr ''US''), (''limit'', JNum 10)]"

text \<open>The identifiers of the remote service are strings. The \<^verbatim>\<open>id\<close> values of a list of
  artists, and the call that asks for the artists related to a seed.\<close>

definition is_string :: "json \<Rightarrow> bool" where
  "is_string x = (case x of JStr s \<Rightarrow> True | _ \<Rightarrow> False)"

definition ids_of :: "json list \<Rightarrow> json set" where
  "ids_of artists =
     set (concat (map (\<lambda>a. case subscript a ''id'' of Inl e \<Rightarrow> [] | Inr i \<Rightarrow> [i]) artists))"

definition related_request :: "string \<Rightarrow> json \<Rightarrow> request list" where
  "related_request tok artist =
     (case subscript artist ''id'' of
        Inl e \<Rightarrow> []
      | Inr artist_id \<Rightarrow> [GET tok (RelatedArtists artist_id) []])"

text \<open>In the small world: the followed artists, the artists related to each, and the artists
  to scan.\<close>

definition sample_followed :: "json list" where
  "sample_followed = [named ''artist1'' ''First Artist'', named ''artist2'' ''Second Artist'']"

definition sample_related_of :: "json \<Rightarrow> json list" where
  "sample_related_of artist =
     (if artist = named ''artist1'' ''First Artist'' then sample_related
      else [named ''related1'' ''Related 1''])"

definition sample_artist_ids :: "json list" where
  "sample_artist_ids =
     [JStr ''artist1'', JStr ''artist2'', JStr ''related1'', JStr ''related2'', JStr ''related3'',
      JStr ''related4'', JStr ''related5'']"

text \<open>The calls that write to the remote service.\<close>

fun is_post :: "request \<Rightarrow> bool" where
  "is_post (POST tok endpoint payload) = True"
| "is_post (GET tok endpoint params) = False"

text \<open>The calls of a whole run of the handler in the small world.\<close>

definition sample_run_log :: "request list" where
  "sample_run_log =
     [GET sample_token MeFollowing (followed_params 50 JNull),
      GET sample_token MeFollowing (followed_params 50 (JStr ''artist1'')),
      GET sample_token (RelatedArtists (JStr ''artist1'')) [],
      GET sample_token (RelatedArtists (JStr ''artist2'')) [],
      albums_request sample_token (JStr ''artist1''),
      GET sample_token (AlbumTracks (JStr ''album1'')) [],
      albums_request sample_token (JStr ''artist2''),
      albums_request sample_token (JStr ''related1''),
      albums_request sample_token (JStr ''related2''),
      albums_request sample_token (JStr ''related3''),
      albums_request sample_token (JStr ''related4''),
      albums_request sample_token (JStr ''related5''),
      GET sample_token Me [],
      create_playlist_request sample_token (JStr ''user1'') ''Weekly Discoveries - 2024-03-15''
        ''Recent releases from your followed artists and their related artists (last 7 days). Generated on 2024-03-15'',
      add_tracks_request sample_token (JStr ''playlist1'')
        [JStr ''spotify:track:1'', JStr ''spotify:track:1'']]"

text \<open>
  A page of the followed-artists listing, as the walk reads it: a true value whose
  \<^verbatim>\<open>artists\<close> object holds the list \<open>items\<close> and either names no next page (\<open>None\<close>) or
  names one and gives the cursor that leads to it.
\<close>

definition is_page :: "json \<Rightarrow> json list \<Rightarrow> json option \<Rightarrow> bool" where
  "is_page data items next_cursor =
     (truthy data \<and>
      (case subscript data ''artists'' of
         Inl e \<Rightarrow> False
       | Inr a \<Rightarrow>
           subscript a ''items'' = Inr (JArr items) \<and>
           (case subscript a ''next'' of
              Inl e \<Rightarrow> False
            | Inr nxt \<Rightarrow>
                (case next_cursor of
                   None \<Rightarrow> \<not> truthy nxt
                 | Some cursor \<Rightarrow>
                     truthy nxt \<and>
                     (case subscript a ''cursors'' of
                        Inl e \<Rightarrow> False
                      | Inr c \<Rightarrow> subscript c ''after'' = Inr cursor)))))"

text \<open>
  The call by which a client asks the remote service for a page of the listing: the type and
  the page size, and, for every page but the first, the cursor that the page before gave.
\<close>

definition listing_request :: "string \<Rightarrow> int \<Rightarrow> json option \<Rightarrow> request" where
  "listing_request tok limit cursor =
     GET tok MeFollowing
       ([(''type'', JStr ''artist''), (''limit'', JNum limit)]
          @ (case cursor of None \<Rightarrow> [] | Some c \<Rightarrow> [(''after'', c)]))"

text \<open>
  The service serves a paginated listing: asked for the first page (no cursor), it answers
  with status 200 and the first page; every page but the last names a next page and gives a
  cursor, and asked with that cursor the service answers with the next page. The last page
  names no next page. A page is the list of its items with the cursor it gives. The log is
  the log of the calls by which the pages before were asked for.
\<close>

fun serves ::
  "service \<Rightarrow> string \<Rightarrow> int \<Rightarrow> request list \<Rightarrow> json option
    \<Rightarrow> (json list \<times> json option) list \<Rightarrow> bool" where
  "serves srv tok limit log cursor [] = False"
| "serves srv tok limit log cursor ((items, next_cursor) # rest) =
     (case srv log (listing_request tok limit cursor) of
        Inl e \<Rightarrow> False
      | Inr r \<Rightarrow>
          status_code r = 200 \<and>
          (case body r of
             None \<Rightarrow> False
           | Some data \<Rightarrow>
               is_page data items next_cursor \<and>
               (case next_cursor of
                  None \<Rightarrow> rest = []
                | Some c \<Rightarrow>
                    serves srv tok limit (log @ [listing_request tok limit cursor])
                      next_cursor rest)))"

text \<open>A listing cut into pages of a given size: one page, possibly empty, when the listing
  has no more items than the size.\<close>

function chunks :: "nat \<Rightarrow> 'a list \<Rightarrow> 'a list list" where
  "chunks page_size xs =
     (if page_size = 0 \<or> length xs \<le> page_size then [xs]
      else take page_size xs # chunks page_size (drop page_size xs))"
  by pat_completeness auto
termination
  by (relation "measure (\<lambda>(page_size, xs). length xs)") auto

declare chunks.simps [simp del]

text \<open>
  The service serves the pages of a listing and then refuses the next call with status 401.
  Here every page gives the cursor to the next call.
\<close>

fun serves_until_unauthorized ::
  "service \<Rightarrow> string \<Rightarrow> int \<Rightarrow> request list \<Rightarrow> json \<Rightarrow> (json list \<times> json) list \<Rightarrow> bool" where
  "serves_until_unauthorized srv tok limit log after [] =
     (case srv log (GET tok MeFollowing (followed_params limit after)) of
        Inl e \<Rightarrow> False
      | Inr r \<Rightarrow> status_code r = 401)"
| "serves_until_unauthorized srv tok limit log after ((items, cursor) # rest) =
     (case make_request srv MeFollowing tok (followed_params limit after) log of
        (Inl e, log1) \<Rightarrow> False
      | (Inr data, log1) \<Rightarrow>
          is_page data items (Some cursor) \<and> truthy cursor \<and>
          serves_until_unauthorized srv tok limit log1 cursor rest)"

fun cursor_requests :: "string \<Rightarrow> int \<Rightarrow> json \<Rightarrow> (json list \<times> json) list \<Rightarrow> request list" where
  "cursor_requests tok limit after [] = [GET tok MeFollowing (followed_params limit after)]"
| "cursor_requests tok limit after ((items, cursor) # rest) =
     GET tok MeFollowing (followed_params limit after) # cursor_requests tok limit cursor rest"

text \<open>In the small world: the two pages of the listing; the page of an empty listing and a
  service that has nothing else; a service whose token expires after the first call.\<close>

definition sample_pages :: "(json list \<times> json option) list" where
  "sample_pages =
     [([named ''artist1'' ''First Artist''], Some (JStr ''artist1'')),
      ([named ''artist2'' ''Second Artist''], None)]"

definition empty_page :: json where
  "empty_page =
     JObj [(''artists'',
            JObj [(''items'', JArr []), (''next'', JNull),
                  (''cursors'', JObj [(''after'', JNull)]), (''total'', JNum 0)])]"

definition empty_listing_service :: service where
  "empty_listing_service log rq = Inr \<lparr>status_code = 200, body = Some empty_page\<rparr>"

definition expiring_service :: service where
  "expiring_service log rq =
     (if log = [] then Inr \<lparr>status_code = 200, body = Some sample_page1\<rparr>
      else Inr \<lparr>status_code = 401, body = Some (JObj [(''error'', JStr ''expired'')])\<rparr>)"

text \<open>
  An album whose release date is known to the month only, as the remote service gives it
  for such releases (\<^verbatim>\<open>release_date_precision\<close> \<^verbatim>\<open>"month"\<close>), and the small world in which the
  first artist has the new album and this one.
\<close>

definition month_album :: json where
  "month_album =
     JObj [(''id'', JStr ''album2''), (''name'', JStr ''March Album''),
           (''release_date'', JStr ''2024-03''), (''release_date_precision'', JStr ''month''),
           (''artists'', JArr [named ''artist1'' ''First Artist''])]"

definition month_precision_service :: service where
  "month_precision_service log rq =
     (case rq of
        GET tok (ArtistAlbums artist_id) params \<Rightarrow>
          Inr \<lparr>status_code = 200,
               body = Some (JObj [(''items'', JArr [sample_album, month_album])])\<rparr>
      | _ \<Rightarrow> sample_service log rq)"

text \<open>
  The service serves the first pages of the listing, each naming a next page and giving the
  cursor to it; what it answers after them is left open. The cursor and the calls made when
  these pages have been read.
\<close>

fun serves_pages ::
  "service \<Rightarrow> string \<Rightarrow> int \<Rightarrow> request list \<Rightarrow> json \<Rightarrow> (json list \<times> json) list \<Rightarrow> bool" where
  "serves_pages srv tok limit log after [] = True"
| "serves_pages srv tok limit log after ((items, cursor) # rest) =
     (case make_request srv MeFollowing tok (followed_params limit after) log of
        (Inl e, log1) \<Rightarrow> False
      | (Inr data, log1) \<Rightarrow>
          is_page data items (Some cursor) \<and> truthy cursor \<and>
          serves_pages srv tok limit log1 cursor rest)"

fun last_cursor :: "json \<Rightarrow> (json list \<times> json) list \<Rightarrow> json" where
  "last_cursor after [] = after"
| "last_cursor after ((items, cursor) # rest) = last_cursor cursor rest"

fun pages_requests :: "string \<Rightarrow> int \<Rightarrow> json \<Rightarrow> (json list \<times> json) list \<Rightarrow> request list" where
  "pages_requests tok limit after [] = []"
| "pages_requests tok limit after ((items, cursor) # rest) =
     GET tok MeFollowing (followed_params limit after) # pages_requests tok limit cursor rest"

text \<open>A service that limits the rate after the first call, and the small world with a
  related-artists endpoint that answers with an error object.\<close>

definition rate_limited_service :: service where
  "rate_limited_service log rq =
     (if log = [] then Inr \<lparr>status_code = 200, body = Some sample_page1\<rparr>
      else Inr \<lparr>status_code = 429, body = Some (JObj error_body)\<rparr>)"

definition related_error_service :: service where
  "related_error_service log rq =
     (case rq of
        GET tok (RelatedArtists artist_id) params \<Rightarrow>
          Inr \<lparr>status_code = 429, body = Some (JObj error_body)\<rparr>
      | _ \<Rightarrow> sample_service log rq)"

text \<open>
  A service whose listing has two pages of one artist each and gives the empty string as the
  cursor to the second page: asked without a cursor it answers with the first page, asked
  with a cursor it answers with the second.
\<close>

definition empty_cursor_page :: json where
  "empty_cursor_page =
     JObj [(''artists'',
            JObj [(''items'', JArr [named ''artist1'' ''First Artist'']),
                  (''next'', JStr ''https://api.spotify.com/v1/me/following?type=artist&after=''),
                  (''cursors'', JObj [(''after'', JStr '''')])])]"

definition empty_cursor_service :: service where
  "empty_cursor_service log rq =
     (case rq of
        GET tok endpoint params \<Rightarrow>
          (case map_of params ''after'' of
             None \<Rightarrow> Inr \<lparr>status_code = 200, body = Some empty_cursor_page\<rparr>
           | Some c \<Rightarrow> Inr \<lparr>status_code = 200, body = Some sample_page2\<rparr>)
      | POST tok endpoint payload \<Rightarrow> Inr \<lparr>status_code = 200, body = Some (JObj [])\<rparr>)"

definition empty_cursor_pages :: "(json list \<times> json option) list" where
  "empty_cursor_pages =
     [([named ''artist1'' ''First Artist''], Some (JStr '''')),
      ([named ''artist2'' ''Second Artist''], None)]"

section \<open>Properties\<close>

subsection \<open>Batched writes\<close>










lemma add_tracks_from_end:
  "\<not> i < length uris \<Longrightarrow> add_tracks_from srv tok pid uris i log = (Inr (), log)"
  by (subst add_tracks_from.simps) simp







subsection \<open>Release dates\<close>

lemma digit_digit_char: "0 \<le> k \<Longrightarrow> k \<le> 9 \<Longrightarrow> digit (digit_char k) = Some k"
proof -
  assume a: "0 \<le> k" "k \<le> 9"
  then have "48 + nat k < 256" by simp
  then have "(of_char (char_of (48 + nat k)) :: nat) = 48 + nat k"
    by (simp add: of_char_of)
  with a show ?thesis by (simp add: digit_def digit_char_def Let_def)
qed

lemma digit_mod10: "digit (digit_char (n mod 10)) = Some (n mod 10)"
  by (rule digit_digit_char) simp_all

lemma digits2:
  assumes "0 \<le> n" "n \<le> 99"
  shows "10 * (n div 10 mod 10) + n mod 10 = (n::int)"
proof -
  have "n mod (10 * 10) = 10 * (n div 10 mod 10) + n mod 10"
    by (rule zmod_zmult2_eq) simp
  moreover have "n mod 100 = n" using assms by (intro mod_pos_pos_trivial) simp_all
  ultimately show ?thesis by simp
qed

lemma digits4:
  assumes "0 \<le> y" "y \<le> 9999"
  shows "1000 * (y div 1000 mod 10) + 100 * (y div 100 mod 10) + 10 * (y div 10 mod 10) + y mod 10
           = (y::int)"
proof -
  have a: "y mod (10 * 10) = 10 * (y div 10 mod 10) + y mod 10"
    by (rule zmod_zmult2_eq) simp
  have b: "y mod (100 * 10) = 100 * (y div 100 mod 10) + y mod 100"
    by (rule zmod_zmult2_eq) simp
  have c: "y mod (1000 * 10) = 1000 * (y div 1000 mod 10) + y mod 1000"
    by (rule zmod_zmult2_eq) simp
  have d: "y mod 10000 = y" using assms by (intro mod_pos_pos_trivial) simp_all
  from a have a': "y mod 100 = 10 * (y div 10 mod 10) + y mod 10" by simp
  from b have b': "y mod 1000 = 100 * (y div 100 mod 10) + y mod 100" by simp
  from c have c': "y mod 10000 = 1000 * (y div 1000 mod 10) + y mod 1000" by simp
  from a' b' c' d show ?thesis by linarith
qed

lemma year_of_digits:
  "digit c1 = Some a \<Longrightarrow> digit c2 = Some b \<Longrightarrow> digit c3 = Some c \<Longrightarrow> digit c4 = Some d \<Longrightarrow>
   year_of [c1, c2, c3, c4] = Some (1000 * a + 100 * b + 10 * c + d)"
  by (simp add: year_of_def)

lemma month_of_digits:
  "digit c1 = Some a \<Longrightarrow> digit c2 = Some b \<Longrightarrow> 1 \<le> 10 * a + b \<Longrightarrow> 10 * a + b \<le> 12 \<Longrightarrow>
   month_of c1 c2 = Some (10 * a + b)"
  by (simp add: month_of_def)

lemma day_of_digits:
  "digit c1 = Some a \<Longrightarrow> digit c2 = Some b \<Longrightarrow> 1 \<le> 10 * a + b \<Longrightarrow> 10 * a + b \<le> 31 \<Longrightarrow>
   day_of c1 c2 = Some (10 * a + b)"
  by (simp add: day_of_def)

lemma year_of_year_string:
  assumes "0 \<le> y" "y \<le> 9999"
  shows "year_of (year_string y) = Some y"
proof -
  have "year_of (year_string y)
      = Some (1000 * (y div 1000 mod 10) + 100 * (y div 100 mod 10)
                + 10 * (y div 10 mod 10) + y mod 10)"
    unfolding year_string_def list.map
    by (rule year_of_digits) (rule digit_mod10)+
  then show ?thesis by (simp only: digits4 [OF assms])
qed

lemma month_of_two_digits:
  assumes "1 \<le> m" "m \<le> 12"
  shows "month_of (digit_char (m div 10 mod 10)) (digit_char (m mod 10)) = Some m"
proof -
  define a where "a = m div 10 mod 10"
  define b where "b = m mod 10"
  have da: "digit (digit_char a) = Some a" and db: "digit (digit_char b) = Some b"
    unfolding a_def b_def by (rule digit_mod10)+
  have "0 \<le> m" "m \<le> 99" using assms by simp_all
  then have eq: "10 * a + b = m" unfolding a_def b_def by (rule digits2)
  have "month_of (digit_char a) (digit_char b) = Some (10 * a + b)"
    using assms by (intro month_of_digits da db) (simp_all only: eq)
  then show ?thesis unfolding eq unfolding a_def b_def .
qed

lemma day_of_two_digits:
  assumes "1 \<le> d" "d \<le> 31"
  shows "day_of (digit_char (d div 10 mod 10)) (digit_char (d mod 10)) = Some d"
proof -
  define a where "a = d div 10 mod 10"
  define b where "b = d mod 10"
  have da: "digit (digit_char a) = Some a" and db: "digit (digit_char b) = Some b"
    unfolding a_def b_def by (rule digit_mod10)+
  have "0 \<le> d" "d \<le> 99" using assms by simp_all
  then have eq: "10 * a + b = d" unfolding a_def b_def by (rule digits2)
  have "day_of (digit_char a) (digit_char b) = Some (10 * a + b)"
    using assms by (intro day_of_digits da db) (simp_all only: eq)
  then show ?thesis unfolding eq unfolding a_def b_def .
qed

lemma strptime_Y_year_string:
  assumes "0 \<le> y" "y \<le> 9999"
  shows "strptime_Y (year_string y) = datetime_of_date y 1 1"
  unfolding strptime_Y_def year_of_year_string [OF assms] by simp

lemma strptime_Ymd_parts:
  "strptime_Ymd ([y1, y2, y3, y4] @ ''-'' @ [m1, m2] @ ''-'' @ [d1, d2])
     = (case year_of [y1, y2, y3, y4] of
               None \<Rightarrow> Inl ValueError
             | Some year \<Rightarrow>
                 (case month_of m1 m2 of
                    None \<Rightarrow> Inl ValueError
                  | Some month \<Rightarrow>
                      (case day_of d1 d2 of
                         None \<Rightarrow> Inl ValueError
                       | Some day \<Rightarrow> datetime_of_date year month day)))"
  by (simp add: strptime_Ymd_def)

lemma strptime_Ymd_date_string:
  assumes "0 \<le> y" "y \<le> 9999" "1 \<le> m" "m \<le> 12" "1 \<le> d" "d \<le> 31"
  shows "strptime_Ymd (date_string y m d) = datetime_of_date y m d"
proof -
  have y: "year_of [digit_char (y div 1000 mod 10), digit_char (y div 100 mod 10),
                    digit_char (y div 10 mod 10), digit_char (y mod 10)] = Some y"
    using year_of_year_string [OF assms(1,2)] unfolding year_string_def list.map .
  show ?thesis
    unfolding date_string_def year_string_def two_digits_def list.map strptime_Ymd_parts
      y month_of_two_digits [OF assms(3,4)] day_of_two_digits [OF assms(5,6)]
    by simp
qed

lemma length_year_string: "length (year_string y) = 4"
  by (simp add: year_string_def)

lemma length_date_string: "length (date_string y m d) = 10"
  by (simp add: date_string_def year_string_def two_digits_def)

lemma parse_release_date_string:
  "subscript album ''release_date'' = Inr (JStr s) \<Longrightarrow>
   parse_release_date album = (if length s = 10 then strptime_Ymd s else strptime_Y s)"
  by (simp add: parse_release_date_def and_then_def)

lemma sample_date_string: "date_string 2024 3 15 = ''2024-03-15''"
  by code_simp

lemma sample_year_string: "year_string 2024 = ''2024''"
  by code_simp

lemma sample_dates:
  "datetime_of_date 2024 3 15 = Inr (738959 * microseconds_per_day)"
  "datetime_of_date 2024 1 1 = Inr (738885 * microseconds_per_day)"
  by code_simp+


text \<open>
  Where the release date is a full date or the four digits of a year, the release date is
  parsed as written: a release date of exactly ten characters is parsed with the full-date
  format, which reads the ten characters \<open>YYYY-MM-DD\<close> written for a year, a month and a day as
  \<^verbatim>\<open>datetime(year, month, day)\<close>; the four digits of a year are read as the first of January
  of that year.
\<close>

lemma parse_release_date_full_and_year:
  assumes "subscript album ''release_date'' = Inr (JStr s)"
  shows "(length s = 10 \<longrightarrow> parse_release_date album = strptime_Ymd s)
       \<and> (0 \<le> y \<and> y \<le> 9999 \<and> 1 \<le> m \<and> m \<le> 12 \<and> 1 \<le> d \<and> d \<le> 31 \<and> s = date_string y m d
            \<longrightarrow> parse_release_date album = datetime_of_date y m d)
       \<and> (0 \<le> y \<and> y \<le> 9999 \<and> s = year_string y
            \<longrightarrow> parse_release_date album = datetime_of_date y 1 1)"
proof (intro conjI impI)
  assume "length s = 10"
  then show "parse_release_date album = strptime_Ymd s"
    by (simp add: parse_release_date_string [OF assms])
next
  assume a: "0 \<le> y \<and> y \<le> 9999 \<and> 1 \<le> m \<and> m \<le> 12 \<and> 1 \<le> d \<and> d \<le> 31 \<and> s = date_string y m d"
  then have "strptime_Ymd s = datetime_of_date y m d"
    by (simp only: strptime_Ymd_date_string)
  moreover have "length s = 10" using a by (simp only: length_date_string)
  ultimately show "parse_release_date album = datetime_of_date y m d"
    by (simp add: parse_release_date_string [OF assms])
next
  assume a: "0 \<le> y \<and> y \<le> 9999 \<and> s = year_string y"
  then have "strptime_Y s = datetime_of_date y 1 1"
    by (simp only: strptime_Y_year_string)
  moreover have "length s = 4" using a by (simp only: length_year_string)
  ultimately show "parse_release_date album = datetime_of_date y 1 1"
    by (simp add: parse_release_date_string [OF assms])
qed

text \<open>
  Claim C4. The release dates \<^verbatim>\<open>"2024-03-15"\<close> and \<^verbatim>\<open>"2024"\<close> are parsed as the claim says, to
  2024-03-15 and to 2024-01-01. A release date of month precision is not: \<^verbatim>\<open>"2024-03"\<close> has
  seven characters, goes to the year-only format, and \<^verbatim>\<open>strptime\<close> raises ValueError where the
  claim has the first of January 2024. The exception ends the scan of the albums, and a run of
  the handler that meets such an album ends with status 500, whatever else it has found.
\<close>

theorem release_date_month_precision:
  "parse_release_date (JObj [(''release_date'', JStr ''2024-03-15'')])
     = Inr (738959 * microseconds_per_day)
   \<and> parse_release_date (JObj [(''release_date'', JStr ''2024'')])
     = Inr (738885 * microseconds_per_day)
   \<and> datetime_of_date 2024 1 1 = Inr (738885 * microseconds_per_day)
   \<and> parse_release_date month_album = Inl ValueError
   \<and> scan_albums sample_service sample_token
         (738952 * microseconds_per_day + 12 * 3600 * microseconds_per_second)
         [] [sample_album, month_album] []
       = (Inl ValueError, [GET sample_token (AlbumTracks (JStr ''album1'')) []])
   \<and> generate_playlist month_precision_service sample_list_of sample_clock (Some sample_token)
       = Some (Failed ValueError,
               [GET sample_token MeFollowing (followed_params 50 JNull),
                GET sample_token MeFollowing (followed_params 50 (JStr ''artist1'')),
                GET sample_token (RelatedArtists (JStr ''artist1'')) [],
                GET sample_token (RelatedArtists (JStr ''artist2'')) [],
                albums_request sample_token (JStr ''artist1''),
                GET sample_token (AlbumTracks (JStr ''album1'')) []])
   \<and> status_of (Failed ValueError) = 500"
proof -
  have a: "parse_release_date (JObj [(''release_date'', JStr ''2024-03-15'')])
     = Inr (738959 * microseconds_per_day)"
    by code_simp
  have b: "parse_release_date (JObj [(''release_date'', JStr ''2024'')])
     = Inr (738885 * microseconds_per_day)"
    by code_simp
  have c: "parse_release_date month_album = Inl ValueError"
    by code_simp
  have d: "scan_albums sample_service sample_token
         (738952 * microseconds_per_day + 12 * 3600 * microseconds_per_second)
         [] [sample_album, month_album] []
       = (Inl ValueError, [GET sample_token (AlbumTracks (JStr ''album1'')) []])"
    by code_simp
  have e: "generate_playlist month_precision_service sample_list_of sample_clock (Some sample_token)
       = Some (Failed ValueError,
               [GET sample_token MeFollowing (followed_params 50 JNull),
                GET sample_token MeFollowing (followed_params 50 (JStr ''artist1'')),
                GET sample_token (RelatedArtists (JStr ''artist1'')) [],
                GET sample_token (RelatedArtists (JStr ''artist2'')) [],
                albums_request sample_token (JStr ''artist1''),
                GET sample_token (AlbumTracks (JStr ''album1'')) []])"
    by code_simp
  have f: "status_of (Failed ValueError) = 500" by simp
  from a b sample_dates(2) c d e f show ?thesis by (intro conjI)
qed

subsection \<open>The walk over the followed artists, step by step\<close>

lemma make_request_log:
  "snd (make_request srv endpoint tok params log) = log @ [GET tok endpoint params]"
  by (simp add: make_request_def Let_def split: sum.split)

lemma followed_artists_loop_error:
  "make_request srv MeFollowing tok (followed_params limit after) log = (Inl e, log1) \<Longrightarrow>
   followed_artists_loop srv tok limit artists after log = Some (Inl e, log1)"
  by (subst followed_artists_loop.simps) simp

lemma followed_artists_loop_no_data:
  "make_request srv MeFollowing tok (followed_params limit after) log = (Inr data, log1) \<Longrightarrow>
   \<not> truthy data \<Longrightarrow>
   followed_artists_loop srv tok limit artists after log = Some (Inr artists, log1)"
  by (subst followed_artists_loop.simps) simp

lemma followed_artists_loop_page_error:
  "make_request srv MeFollowing tok (followed_params limit after) log = (Inr data, log1) \<Longrightarrow>
   truthy data \<Longrightarrow> followed_page artists data = Inl e \<Longrightarrow>
   followed_artists_loop srv tok limit artists after log = Some (Inl e, log1)"
  by (subst followed_artists_loop.simps) simp

lemma followed_artists_loop_last:
  "make_request srv MeFollowing tok (followed_params limit after) log = (Inr data, log1) \<Longrightarrow>
   truthy data \<Longrightarrow> followed_page artists data = Inr (artists1, None) \<Longrightarrow>
   followed_artists_loop srv tok limit artists after log = Some (Inr artists1, log1)"
  by (subst followed_artists_loop.simps) simp

lemma followed_artists_loop_next:
  "make_request srv MeFollowing tok (followed_params limit after) log = (Inr data, log1) \<Longrightarrow>
   truthy data \<Longrightarrow> followed_page artists data = Inr (artists1, Some after1) \<Longrightarrow>
   followed_artists_loop srv tok limit artists after log
     = followed_artists_loop srv tok limit artists1 after1 log1"
  by (subst followed_artists_loop.simps) simp

lemma subscript_missing:
  assumes "field \<notin> fst ` set kvs"
  shows "subscript (JObj kvs) field = Inl KeyError"
proof -
  from assms have "map_of kvs field = None" by (simp add: map_of_eq_None_iff)
  then show ?thesis by simp
qed

lemma followed_page_missing:
  "''artists'' \<notin> fst ` set kvs \<Longrightarrow> followed_page artists (JObj kvs) = Inl KeyError"
  by (simp add: followed_page_def and_then_def subscript_missing del: subscript.simps)


lemma unauthorized_request:
  "make_request unauthorized_service endpoint tok params log
     = (Inr JNull, log @ [GET tok endpoint params])"
  by (simp add: make_request_def unauthorized_service_def)

lemma error_body_request:
  "make_request error_body_service endpoint tok params log
     = (Inr (JObj error_body), log @ [GET tok endpoint params])"
  by (simp add: make_request_def error_body_service_def response_json_def)

lemma error_body_fields: "error_body \<noteq> [] \<and> ''artists'' \<notin> fst ` set error_body"
  by (simp add: error_body_def)


subsection \<open>Flattening the tracks of an album\<close>

lemma track_entry_fields:
  assumes "subscript track ''uri'' = Inr uri" "subscript track ''name'' = Inr name"
    and "subscript album ''artists'' = Inr (JArr (first_artist # others))"
    and "subscript first_artist ''name'' = Inr artist"
    and "subscript album ''name'' = Inr album_name"
    and "subscript album ''release_date'' = Inr release_date"
  shows "track_entry album track
           = Inr (JObj [(''uri'', uri), (''name'', name), (''artist'', artist),
                        (''album'', album_name), (''release_date'', release_date)])"
  using assms by (simp add: track_entry_def and_then_def del: subscript.simps)

lemma append_tracks_entries:
  assumes "\<forall>t \<in> set tracks. \<exists>e. track_entry album t = Inr e"
  shows "\<exists>entries. append_tracks album recent tracks = Inr (recent @ entries)
           \<and> map Inr entries = map (track_entry album) tracks"
  using assms
proof (induction tracks arbitrary: recent)
  case Nil
  then show ?case by simp
next
  case (Cons t ts)
  then obtain e where e: "track_entry album t = Inr e" by auto
  from Cons obtain entries where
    h: "append_tracks album (recent @ [e]) ts = Inr ((recent @ [e]) @ entries)"
       "map Inr entries = map (track_entry album) ts"
    by (metis list.set_intros(2))
  show ?case
    using e h by (intro exI [of _ "e # entries"]) (simp add: and_then_def)
qed


lemma scan_albums_qualifying:
  assumes "parse_release_date album = Inr release_date" "one_week_ago \<le> release_date"
    and "subscript album ''id'' = Inr album_id"
    and "get_album_tracks srv tok album_id log = (Inr tracks, log1)"
    and "and_then (iterate tracks) (append_tracks album recent) = Inr recent1"
  shows "scan_albums srv tok one_week_ago recent (album # rest) log
           = scan_albums srv tok one_week_ago recent1 rest log1"
  using assms by (simp del: subscript.simps)

lemma scan_albums_not_qualifying:
  assumes "parse_release_date album = Inr release_date" "release_date < one_week_ago"
  shows "scan_albums srv tok one_week_ago recent (album # rest) log
           = scan_albums srv tok one_week_ago recent rest log"
  using assms by simp


text \<open>
  Claim C8. For an album that has a first-listed artist with a name, a name and a release
  date, and for tracks that each have a URI and a name, the flattening appends one entry per
  track, in order, to the list of recent tracks and changes nothing else in it: the entry at
  position \<open>i\<close> holds the URI and the name of track \<open>i\<close>, the name of the album's first-listed
  artist, the album's name and the album's release-date string. No track is filtered out and
  no duplicate is removed. For a qualifying album, the entries of all the tracks that the
  service lists for it are what the scan of the albums goes on with.
\<close>

theorem flatten_album_tracks:
  assumes "subscript album ''artists'' = Inr (JArr (first_artist # others))"
    and "subscript first_artist ''name'' = Inr artist"
    and "subscript album ''name'' = Inr album_name"
    and "subscript album ''release_date'' = Inr release_date"
    and "\<forall>t \<in> set tracks. \<exists>uri name. subscript t ''uri'' = Inr uri \<and> subscript t ''name'' = Inr name"
  shows "\<exists>entries.
           append_tracks album recent_tracks tracks = Inr (recent_tracks @ entries)
         \<and> length entries = length tracks
         \<and> (\<forall>i < length tracks. \<exists>uri name.
               subscript (tracks ! i) ''uri'' = Inr uri
             \<and> subscript (tracks ! i) ''name'' = Inr name
             \<and> entries ! i = JObj [(''uri'', uri), (''name'', name), (''artist'', artist),
                                    (''album'', album_name), (''release_date'', release_date)])
         \<and> (parse_release_date album = Inr released \<and> one_week_ago \<le> released
              \<and> subscript album ''id'' = Inr album_id
              \<and> get_album_tracks srv tok album_id log = (Inr (JArr tracks), log1)
            \<longrightarrow> scan_albums srv tok one_week_ago recent_tracks (album # rest) log
                  = scan_albums srv tok one_week_ago (recent_tracks @ entries) rest log1)"
proof -
  have each: "\<forall>t \<in> set tracks. \<exists>e. track_entry album t = Inr e"
  proof
    fix t assume "t \<in> set tracks"
    with assms(5) obtain uri name where
      "subscript t ''uri'' = Inr uri" "subscript t ''name'' = Inr name" by blast
    then show "\<exists>e. track_entry album t = Inr e"
      using track_entry_fields [OF _ _ assms(1-4)] by blast
  qed
  from append_tracks_entries [OF each, of recent_tracks] obtain entries where
    a: "append_tracks album recent_tracks tracks = Inr (recent_tracks @ entries)"
    and m: "map Inr entries = map (track_entry album) tracks"
    by blast
  from m have len: "length entries = length tracks"
    by (metis length_map)
  have nth: "\<forall>i < length tracks. \<exists>uri name.
               subscript (tracks ! i) ''uri'' = Inr uri
             \<and> subscript (tracks ! i) ''name'' = Inr name
             \<and> entries ! i = JObj [(''uri'', uri), (''name'', name), (''artist'', artist),
                                    (''album'', album_name), (''release_date'', release_date)]"
  proof (intro allI impI)
    fix i assume i: "i < length tracks"
    then have "tracks ! i \<in> set tracks" by simp
    with assms(5) obtain uri name where
      un: "subscript (tracks ! i) ''uri'' = Inr uri" "subscript (tracks ! i) ''name'' = Inr name"
      by blast
    have "Inr (entries ! i) = map Inr entries ! i" using i len by simp
    also have "\<dots> = track_entry album (tracks ! i)" using i by (simp only: m nth_map)
    also have "\<dots> = Inr (JObj [(''uri'', uri), (''name'', name), (''artist'', artist),
                                    (''album'', album_name), (''release_date'', release_date)])"
      by (rule track_entry_fields [OF un assms(1-4)])
    finally have "entries ! i = JObj [(''uri'', uri), (''name'', name), (''artist'', artist),
                                    (''album'', album_name), (''release_date'', release_date)]"
      by (simp only: sum.inject)
    with un show "\<exists>uri name.
               subscript (tracks ! i) ''uri'' = Inr uri
             \<and> subscript (tracks ! i) ''name'' = Inr name
             \<and> entries ! i = JObj [(''uri'', uri), (''name'', name), (''artist'', artist),
                                    (''album'', album_name), (''release_date'', release_date)]"
      by blast
  qed
  have step: "parse_release_date album = Inr released \<and> one_week_ago \<le> released
              \<and> subscript album ''id'' = Inr album_id
              \<and> get_album_tracks srv tok album_id log = (Inr (JArr tracks), log1)
            \<longrightarrow> scan_albums srv tok one_week_ago recent_tracks (album # rest) log
                  = scan_albums srv tok one_week_ago (recent_tracks @ entries) rest log1"
  proof
    assume q: "parse_release_date album = Inr released \<and> one_week_ago \<le> released
              \<and> subscript album ''id'' = Inr album_id
              \<and> get_album_tracks srv tok album_id log = (Inr (JArr tracks), log1)"
    have "and_then (iterate (JArr tracks)) (append_tracks album recent_tracks)
            = Inr (recent_tracks @ entries)"
      using a by (simp add: and_then_def)
    with q show "scan_albums srv tok one_week_ago recent_tracks (album # rest) log
                  = scan_albums srv tok one_week_ago (recent_tracks @ entries) rest log1"
      by (intro scan_albums_qualifying [where release_date = released and album_id = album_id
            and tracks = "JArr tracks"]) simp_all
  qed
  from a len nth step show ?thesis by blast
qed

lemma sample_service_request:
  "make_request sample_service endpoint tok params log
     = (Inr (sample_get endpoint params), log @ [GET tok endpoint params])"
  by (simp add: make_request_def sample_service_def response_json_def)

lemma sample_album_fields:
  "subscript sample_album ''artists''
     = Inr (JArr (named ''artist1'' ''First Artist'' # [named ''artist9'' ''Guest'']))"
  "subscript (named ''artist1'' ''First Artist'') ''name'' = Inr (JStr ''First Artist'')"
  "subscript sample_album ''name'' = Inr (JStr ''New Album'')"
  "subscript sample_album ''release_date'' = Inr (JStr ''2024-03-14'')"
  "subscript sample_album ''id'' = Inr (JStr ''album1'')"
  by (simp_all add: sample_album_def named_def)

lemma sample_track_fields:
  "subscript sample_track ''uri'' = Inr (JStr ''spotify:track:1'')"
  "subscript sample_track ''name'' = Inr (JStr ''Song'')"
  by (simp_all add: sample_track_def)

lemma sample_album_date: "parse_release_date sample_album = Inr (738958 * microseconds_per_day)"
  by code_simp

lemma sample_week_ago:
  "one_week_before (now sample_clock)
     = Inr (738952 * microseconds_per_day + 12 * 3600 * microseconds_per_second)"
  by code_simp

lemma sample_album_in_window:
  "738952 * microseconds_per_day + 12 * 3600 * microseconds_per_second
     \<le> 738958 * microseconds_per_day"
  by (simp add: microseconds_per_day_def microseconds_per_second_def)

lemma sample_album_tracks:
  "get_album_tracks sample_service sample_token (JStr ''album1'') []
     = (Inr (JArr sample_tracks), [GET sample_token (AlbumTracks (JStr ''album1'')) []])"
  by (simp add: get_album_tracks_def field_or_empty_def sample_service_request sample_get_def)

theorem flatten_album_tracks_witness:
  "append_tracks sample_album [] sample_tracks = Inr [sample_entry, sample_entry]
   \<and> scan_albums sample_service sample_token
         (738952 * microseconds_per_day + 12 * 3600 * microseconds_per_second)
         [] [sample_album] []
       = (Inr [sample_entry, sample_entry], [GET sample_token (AlbumTracks (JStr ''album1'')) []])"
proof -
  let ?owa = "738952 * microseconds_per_day + 12 * 3600 * microseconds_per_second"
  let ?log = "[GET sample_token (AlbumTracks (JStr ''album1'')) []]"
  have tr: "\<forall>t \<in> set sample_tracks.
              \<exists>uri name. subscript t ''uri'' = Inr uri \<and> subscript t ''name'' = Inr name"
    using sample_track_fields by (simp add: sample_tracks_def del: subscript.simps)
  from flatten_album_tracks [OF sample_album_fields(1-4) tr,
         of "[]" "738958 * microseconds_per_day" ?owa "JStr ''album1''" sample_service
            sample_token "[]" ?log "[]"]
  obtain entries where
    a: "append_tracks sample_album [] sample_tracks = Inr ([] @ entries)"
    and len: "length entries = length sample_tracks"
    and nth: "\<forall>i < length sample_tracks. \<exists>uri name.
               subscript (sample_tracks ! i) ''uri'' = Inr uri
             \<and> subscript (sample_tracks ! i) ''name'' = Inr name
             \<and> entries ! i = JObj [(''uri'', uri), (''name'', name),
                                    (''artist'', JStr ''First Artist''),
                                    (''album'', JStr ''New Album''),
                                    (''release_date'', JStr ''2024-03-14'')]"
    and step: "parse_release_date sample_album = Inr (738958 * microseconds_per_day)
              \<and> ?owa \<le> 738958 * microseconds_per_day
              \<and> subscript sample_album ''id'' = Inr (JStr ''album1'')
              \<and> get_album_tracks sample_service sample_token (JStr ''album1'') []
                  = (Inr (JArr sample_tracks), ?log)
            \<longrightarrow> scan_albums sample_service sample_token ?owa [] (sample_album # []) []
                  = scan_albums sample_service sample_token ?owa ([] @ entries) [] ?log"
    by (elim exE conjE)
  have l2: "length entries = 2" using len by (simp add: sample_tracks_def)
  have e0: "entries ! 0 = sample_entry"
    using nth [rule_format, of 0] sample_track_fields
    by (auto simp add: sample_tracks_def sample_entry_def simp del: subscript.simps)
  have e1: "entries ! 1 = sample_entry"
    using nth [rule_format, of 1] sample_track_fields
    by (auto simp add: sample_tracks_def sample_entry_def simp del: subscript.simps)
  have "entries = [entries ! 0, entries ! 1]"
    using l2 by (intro nth_equalityI) (auto simp add: less_Suc_eq numeral_2_eq_2)
  then have e: "entries = [sample_entry, sample_entry]" by (simp only: e0 e1)
  have "scan_albums sample_service sample_token ?owa [] [sample_album] []
          = scan_albums sample_service sample_token ?owa ([] @ entries) [] ?log"
    using step sample_album_date sample_album_in_window sample_album_fields(5) sample_album_tracks
    by blast
  with a e show ?thesis by simp
qed

subsection \<open>The release window\<close>

lemma field_or_empty_log: "snd (field_or_empty field res) = snd res"
  by (cases res) (simp add: field_or_empty_def split: sum.split)

lemma get_album_tracks_log:
  "snd (get_album_tracks srv tok album_id log) = log @ [GET tok (AlbumTracks album_id) []]"
  by (simp add: get_album_tracks_def field_or_empty_log make_request_log)

lemma get_artist_albums_log:
  "snd (get_artist_albums srv tok artist_id limit log)
     = log @ [GET tok (ArtistAlbums artist_id) (albums_params limit)]"
  by (simp add: get_artist_albums_def field_or_empty_log make_request_log)

lemma get_related_artists_log:
  "snd (get_related_artists srv tok artist_id log) = log @ [GET tok (RelatedArtists artist_id) []]"
  by (simp add: get_related_artists_def field_or_empty_log make_request_log)

lemma scan_albums_raises:
  "parse_release_date album = Inl e \<Longrightarrow>
   scan_albums srv tok one_week_ago recent (album # rest) log = (Inl e, log)"
  by simp

lemma scan_albums_log_extends:
  "\<exists>ext. snd (scan_albums srv tok one_week_ago recent albums log) = log @ ext"
proof (induction albums arbitrary: recent log)
  case Nil
  then show ?case by simp
next
  case (Cons album rest)
  show ?case
  proof (cases "parse_release_date album")
    case (Inl e)
    then show ?thesis by simp
  next
    case (Inr released)
    show ?thesis
    proof (cases "one_week_ago \<le> released")
      case False
      with Inr Cons.IH [of recent log] show ?thesis by simp
    next
      case True
      show ?thesis
      proof (cases "subscript album ''id''")
        case (Inl e)
        with Inr True show ?thesis by (simp del: subscript.simps)
      next
        case album_id: (Inr album_id)
        let ?rq = "GET tok (AlbumTracks album_id) []"
        obtain res log1 where g: "get_album_tracks srv tok album_id log = (res, log1)"
          by (cases "get_album_tracks srv tok album_id log") auto
        with get_album_tracks_log [of srv tok album_id log] have log1: "log1 = log @ [?rq]"
          by simp
        show ?thesis
        proof (cases res)
          case (Inl e)
          with Inr True album_id g log1 show ?thesis by (simp del: subscript.simps)
        next
          case tracks: (Inr tracks)
          show ?thesis
          proof (cases "and_then (iterate tracks) (append_tracks album recent)")
            case (Inl e)
            with Inr True album_id g tracks log1 show ?thesis by (simp del: subscript.simps)
          next
            case recent1: (Inr recent1)
            from Cons.IH [of recent1 log1] obtain ext where
              "snd (scan_albums srv tok one_week_ago recent1 rest log1) = log1 @ ext" by blast
            with Inr True album_id g tracks recent1 log1 show ?thesis
              by (simp del: subscript.simps)
          qed
        qed
      qed
    qed
  qed
qed

lemma scan_albums_fetches_tracks:
  assumes "parse_release_date album = Inr released" "one_week_ago \<le> released"
    and "subscript album ''id'' = Inr album_id"
  shows "\<exists>ext. snd (scan_albums srv tok one_week_ago recent (album # rest) log)
           = log @ GET tok (AlbumTracks album_id) [] # ext"
proof -
  let ?rq = "GET tok (AlbumTracks album_id) []"
  obtain res log1 where g: "get_album_tracks srv tok album_id log = (res, log1)"
    by (cases "get_album_tracks srv tok album_id log") auto
  with get_album_tracks_log [of srv tok album_id log] have log1: "log1 = log @ [?rq]"
    by simp
  show ?thesis
  proof (cases res)
    case (Inl e)
    with assms g log1 show ?thesis by (simp del: subscript.simps)
  next
    case tracks: (Inr tracks)
    show ?thesis
    proof (cases "and_then (iterate tracks) (append_tracks album recent)")
      case (Inl e)
      with assms g tracks log1 show ?thesis by (simp del: subscript.simps)
    next
      case recent1: (Inr recent1)
      from scan_albums_log_extends [of srv tok one_week_ago recent1 rest log1] obtain ext where
        "snd (scan_albums srv tok one_week_ago recent1 rest log1) = log1 @ ext" by blast
      with assms g tracks recent1 log1 show ?thesis
        by (simp del: subscript.simps)
    qed
  qed
qed

lemma scan_albums_none_qualifying:
  assumes "\<forall>a \<in> set albums. \<exists>r. parse_release_date a = Inr r \<and> r < one_week_ago"
  shows "scan_albums srv tok one_week_ago recent albums log = (Inr recent, log)"
  using assms by (induction albums) auto

lemma one_week_before_value:
  "one_week_before current_time = Inr one_week_ago \<Longrightarrow> one_week_ago = current_time - 7 * microseconds_per_day"
  by (simp add: one_week_before_def split: if_splits)


lemma append_tracks_map:
  "map (track_entry album) tracks = map Inr entries \<Longrightarrow>
   append_tracks album recent tracks = Inr (recent @ entries)"
proof (induction tracks arbitrary: recent entries)
  case Nil
  then show ?case by simp
next
  case (Cons t ts)
  then obtain e es where es: "entries = e # es" by (cases entries) auto
  with Cons.prems have e: "track_entry album t = Inr e"
    and m: "map (track_entry album) ts = map Inr es" by simp_all
  from Cons.IH [OF m, of "recent @ [e]"] e es show ?case
    by (simp add: and_then_def)
qed

lemma get_album_tracks_items:
  assumes "srv log (GET tok (AlbumTracks album_id) []) = Inr r" "status_code r \<noteq> 401"
    and "body r = Some data" "truthy data" "subscript data ''items'' = Inr items"
  shows "get_album_tracks srv tok album_id log
           = (Inr items, log @ [GET tok (AlbumTracks album_id) []])"
  using assms
  by (simp add: get_album_tracks_def field_or_empty_def make_request_def response_json_def
      del: subscript.simps)

lemma scan_albums_included:
  assumes "parse_release_date album = Inr released" "one_week_ago \<le> released"
    and "subscript album ''id'' = Inr album_id"
    and "srv log (GET tok (AlbumTracks album_id) []) = Inr r" "status_code r \<noteq> 401"
    and "body r = Some data" "truthy data" "subscript data ''items'' = Inr (JArr tracks)"
    and "map (track_entry album) tracks = map Inr entries"
  shows "scan_albums srv tok one_week_ago recent (album # rest) log
           = scan_albums srv tok one_week_ago (recent @ entries) rest
               (log @ [GET tok (AlbumTracks album_id) []])"
proof -
  have g: "get_album_tracks srv tok album_id log
             = (Inr (JArr tracks), log @ [GET tok (AlbumTracks album_id) []])"
    using assms(4-8) by (rule get_album_tracks_items)
  have a: "and_then (iterate (JArr tracks)) (append_tracks album recent) = Inr (recent @ entries)"
    using append_tracks_map [OF assms(9), of recent] by (simp add: and_then_def)
  show ?thesis
    using assms(1-3) g a by (rule scan_albums_qualifying)
qed

text \<open>
  Claim C3. The window starts at \<open>now - 7 days\<close>. An album whose parsed release instant is at
  or after the start qualifies: the next call of the scan is the fetch of its tracks, and when
  the service answers that call with a list of tracks, the entry of every track is appended,
  in order, to the tracks found so far, with which the scan goes on. An album whose parsed
  release instant is before the start does not qualify: the scan goes on with the rest of
  the albums, with no call made and no track added for it. In particular an album released
  exactly 7 days before now is included, its tracks being in the result of the scan, and one
  released 7 days and 1 second before now is excluded; a list of albums that are all outside
  the window is scanned without any call and adds nothing.
\<close>

theorem release_window_inclusive:
  assumes "one_week_before current_time = Inr one_week_ago"
    and "parse_release_date album = Inr released"
  shows "one_week_ago = current_time - 7 * microseconds_per_day
       \<and> (current_time - 7 * microseconds_per_day \<le> released \<and> subscript album ''id'' = Inr album_id \<longrightarrow>
            (\<exists>ext. snd (scan_albums srv tok one_week_ago recent (album # rest) log)
                     = log @ GET tok (AlbumTracks album_id) [] # ext))
       \<and> (current_time - 7 * microseconds_per_day \<le> released \<and> subscript album ''id'' = Inr album_id
            \<and> srv log (GET tok (AlbumTracks album_id) []) = Inr r \<and> status_code r \<noteq> 401
            \<and> body r = Some data \<and> truthy data \<and> subscript data ''items'' = Inr (JArr tracks)
            \<and> map (track_entry album) tracks = map Inr entries \<longrightarrow>
            scan_albums srv tok one_week_ago recent (album # rest) log
              = scan_albums srv tok one_week_ago (recent @ entries) rest
                  (log @ [GET tok (AlbumTracks album_id) []])
          \<and> scan_albums srv tok one_week_ago recent [album] log
              = (Inr (recent @ entries), log @ [GET tok (AlbumTracks album_id) []]))
       \<and> (released < current_time - 7 * microseconds_per_day \<longrightarrow>
            scan_albums srv tok one_week_ago recent (album # rest) log
              = scan_albums srv tok one_week_ago recent rest log
          \<and> scan_albums srv tok one_week_ago recent [album] log = (Inr recent, log))
       \<and> (released = current_time - 7 * microseconds_per_day \<and> subscript album ''id'' = Inr album_id
            \<and> srv log (GET tok (AlbumTracks album_id) []) = Inr r \<and> status_code r \<noteq> 401
            \<and> body r = Some data \<and> truthy data \<and> subscript data ''items'' = Inr (JArr tracks)
            \<and> map (track_entry album) tracks = map Inr entries \<longrightarrow>
            scan_albums srv tok one_week_ago recent [album] log
              = (Inr (recent @ entries), log @ [GET tok (AlbumTracks album_id) []]))
       \<and> (released = current_time - 7 * microseconds_per_day - microseconds_per_second \<longrightarrow>
            scan_albums srv tok one_week_ago recent (album # rest) log
              = scan_albums srv tok one_week_ago recent rest log
          \<and> scan_albums srv tok one_week_ago recent [album] log = (Inr recent, log))
       \<and> ((\<forall>a \<in> set albums. \<exists>r. parse_release_date a = Inr r \<and> r < current_time - 7 * microseconds_per_day) \<longrightarrow>
            scan_albums srv tok one_week_ago recent albums log = (Inr recent, log))"
proof -
  have w: "one_week_ago = current_time - 7 * microseconds_per_day"
    using assms(1) by (rule one_week_before_value)
  have sec: "0 < microseconds_per_second" by (simp add: microseconds_per_second_def)
  have call: "current_time - 7 * microseconds_per_day \<le> released \<and> subscript album ''id'' = Inr album_id \<longrightarrow>
            (\<exists>ext. snd (scan_albums srv tok one_week_ago recent (album # rest) log)
                     = log @ GET tok (AlbumTracks album_id) [] # ext)"
    using scan_albums_fetches_tracks [OF assms(2), of one_week_ago album_id srv tok recent rest log]
    unfolding w by blast
  have step: "scan_albums srv tok one_week_ago recent (album # rest') log
              = scan_albums srv tok one_week_ago (recent @ entries) rest'
                  (log @ [GET tok (AlbumTracks album_id) []])"
    if "current_time - 7 * microseconds_per_day \<le> released \<and> subscript album ''id'' = Inr album_id
            \<and> srv log (GET tok (AlbumTracks album_id) []) = Inr r \<and> status_code r \<noteq> 401
            \<and> body r = Some data \<and> truthy data \<and> subscript data ''items'' = Inr (JArr tracks)
            \<and> map (track_entry album) tracks = map Inr entries" for rest'
    using that unfolding w [symmetric]
    by (intro scan_albums_included [OF assms(2), where r = r and data = data and tracks = tracks])
      simp_all
  have incl: "current_time - 7 * microseconds_per_day \<le> released \<and> subscript album ''id'' = Inr album_id
            \<and> srv log (GET tok (AlbumTracks album_id) []) = Inr r \<and> status_code r \<noteq> 401
            \<and> body r = Some data \<and> truthy data \<and> subscript data ''items'' = Inr (JArr tracks)
            \<and> map (track_entry album) tracks = map Inr entries \<longrightarrow>
            scan_albums srv tok one_week_ago recent (album # rest) log
              = scan_albums srv tok one_week_ago (recent @ entries) rest
                  (log @ [GET tok (AlbumTracks album_id) []])
          \<and> scan_albums srv tok one_week_ago recent [album] log
              = (Inr (recent @ entries), log @ [GET tok (AlbumTracks album_id) []])"
    using step [of rest] step [of "[]"] by simp
  have skip: "scan_albums srv tok one_week_ago recent (album # rest') log
              = scan_albums srv tok one_week_ago recent rest' log"
    if "released < current_time - 7 * microseconds_per_day" for rest'
    using scan_albums_not_qualifying [OF assms(2), of one_week_ago srv tok recent rest' log] that
    unfolding w by blast
  have excl: "released < current_time - 7 * microseconds_per_day \<longrightarrow>
            scan_albums srv tok one_week_ago recent (album # rest) log
              = scan_albums srv tok one_week_ago recent rest log
          \<and> scan_albums srv tok one_week_ago recent [album] log = (Inr recent, log)"
    using skip [of rest] skip [of "[]"] by simp
  have at: "released = current_time - 7 * microseconds_per_day \<and> subscript album ''id'' = Inr album_id
            \<and> srv log (GET tok (AlbumTracks album_id) []) = Inr r \<and> status_code r \<noteq> 401
            \<and> body r = Some data \<and> truthy data \<and> subscript data ''items'' = Inr (JArr tracks)
            \<and> map (track_entry album) tracks = map Inr entries \<longrightarrow>
            scan_albums srv tok one_week_ago recent [album] log
              = (Inr (recent @ entries), log @ [GET tok (AlbumTracks album_id) []])"
    using incl by simp
  have before: "released = current_time - 7 * microseconds_per_day - microseconds_per_second \<longrightarrow>
            scan_albums srv tok one_week_ago recent (album # rest) log
              = scan_albums srv tok one_week_ago recent rest log
          \<and> scan_albums srv tok one_week_ago recent [album] log = (Inr recent, log)"
    using excl sec by simp
  have none: "(\<forall>a \<in> set albums. \<exists>r. parse_release_date a = Inr r \<and> r < current_time - 7 * microseconds_per_day) \<longrightarrow>
            scan_albums srv tok one_week_ago recent albums log = (Inr recent, log)"
    using scan_albums_none_qualifying [of albums one_week_ago srv tok recent log]
    unfolding w by blast
  from w call incl excl at before none show ?thesis by (intro conjI)
qed

lemma old_album_date: "parse_release_date old_album = Inr (738520 * microseconds_per_day)"
  by code_simp

lemma sample_weeks:
  "one_week_before (738965 * microseconds_per_day) = Inr (738958 * microseconds_per_day)"
  "one_week_before (738965 * microseconds_per_day + microseconds_per_second)
     = Inr (738958 * microseconds_per_day + microseconds_per_second)"
  by code_simp+

lemma sample_tracks_answer:
  "sample_service log (GET tok (AlbumTracks (JStr ''album1'')) [])
     = Inr \<lparr>status_code = 200, body = Some (JObj [(''items'', JArr sample_tracks)])\<rparr>"
  by (simp add: sample_service_def sample_get_def)

lemma sample_track_entries:
  "map (track_entry sample_album) sample_tracks = map Inr [sample_entry, sample_entry]"
  by (simp add: sample_tracks_def sample_entry_def
      track_entry_fields [OF sample_track_fields sample_album_fields(1-4)])

theorem release_window_inclusive_witness:
  "scan_albums sample_service sample_token
         (738952 * microseconds_per_day + 12 * 3600 * microseconds_per_second)
         [] [sample_album] []
     = (Inr [sample_entry, sample_entry], [GET sample_token (AlbumTracks (JStr ''album1'')) []])
   \<and> scan_albums sample_service sample_token
         (738952 * microseconds_per_day + 12 * 3600 * microseconds_per_second)
         [] [old_album] [] = (Inr [], [])
   \<and> scan_albums sample_service sample_token (738958 * microseconds_per_day)
         [] [sample_album] []
     = (Inr [sample_entry, sample_entry], [GET sample_token (AlbumTracks (JStr ''album1'')) []])
   \<and> scan_albums sample_service sample_token
         (738958 * microseconds_per_day + microseconds_per_second)
         [] [sample_album] [] = (Inr [], [])
   \<and> scan_albums sample_service sample_token
         (738952 * microseconds_per_day + 12 * 3600 * microseconds_per_second)
         [] [old_album, old_album] [] = (Inr [], [])"
proof -
  let ?W = "738952 * microseconds_per_day + 12 * 3600 * microseconds_per_second"
  let ?new = "738958 * microseconds_per_day"
  let ?old = "738520 * microseconds_per_day"
  let ?r = "\<lparr>status_code = 200, body = Some (JObj [(''items'', JArr sample_tracks)])\<rparr>"
  have ar: "now sample_clock - 7 * microseconds_per_day = ?W"
    "738965 * microseconds_per_day - 7 * microseconds_per_day = ?new"
    "738965 * microseconds_per_day + microseconds_per_second - 7 * microseconds_per_day
       - microseconds_per_second = ?new"
    "?W \<le> ?new" "?old < ?W"
    by (simp_all add: sample_clock_def microseconds_per_day_def microseconds_per_second_def)
  have answer: "sample_service [] (GET sample_token (AlbumTracks (JStr ''album1'')) []) = Inr ?r"
    "status_code ?r \<noteq> 401" "body ?r = Some (JObj [(''items'', JArr sample_tracks)])"
    "truthy (JObj [(''items'', JArr sample_tracks)])"
    "subscript (JObj [(''items'', JArr sample_tracks)]) ''items'' = Inr (JArr sample_tracks)"
    by (simp_all add: sample_tracks_answer)
  note new_at_noon = release_window_inclusive [OF sample_week_ago sample_album_date,
      of "JStr ''album1''" sample_service sample_token "[]" "[]" "[]" ?r
         "JObj [(''items'', JArr sample_tracks)]" sample_tracks "[sample_entry, sample_entry]"
         "[old_album, old_album]"]
  note old_at_noon = release_window_inclusive [OF sample_week_ago old_album_date,
      of "JStr ''album0''" sample_service sample_token "[]" "[]" "[]" ?r
         "JObj [(''items'', JArr sample_tracks)]" sample_tracks "[sample_entry, sample_entry]"
         "[old_album, old_album]"]
  note at_boundary = release_window_inclusive [OF sample_weeks(1) sample_album_date,
      of "JStr ''album1''" sample_service sample_token "[]" "[]" "[]" ?r
         "JObj [(''items'', JArr sample_tracks)]" sample_tracks "[sample_entry, sample_entry]"
         "[]"]
  note past_boundary = release_window_inclusive [OF sample_weeks(2) sample_album_date,
      of "JStr ''album1''" sample_service sample_token "[]" "[]" "[]" ?r
         "JObj [(''items'', JArr sample_tracks)]" sample_tracks "[sample_entry, sample_entry]"
         "[]"]
  have a: "scan_albums sample_service sample_token ?W [] [sample_album] []
     = (Inr [sample_entry, sample_entry], [GET sample_token (AlbumTracks (JStr ''album1'')) []])"
    using new_at_noon [THEN conjunct2, THEN conjunct2, THEN conjunct1, THEN mp, THEN conjunct2]
      ar(1,4) sample_album_fields(5) answer sample_track_entries by simp
  have b: "scan_albums sample_service sample_token ?W [] [old_album] [] = (Inr [], [])"
    using old_at_noon [THEN conjunct2, THEN conjunct2, THEN conjunct2, THEN conjunct1, THEN mp,
        THEN conjunct2] ar(1,5) by simp
  have c: "scan_albums sample_service sample_token ?new [] [sample_album] []
     = (Inr [sample_entry, sample_entry], [GET sample_token (AlbumTracks (JStr ''album1'')) []])"
    using at_boundary [THEN conjunct2, THEN conjunct2, THEN conjunct2, THEN conjunct2,
        THEN conjunct1, THEN mp]
      ar(2) sample_album_fields(5) answer sample_track_entries by simp
  have d: "scan_albums sample_service sample_token (?new + microseconds_per_second)
             [] [sample_album] [] = (Inr [], [])"
    using past_boundary [THEN conjunct2, THEN conjunct2, THEN conjunct2, THEN conjunct2,
        THEN conjunct2, THEN conjunct1, THEN mp, THEN conjunct2] ar(3) by simp
  have e: "scan_albums sample_service sample_token ?W [] [old_album, old_album] [] = (Inr [], [])"
    using new_at_noon [THEN conjunct2, THEN conjunct2, THEN conjunct2, THEN conjunct2,
        THEN conjunct2, THEN conjunct2] ar(1,5) old_album_date by simp
  from a b c d e show ?thesis by (intro conjI)
qed

subsection \<open>One page of albums per artist\<close>

lemma scan_albums_requests:
  "\<exists>ext. snd (scan_albums srv tok one_week_ago recent albums log) = log @ ext
         \<and> length ext \<le> length albums
         \<and> set ext \<subseteq> (\<Union>album \<in> set albums. set (track_request tok album))"
proof (induction albums arbitrary: recent log)
  case Nil
  then show ?case by simp
next
  case (Cons album rest)
  show ?case
  proof (cases "parse_release_date album")
    case (Inl e)
    then show ?thesis by simp
  next
    case (Inr released)
    show ?thesis
    proof (cases "one_week_ago \<le> released")
      case False
      from Cons.IH [of recent log] obtain ext where
        "snd (scan_albums srv tok one_week_ago recent rest log) = log @ ext"
        "length ext \<le> length rest"
        "set ext \<subseteq> (\<Union>album \<in> set rest. set (track_request tok album))" by blast
      with Inr False show ?thesis
        by (intro exI [of _ ext]) auto
    next
      case True
      show ?thesis
      proof (cases "subscript album ''id''")
        case (Inl e)
        with Inr True show ?thesis by (simp del: subscript.simps)
      next
        case album_id: (Inr album_id)
        let ?rq = "GET tok (AlbumTracks album_id) []"
        have tr: "track_request tok album = [?rq]"
          using album_id by (simp add: track_request_def del: subscript.simps)
        obtain res log1 where g: "get_album_tracks srv tok album_id log = (res, log1)"
          by (cases "get_album_tracks srv tok album_id log") auto
        with get_album_tracks_log [of srv tok album_id log] have log1: "log1 = log @ [?rq]"
          by simp
        have stop: "\<exists>ext. log @ [?rq] = log @ ext \<and> length ext \<le> length (album # rest)
            \<and> set ext \<subseteq> (\<Union>album \<in> set (album # rest). set (track_request tok album))"
          using tr by (intro exI [of _ "[?rq]"]) simp
        show ?thesis
        proof (cases res)
          case (Inl e)
          with Inr True album_id g log1 stop show ?thesis by (simp del: subscript.simps)
        next
          case tracks: (Inr tracks)
          show ?thesis
          proof (cases "and_then (iterate tracks) (append_tracks album recent)")
            case (Inl e)
            with Inr True album_id g tracks log1 stop show ?thesis
              by (simp del: subscript.simps)
          next
            case recent1: (Inr recent1)
            from Cons.IH [of recent1 log1] obtain ext where
              e: "snd (scan_albums srv tok one_week_ago recent1 rest log1) = log1 @ ext"
                 "length ext \<le> length rest"
                 "set ext \<subseteq> (\<Union>album \<in> set rest. set (track_request tok album))" by blast
            have "scan_albums srv tok one_week_ago recent (album # rest) log
                    = scan_albums srv tok one_week_ago recent1 rest log1"
              using Inr True album_id g tracks recent1
              by (intro scan_albums_qualifying) simp_all
            with e log1 tr show ?thesis
              by (intro exI [of _ "?rq # ext"]) auto
          qed
        qed
      qed
    qed
  qed
qed

lemma track_request_not_listing: "rq \<in> set (track_request tok album) \<Longrightarrow> \<not> lists_albums rq"
  by (auto simp add: track_request_def split: sum.splits)

lemma albums_request_params: "albums_request tok artist_id = GET tok (ArtistAlbums artist_id) (albums_params 10)"
  by (simp add: albums_request_def albums_params_def)

lemma get_artist_albums_10_log:
  "snd (get_artist_albums srv tok artist_id 10 log) = log @ [albums_request tok artist_id]"
  by (simp add: get_artist_albums_log albums_request_params)

lemma scan_artists_requests:
  "\<exists>ext k. snd (scan_artists srv tok one_week_ago recent artist_ids log) = log @ ext
         \<and> k \<le> length artist_ids
         \<and> filter lists_albums ext = map (albums_request tok) (take k artist_ids)
         \<and> ((\<exists>r. fst (scan_artists srv tok one_week_ago recent artist_ids log) = Inr r)
              \<longrightarrow> k = length artist_ids)"
proof (induction artist_ids arbitrary: recent log)
  case Nil
  then show ?case by simp
next
  case (Cons artist_id rest)
  let ?rq = "albums_request tok artist_id"
  have rq: "lists_albums ?rq" by (simp add: albums_request_def)
  obtain res log1 where g: "get_artist_albums srv tok artist_id 10 log = (res, log1)"
    by (cases "get_artist_albums srv tok artist_id 10 log") auto
  with get_artist_albums_10_log [of srv tok artist_id log] have log1: "log1 = log @ [?rq]"
    by simp
  have stop: "\<exists>ext k. log @ [?rq] = log @ ext \<and> k \<le> length (artist_id # rest)
         \<and> filter lists_albums ext = map (albums_request tok) (take k (artist_id # rest))"
    using rq by (intro exI [of _ "[?rq]"] exI [of _ 1]) simp
  show ?case
  proof (cases res)
    case (Inl e)
    with g log1 stop show ?thesis by simp
  next
    case albums: (Inr albums)
    show ?thesis
    proof (cases "iterate albums")
      case (Inl e)
      with g albums log1 stop show ?thesis by simp
    next
      case album_list: (Inr album_list)
      obtain res2 log2 where
        s: "scan_albums srv tok one_week_ago recent album_list log1 = (res2, log2)"
        by (cases "scan_albums srv tok one_week_ago recent album_list log1") auto
      from scan_albums_requests [of srv tok one_week_ago recent album_list log1] s
      obtain ext2 where
        e2: "log2 = log1 @ ext2"
            "set ext2 \<subseteq> (\<Union>album \<in> set album_list. set (track_request tok album))"
        by auto
      have f2: "filter lists_albums ext2 = []"
        using e2(2) track_request_not_listing by (fastforce simp add: filter_empty_conv)
      show ?thesis
      proof (cases res2)
        case (Inl e)
        have "scan_artists srv tok one_week_ago recent (artist_id # rest) log = (Inl e, log2)"
          using g albums album_list s Inl by simp
        with e2(1) log1 f2 rq show ?thesis
          by (intro exI [of _ "?rq # ext2"] exI [of _ 1]) simp
      next
        case recent1: (Inr recent1)
        have step: "scan_artists srv tok one_week_ago recent (artist_id # rest) log
                = scan_artists srv tok one_week_ago recent1 rest log2"
          using g albums album_list s recent1 by simp
        from Cons.IH [of recent1 log2] obtain ext3 k where
          e3: "snd (scan_artists srv tok one_week_ago recent1 rest log2) = log2 @ ext3"
              "k \<le> length rest"
              "filter lists_albums ext3 = map (albums_request tok) (take k rest)"
              "(\<exists>r. fst (scan_artists srv tok one_week_ago recent1 rest log2) = Inr r)
                 \<longrightarrow> k = length rest"
          by blast
        show ?thesis
          unfolding step
          using e3 e2(1) log1 f2 rq
          by (intro exI [of _ "?rq # ext2 @ ext3"] exI [of _ "Suc k"]) simp
      qed
    qed
  qed
qed

lemma scan_artists_first_request:
  "\<exists>ext. snd (scan_artists srv tok one_week_ago recent (artist_id # rest) log)
          = log @ albums_request tok artist_id # ext"
proof -
  let ?rq = "albums_request tok artist_id"
  obtain res log1 where g: "get_artist_albums srv tok artist_id 10 log = (res, log1)"
    by (cases "get_artist_albums srv tok artist_id 10 log") auto
  with get_artist_albums_10_log [of srv tok artist_id log] have log1: "log1 = log @ [?rq]"
    by simp
  show ?thesis
  proof (cases res)
    case (Inl e)
    with g log1 show ?thesis by simp
  next
    case albums: (Inr albums)
    show ?thesis
    proof (cases "iterate albums")
      case (Inl e)
      with g albums log1 show ?thesis by simp
    next
      case album_list: (Inr album_list)
      obtain res2 log2 where
        s: "scan_albums srv tok one_week_ago recent album_list log1 = (res2, log2)"
        by (cases "scan_albums srv tok one_week_ago recent album_list log1") auto
      from scan_albums_log_extends [of srv tok one_week_ago recent album_list log1] s
      obtain ext2 where e2: "log2 = log1 @ ext2" by auto
      show ?thesis
      proof (cases res2)
        case (Inl e)
        with g albums album_list s e2 log1 show ?thesis by simp
      next
        case recent1: (Inr recent1)
        from scan_artists_requests [of srv tok one_week_ago recent1 rest log2] obtain ext3 where
          "snd (scan_artists srv tok one_week_ago recent1 rest log2) = log2 @ ext3" by blast
        with g albums album_list s recent1 e2 log1 show ?thesis by simp
      qed
    qed
  qed
qed

lemma scan_single_artist:
  assumes "get_artist_albums srv tok artist_id 10 log = (Inr (JArr albums), log1)"
  shows "scan_artists srv tok one_week_ago recent [artist_id] log
           = scan_albums srv tok one_week_ago recent albums log1"
  using assms by (simp split: prod.split sum.split)

text \<open>
  Claim C10. For every artist scanned, the first call is the listing of the artist's albums
  with \<^verbatim>\<open>limit\<close> 10. Over a whole scan the album-listing calls are, in order, one call per
  artist scanned, so no listing is continued on a second page. When the service answers with
  the first ten entries of the artist's listing, the scan of this artist is the scan of these
  ten albums: at most ten calls follow, each the fetch of the tracks of one of these ten, and
  the result does not depend on any later entry of the listing, whatever its release date.
\<close>

theorem single_album_page_per_artist:
  "(\<exists>ext. snd (scan_artists srv tok one_week_ago recent (artist_id # rest) log)
            = log @ albums_request tok artist_id # ext)
   \<and> (\<exists>ext k. snd (scan_artists srv tok one_week_ago recent artist_ids log) = log @ ext
         \<and> k \<le> length artist_ids
         \<and> filter lists_albums ext = map (albums_request tok) (take k artist_ids)
         \<and> ((\<exists>r. fst (scan_artists srv tok one_week_ago recent artist_ids log) = Inr r)
              \<longrightarrow> k = length artist_ids))
   \<and> (get_artist_albums srv tok artist_id 10 log = (Inr (JArr (take 10 listing)), log1) \<longrightarrow>
         log1 = log @ [albums_request tok artist_id]
       \<and> scan_artists srv tok one_week_ago recent [artist_id] log
           = scan_albums srv tok one_week_ago recent (take 10 listing) log1
       \<and> (\<exists>ext. snd (scan_artists srv tok one_week_ago recent [artist_id] log) = log1 @ ext
             \<and> length ext \<le> 10
             \<and> set ext \<subseteq> (\<Union>album \<in> set (take 10 listing). set (track_request tok album))))"
proof (intro conjI impI)
  show "\<exists>ext. snd (scan_artists srv tok one_week_ago recent (artist_id # rest) log)
            = log @ albums_request tok artist_id # ext"
    by (rule scan_artists_first_request)
next
  show "\<exists>ext k. snd (scan_artists srv tok one_week_ago recent artist_ids log) = log @ ext
         \<and> k \<le> length artist_ids
         \<and> filter lists_albums ext = map (albums_request tok) (take k artist_ids)
         \<and> ((\<exists>r. fst (scan_artists srv tok one_week_ago recent artist_ids log) = Inr r)
              \<longrightarrow> k = length artist_ids)"
    by (rule scan_artists_requests)
next
  assume g: "get_artist_albums srv tok artist_id 10 log = (Inr (JArr (take 10 listing)), log1)"
  with get_artist_albums_10_log [of srv tok artist_id log]
  show "log1 = log @ [albums_request tok artist_id]" by simp
  from g show s: "scan_artists srv tok one_week_ago recent [artist_id] log
           = scan_albums srv tok one_week_ago recent (take 10 listing) log1"
    by (rule scan_single_artist)
  from scan_albums_requests [of srv tok one_week_ago recent "take 10 listing" log1]
  obtain ext where
    "snd (scan_albums srv tok one_week_ago recent (take 10 listing) log1) = log1 @ ext"
    "length ext \<le> length (take 10 listing)"
    "set ext \<subseteq> (\<Union>album \<in> set (take 10 listing). set (track_request tok album))"
    by blast
  then show "\<exists>ext. snd (scan_artists srv tok one_week_ago recent [artist_id] log) = log1 @ ext
             \<and> length ext \<le> 10
             \<and> set ext \<subseteq> (\<Union>album \<in> set (take 10 listing). set (track_request tok album))"
    unfolding s by (intro exI [of _ ext]) simp
qed

lemma sample_artist2_albums:
  "get_artist_albums sample_service sample_token (JStr ''artist2'') 10 []
     = (Inr (JArr (take 10 (album_listing (JStr ''artist2'')))),
        [albums_request sample_token (JStr ''artist2'')])"
  by (simp add: get_artist_albums_def field_or_empty_def sample_service_request sample_get_def
      albums_request_params limit_of_def albums_params_def)

lemma sample_artist2_first_ten:
  "take 10 (album_listing (JStr ''artist2'')) = replicate 10 old_album"
  by (simp add: album_listing_def)

lemma sample_artist2_eleventh: "album_listing (JStr ''artist2'') ! 10 = late_album"
  by (simp add: album_listing_def nth_append)

lemma late_album_date: "parse_release_date late_album = Inr (738958 * microseconds_per_day)"
  by code_simp

theorem single_album_page_per_artist_witness:
  "album_listing (JStr ''artist2'') ! 10 = late_album
   \<and> parse_release_date late_album = Inr (738958 * microseconds_per_day)
   \<and> 738952 * microseconds_per_day + 12 * 3600 * microseconds_per_second
        \<le> 738958 * microseconds_per_day
   \<and> scan_artists sample_service sample_token
        (738952 * microseconds_per_day + 12 * 3600 * microseconds_per_second)
        [] [JStr ''artist2''] []
      = (Inr [], [albums_request sample_token (JStr ''artist2'')])
   \<and> (\<exists>ext. snd (scan_artists sample_service sample_token
                    (738952 * microseconds_per_day + 12 * 3600 * microseconds_per_second)
                    [] [JStr ''artist2''] []) = ext
          \<and> filter lists_albums ext = [albums_request sample_token (JStr ''artist2'')])"
proof -
  let ?W = "738952 * microseconds_per_day + 12 * 3600 * microseconds_per_second"
  let ?rq = "albums_request sample_token (JStr ''artist2'')"
  note t = single_album_page_per_artist
      [of sample_service sample_token ?W "[]" "JStr ''artist2''" "[]" "[]" "[JStr ''artist2'']"
          "album_listing (JStr ''artist2'')" "[?rq]"]
  have old: "738520 * microseconds_per_day < ?W"
    by (simp add: microseconds_per_day_def microseconds_per_second_def)
  have none: "scan_albums sample_service sample_token ?W [] (replicate 10 old_album) [?rq]
                = (Inr [], [?rq])"
    using old old_album_date by (intro scan_albums_none_qualifying) simp
  have run: "scan_artists sample_service sample_token ?W [] [JStr ''artist2''] []
               = (Inr [], [?rq])"
    using t [THEN conjunct2, THEN conjunct2, THEN mp, OF sample_artist2_albums,
             THEN conjunct2, THEN conjunct1]
    by (simp only: sample_artist2_first_ten none)
  from t [THEN conjunct2, THEN conjunct1] obtain ext k where
    e: "snd (scan_artists sample_service sample_token ?W [] [JStr ''artist2''] []) = [] @ ext"
       "filter lists_albums ext = map (albums_request sample_token) (take k [JStr ''artist2''])"
       "(\<exists>r. fst (scan_artists sample_service sample_token ?W [] [JStr ''artist2''] []) = Inr r)
          \<longrightarrow> k = length [JStr ''artist2'']"
    by blast
  from e(3) run have "k = 1" by simp
  with e(1,2) have only: "\<exists>ext. snd (scan_artists sample_service sample_token ?W
                    [] [JStr ''artist2''] []) = ext
          \<and> filter lists_albums ext = [?rq]"
    by simp
  from sample_artist2_eleventh late_album_date sample_album_in_window run only
  show ?thesis by (intro conjI)
qed

subsection \<open>Expansion into related artists\<close>

lemma py_eq_string: "py_eq y (JStr x) = (y = JStr x)"
  by (cases y) simp_all

lemma set_add_string: "is_string x \<Longrightarrow> set_add s x = Inr (insert x s)"
  by (cases x) (auto simp add: is_string_def set_add_def py_eq_string)

lemma ids_of_Cons:
  "subscript a ''id'' = Inr i \<Longrightarrow> ids_of (a # rest) = insert i (ids_of rest)"
  by (simp add: ids_of_def del: subscript.simps)

lemma ids_of_Nil: "ids_of [] = {}"
  by (simp add: ids_of_def)

lemma add_related_ids:
  assumes "\<forall>r \<in> set rs. \<exists>rid. subscript r ''id'' = Inr rid \<and> is_string rid"
  shows "add_related s rs = Inr (s \<union> ids_of rs)"
  using assms
proof (induction rs arbitrary: s)
  case Nil
  then show ?case by (simp add: ids_of_Nil)
next
  case (Cons r rs)
  then obtain rid where rid: "subscript r ''id'' = Inr rid" "is_string rid" by auto
  from Cons have "add_related (insert rid s) rs = Inr (insert rid s \<union> ids_of rs)" by simp
  with rid show ?case
    by (simp add: and_then_def set_add_string ids_of_Cons del: subscript.simps)
qed

lemma collect_artists_step:
  assumes "subscript artist ''id'' = Inr artist_id" "is_string artist_id"
    and "get_related_artists srv tok artist_id log = (Inr (JArr related), log1)"
    and "\<forall>r \<in> set (take 5 related). \<exists>rid. subscript r ''id'' = Inr rid \<and> is_string rid"
  shows "collect_artists srv tok s (artist # rest) log
           = collect_artists srv tok (s \<union> ids_of (artist # take 5 related)) rest log1"
proof -
  have "add_related (insert artist_id s) (take 5 related)
          = Inr (insert artist_id s \<union> ids_of (take 5 related))"
    using assms(4) by (rule add_related_ids)
  with assms(1-3) show ?thesis
    by (simp add: and_then_def set_add_string ids_of_Cons del: subscript.simps)
qed

lemma collect_artists_all:
  assumes "\<forall>a \<in> set seeds. \<exists>sid.
             subscript a ''id'' = Inr sid \<and> is_string sid
           \<and> (\<forall>log. get_related_artists srv tok sid log
                       = (Inr (JArr (related a)), log @ [GET tok (RelatedArtists sid) []]))
           \<and> (\<forall>r \<in> set (take 5 (related a)). \<exists>rid. subscript r ''id'' = Inr rid \<and> is_string rid)"
  shows "collect_artists srv tok s seeds log
           = (Inr (s \<union> (\<Union>a \<in> set seeds. ids_of (a # take 5 (related a)))),
              log @ concat (map (related_request tok) seeds))"
  using assms
proof (induction seeds arbitrary: s log)
  case Nil
  then show ?case by simp
next
  case (Cons a seeds)
  then obtain sid where
    sid: "subscript a ''id'' = Inr sid" "is_string sid"
      "get_related_artists srv tok sid log
         = (Inr (JArr (related a)), log @ [GET tok (RelatedArtists sid) []])"
      "\<forall>r \<in> set (take 5 (related a)). \<exists>rid. subscript r ''id'' = Inr rid \<and> is_string rid"
    by auto
  have rq: "related_request tok a = [GET tok (RelatedArtists sid) []]"
    using sid(1) by (simp add: related_request_def del: subscript.simps)
  have "collect_artists srv tok s (a # seeds) log
          = collect_artists srv tok (s \<union> ids_of (a # take 5 (related a))) seeds
              (log @ [GET tok (RelatedArtists sid) []])"
    using sid by (rule collect_artists_step)
  also have "\<dots> = (Inr ((s \<union> ids_of (a # take 5 (related a)))
                          \<union> (\<Union>a \<in> set seeds. ids_of (a # take 5 (related a)))),
                    (log @ [GET tok (RelatedArtists sid) []])
                      @ concat (map (related_request tok) seeds))"
    using Cons.prems by (intro Cons.IH) simp
  finally show ?case
    by (simp add: rq Un_assoc)
qed

lemma card_ids_of: "card (ids_of artists) \<le> length artists"
proof -
  have "length (concat (map (\<lambda>a. case subscript a ''id'' of Inl e \<Rightarrow> [] | Inr i \<Rightarrow> [i]) artists))
          \<le> length artists"
    by (induction artists) (auto split: sum.splits)
  then show ?thesis
    unfolding ids_of_def by (meson card_length le_trans)
qed

lemma generate_playlist_stages:
  assumes "get_followed_artists srv tok 50 [] = Some (Inr seeds, log0)"
    and "collect_artists srv tok {} seeds log0 = (Inr all_artists, log1)"
  shows "generate_playlist srv list_of clk (Some tok)
           = Some (find_and_publish srv tok clk (take 50 (list_of all_artists)) log1)"
  using assms by (simp add: generate_playlist_def)


text \<open>
  Claim C2. Let every seed have a string as its \<^verbatim>\<open>id\<close>, let the service answer the
  related-artists call for a seed \<open>a\<close> with the list \<open>related a\<close>, and let the first five of that
  list have strings as their \<^verbatim>\<open>id\<close>s. Then the expansion ends with the set it began with, extended by the \<^verbatim>\<open>id\<close>
  of every seed and the \<^verbatim>\<open>id\<close>s of the first five related artists of every seed (at most five
  per seed), and it has made exactly one related-artists call per seed, in the order of the
  seeds, whatever the size the set has reached. The cap of 50 comes afterwards: the handler
  scans the first 50 members of the whole set, in the order in which the set is listed.
\<close>

theorem expansion_complete_then_capped:
  assumes "\<forall>a \<in> set seeds. \<exists>sid.
             subscript a ''id'' = Inr sid \<and> is_string sid
           \<and> (\<forall>log. get_related_artists srv tok sid log
                       = (Inr (JArr (related a)), log @ [GET tok (RelatedArtists sid) []]))
           \<and> (\<forall>r \<in> set (take 5 (related a)). \<exists>rid. subscript r ''id'' = Inr rid \<and> is_string rid)"
  shows "collect_artists srv tok s seeds log
           = (Inr (s \<union> (\<Union>a \<in> set seeds. ids_of (a # take 5 (related a)))),
              log @ concat (map (related_request tok) seeds))
       \<and> (\<forall>a \<in> set seeds. card (ids_of (take 5 (related a))) \<le> 5)
       \<and> (get_followed_artists srv tok 50 [] = Some (Inr seeds, log0) \<longrightarrow>
            generate_playlist srv list_of clk (Some tok)
              = Some (find_and_publish srv tok clk
                        (take 50 (list_of (\<Union>a \<in> set seeds. ids_of (a # take 5 (related a)))))
                        (log0 @ concat (map (related_request tok) seeds))))"
proof (intro conjI ballI impI)
  show "collect_artists srv tok s seeds log
           = (Inr (s \<union> (\<Union>a \<in> set seeds. ids_of (a # take 5 (related a)))),
              log @ concat (map (related_request tok) seeds))"
    using assms by (rule collect_artists_all)
next
  fix a
  have "card (ids_of (take 5 (related a))) \<le> length (take 5 (related a))"
    by (rule card_ids_of)
  then show "card (ids_of (take 5 (related a))) \<le> 5" by simp
next
  assume f: "get_followed_artists srv tok 50 [] = Some (Inr seeds, log0)"
  have "collect_artists srv tok {} seeds log0
           = (Inr ({} \<union> (\<Union>a \<in> set seeds. ids_of (a # take 5 (related a)))),
              log0 @ concat (map (related_request tok) seeds))"
    using assms by (rule collect_artists_all)
  then have c: "collect_artists srv tok {} seeds log0
           = (Inr (\<Union>a \<in> set seeds. ids_of (a # take 5 (related a))),
              log0 @ concat (map (related_request tok) seeds))"
    by simp
  show "generate_playlist srv list_of clk (Some tok)
              = Some (find_and_publish srv tok clk
                        (take 50 (list_of (\<Union>a \<in> set seeds. ids_of (a # take 5 (related a)))))
                        (log0 @ concat (map (related_request tok) seeds)))"
    using f c by (rule generate_playlist_stages)
qed

lemma sample_first_page:
  "followed_page artists sample_page1
     = Inr (artists @ [named ''artist1'' ''First Artist''], Some (JStr ''artist1''))"
  by (simp add: followed_page_def and_then_def sample_page1_def)

lemma sample_second_page:
  "followed_page artists sample_page2
     = Inr (artists @ [named ''artist2'' ''Second Artist''], None)"
  by (simp add: followed_page_def and_then_def sample_page2_def)

lemma sample_pages_truthy: "truthy sample_page1" "truthy sample_page2"
  by (simp_all add: sample_page1_def sample_page2_def)

lemma sample_following_requests:
  "make_request sample_service MeFollowing tok (followed_params limit JNull) log
     = (Inr sample_page1, log @ [GET tok MeFollowing (followed_params limit JNull)])"
  "make_request sample_service MeFollowing tok (followed_params limit (JStr ''artist1'')) log
     = (Inr sample_page2, log @ [GET tok MeFollowing (followed_params limit (JStr ''artist1''))])"
  by (simp_all add: sample_service_request sample_get_def followed_params_def)

lemma sample_followed_artists:
  "get_followed_artists sample_service tok limit []
     = Some (Inr sample_followed,
             [GET tok MeFollowing (followed_params limit JNull),
              GET tok MeFollowing (followed_params limit (JStr ''artist1''))])"
proof -
  have "followed_artists_loop sample_service tok limit [] JNull []
          = followed_artists_loop sample_service tok limit
              ([] @ [named ''artist1'' ''First Artist'']) (JStr ''artist1'')
              ([] @ [GET tok MeFollowing (followed_params limit JNull)])"
    by (rule followed_artists_loop_next
          [OF sample_following_requests(1) sample_pages_truthy(1) sample_first_page])
  also have "\<dots> = Some (Inr (([] @ [named ''artist1'' ''First Artist''])
                               @ [named ''artist2'' ''Second Artist'']),
                         ([] @ [GET tok MeFollowing (followed_params limit JNull)])
                           @ [GET tok MeFollowing (followed_params limit (JStr ''artist1''))])"
    by (rule followed_artists_loop_last
          [OF sample_following_requests(2) sample_pages_truthy(2) sample_second_page])
  finally show ?thesis
    by (simp add: get_followed_artists_def sample_followed_def)
qed

lemma sample_related_requests:
  "get_related_artists sample_service tok (JStr ''artist1'') log
     = (Inr (JArr sample_related), log @ [GET tok (RelatedArtists (JStr ''artist1'')) []])"
  "get_related_artists sample_service tok (JStr ''artist2'') log
     = (Inr (JArr [named ''related1'' ''Related 1'']),
        log @ [GET tok (RelatedArtists (JStr ''artist2'')) []])"
  by (simp_all add: get_related_artists_def field_or_empty_def sample_service_request
      sample_get_def)

lemma named_id: "subscript (named ident name) ''id'' = Inr (JStr ident)"
  by (simp add: named_def)

lemma is_string_JStr: "is_string (JStr s)"
  by (simp add: is_string_def)

lemma sample_seeds_well_formed:
  "\<forall>a \<in> set sample_followed. \<exists>sid.
      subscript a ''id'' = Inr sid \<and> is_string sid
    \<and> (\<forall>log. get_related_artists sample_service tok sid log
                = (Inr (JArr (sample_related_of a)), log @ [GET tok (RelatedArtists sid) []]))
    \<and> (\<forall>r \<in> set (take 5 (sample_related_of a)).
          \<exists>rid. subscript r ''id'' = Inr rid \<and> is_string rid)"
proof -
  have r: "\<forall>r \<in> set sample_related. \<exists>rid. subscript r ''id'' = Inr rid \<and> is_string rid"
    by (simp add: sample_related_def named_id is_string_JStr del: subscript.simps)
  have a1: "\<exists>sid.
      subscript (named ''artist1'' ''First Artist'') ''id'' = Inr sid \<and> is_string sid
    \<and> (\<forall>log. get_related_artists sample_service tok sid log
                = (Inr (JArr sample_related), log @ [GET tok (RelatedArtists sid) []]))
    \<and> (\<forall>r \<in> set (take 5 sample_related).
          \<exists>rid. subscript r ''id'' = Inr rid \<and> is_string rid)"
    using r by (intro exI [of _ "JStr ''artist1''"] conjI named_id is_string_JStr allI
        sample_related_requests(1)) (meson in_set_takeD)
  have a2: "\<exists>sid.
      subscript (named ''artist2'' ''Second Artist'') ''id'' = Inr sid \<and> is_string sid
    \<and> (\<forall>log. get_related_artists sample_service tok sid log
                = (Inr (JArr [named ''related1'' ''Related 1'']),
                   log @ [GET tok (RelatedArtists sid) []]))
    \<and> (\<forall>r \<in> set (take 5 [named ''related1'' ''Related 1'']).
          \<exists>rid. subscript r ''id'' = Inr rid \<and> is_string rid)"
    by (intro exI [of _ "JStr ''artist2''"] conjI named_id is_string_JStr allI
        sample_related_requests(2)) (simp add: named_id is_string_JStr del: subscript.simps)
  have ne: "named ''artist2'' ''Second Artist'' \<noteq> named ''artist1'' ''First Artist''"
    by (simp add: named_def)
  show ?thesis
    using a1 a2 ne by (simp add: sample_followed_def sample_related_of_def)
qed

lemma sample_expansion_set:
  "(\<Union>a \<in> set sample_followed. ids_of (a # take 5 (sample_related_of a))) = set sample_artist_ids"
  by (auto simp add: sample_followed_def sample_related_of_def sample_related_def ids_of_def
      sample_artist_ids_def named_def)

lemma sample_expansion_order: "take 50 (sample_list_of (set sample_artist_ids)) = sample_artist_ids"
  by (simp add: sample_list_of_def sample_universe_def sample_artist_ids_def)

lemma sample_related_calls:
  "concat (map (related_request tok) sample_followed)
     = [GET tok (RelatedArtists (JStr ''artist1'')) [],
        GET tok (RelatedArtists (JStr ''artist2'')) []]"
  by (simp add: sample_followed_def related_request_def named_id del: subscript.simps)

lemma sample_five_related: "card (ids_of (take 5 sample_related)) = 5"
  by (simp add: sample_related_def ids_of_def named_def)

theorem expansion_complete_then_capped_witness:
  "collect_artists sample_service sample_token {} sample_followed []
     = (Inr (set sample_artist_ids),
        [GET sample_token (RelatedArtists (JStr ''artist1'')) [],
         GET sample_token (RelatedArtists (JStr ''artist2'')) []])
   \<and> length sample_related = 7
   \<and> card (ids_of (take 5 (sample_related_of (named ''artist1'' ''First Artist'')))) = 5
   \<and> generate_playlist sample_service sample_list_of sample_clock (Some sample_token)
       = Some (find_and_publish sample_service sample_token sample_clock sample_artist_ids
                 [GET sample_token MeFollowing (followed_params 50 JNull),
                  GET sample_token MeFollowing (followed_params 50 (JStr ''artist1'')),
                  GET sample_token (RelatedArtists (JStr ''artist1'')) [],
                  GET sample_token (RelatedArtists (JStr ''artist2'')) []])"
proof -
  note t = expansion_complete_then_capped
      [of sample_followed sample_service sample_token sample_related_of "{}" "[]"
          "[GET sample_token MeFollowing (followed_params 50 JNull),
            GET sample_token MeFollowing (followed_params 50 (JStr ''artist1''))]"
          sample_list_of sample_clock,
       OF sample_seeds_well_formed]
  have a: "collect_artists sample_service sample_token {} sample_followed []
     = (Inr (set sample_artist_ids),
        [GET sample_token (RelatedArtists (JStr ''artist1'')) [],
         GET sample_token (RelatedArtists (JStr ''artist2'')) []])"
    using t [THEN conjunct1] by (simp add: sample_expansion_set sample_related_calls)
  have b: "length sample_related = 7" by (simp add: sample_related_def)
  have "named ''artist1'' ''First Artist'' \<in> set sample_followed"
    by (simp add: sample_followed_def)
  with t [THEN conjunct2, THEN conjunct1]
  have "card (ids_of (take 5 (sample_related_of (named ''artist1'' ''First Artist'')))) \<le> 5"
    by blast
  moreover have "sample_related_of (named ''artist1'' ''First Artist'') = sample_related"
    by (simp add: sample_related_of_def)
  ultimately have c: "card (ids_of (take 5 (sample_related_of (named ''artist1'' ''First Artist'')))) = 5"
    using sample_five_related by simp
  have d: "generate_playlist sample_service sample_list_of sample_clock (Some sample_token)
       = Some (find_and_publish sample_service sample_token sample_clock sample_artist_ids
                 [GET sample_token MeFollowing (followed_params 50 JNull),
                  GET sample_token MeFollowing (followed_params 50 (JStr ''artist1'')),
                  GET sample_token (RelatedArtists (JStr ''artist1'')) [],
                  GET sample_token (RelatedArtists (JStr ''artist2'')) []])"
    using t [THEN conjunct2, THEN conjunct2, THEN mp, OF sample_followed_artists]
    by (simp add: sample_expansion_set sample_expansion_order sample_related_calls)
  from a b c d show ?thesis by (intro conjI)
qed

subsection \<open>Calls made by the stages of the handler\<close>

lemma followed_artists_loop_calls:
  assumes "followed_artists_loop srv tok limit artists after log = Some y"
  shows "\<exists>ext. snd y = log @ ext
           \<and> (\<forall>rq \<in> set ext. \<exists>cursor. rq = GET tok MeFollowing (followed_params limit cursor))"
proof (rule followed_artists_loop.raw_induct
    [where P = "\<lambda>srv tok limit artists after log y. \<exists>ext. snd y = log @ ext
           \<and> (\<forall>rq \<in> set ext. \<exists>cursor. rq = GET tok MeFollowing (followed_params limit cursor))",
     OF _ assms])
  fix loop :: "service \<Rightarrow> string \<Rightarrow> int \<Rightarrow> json list \<Rightarrow> json \<Rightarrow> request list
                 \<Rightarrow> ((error + json list) \<times> request list) option"
  fix srv tok limit artists after log y
  assume IH: "\<And>srv tok limit artists after log y. loop srv tok limit artists after log = Some y \<Longrightarrow>
           \<exists>ext. snd y = log @ ext
           \<and> (\<forall>rq \<in> set ext. \<exists>cursor. rq = GET tok MeFollowing (followed_params limit cursor))"
  assume step: "(case make_request srv MeFollowing tok (followed_params limit after) log of
        (Inl e, log1) \<Rightarrow> Some (Inl e, log1)
      | (Inr data, log1) \<Rightarrow>
          if \<not> truthy data then Some (Inr artists, log1)
          else
            (case followed_page artists data of
               Inl e \<Rightarrow> Some (Inl e, log1)
             | Inr (artists1, None) \<Rightarrow> Some (Inr artists1, log1)
             | Inr (artists1, Some after1) \<Rightarrow> loop srv tok limit artists1 after1 log1)) = Some y"
  let ?rq = "GET tok MeFollowing (followed_params limit after)"
  obtain res log1 where
    m: "make_request srv MeFollowing tok (followed_params limit after) log = (res, log1)"
    by (cases "make_request srv MeFollowing tok (followed_params limit after) log") auto
  with make_request_log [of srv MeFollowing tok "followed_params limit after" log]
  have log1: "log1 = log @ [?rq]" by simp
  have stop: "\<exists>ext. snd y = log @ ext
           \<and> (\<forall>rq \<in> set ext. \<exists>cursor. rq = GET tok MeFollowing (followed_params limit cursor))"
    if "snd y = log1"
    using that log1 by (intro exI [of _ "[?rq]"]) auto
  note body = step [unfolded m, simplified]
  show "\<exists>ext. snd y = log @ ext
           \<and> (\<forall>rq \<in> set ext. \<exists>cursor. rq = GET tok MeFollowing (followed_params limit cursor))"
  proof (cases res)
    case (Inl e)
    with body have "snd y = log1" by auto
    then show ?thesis by (rule stop)
  next
    case data: (Inr data)
    show ?thesis
    proof (cases "truthy data")
      case False
      with body data have "snd y = log1" by auto
      then show ?thesis by (rule stop)
    next
      case True
      show ?thesis
      proof (cases "followed_page artists data")
        case (Inl e)
        with body data True have "snd y = log1" by auto
        then show ?thesis by (rule stop)
      next
        case (Inr page)
        obtain artists1 next_cursor where page: "page = (artists1, next_cursor)"
          by (cases page) auto
        show ?thesis
        proof (cases next_cursor)
          case None
          with body data True Inr page have "snd y = log1" by auto
          then show ?thesis by (rule stop)
        next
          case (Some after1)
          with body data True Inr page
          have "loop srv tok limit artists1 after1 log1 = Some y" by simp
          from IH [OF this] obtain ext where
            e: "snd y = log1 @ ext"
            "\<forall>rq \<in> set ext. \<exists>cursor. rq = GET tok MeFollowing (followed_params limit cursor)"
            by (elim exE conjE)
          show ?thesis
            using e log1 by (intro exI [of _ "?rq # ext"]) auto
        qed
      qed
    qed
  qed
qed

lemma collect_artists_calls:
  "\<exists>ext. snd (collect_artists srv tok s seeds log) = log @ ext \<and> (\<forall>rq \<in> set ext. \<not> is_post rq)"
proof (induction seeds arbitrary: s log)
  case Nil
  then show ?case by simp
next
  case (Cons artist rest)
  show ?case
  proof (cases "and_then (subscript artist ''id'') (\<lambda>artist_id.
             and_then (set_add s artist_id) (\<lambda>all_artists1. Inr (artist_id, all_artists1)))")
    case (Inl e)
    then show ?thesis by (simp del: subscript.simps)
  next
    case (Inr p)
    obtain artist_id s1 where p: "p = (artist_id, s1)" by (cases p) auto
    let ?rq = "GET tok (RelatedArtists artist_id) []"
    obtain res log1 where g: "get_related_artists srv tok artist_id log = (res, log1)"
      by (cases "get_related_artists srv tok artist_id log") auto
    with get_related_artists_log [of srv tok artist_id log] have log1: "log1 = log @ [?rq]"
      by simp
    show ?thesis
    proof (cases res)
      case (Inl e)
      with Inr p g log1 show ?thesis by (simp del: subscript.simps)
    next
      case related: (Inr related)
      show ?thesis
      proof (cases "and_then (slice_to 5 related) (\<lambda>first5.
                       and_then (iterate first5) (\<lambda>relateds. add_related s1 relateds))")
        case (Inl e)
        with Inr p g related log1 show ?thesis by (simp del: subscript.simps)
      next
        case s2: (Inr s2)
        from Cons.IH [of s2 log1] obtain ext where
          "snd (collect_artists srv tok s2 rest log1) = log1 @ ext"
          "\<forall>rq \<in> set ext. \<not> is_post rq" by blast
        with Inr p g related s2 log1 show ?thesis
          by (simp del: subscript.simps)
      qed
    qed
  qed
qed

lemma scan_albums_calls:
  "\<exists>ext. snd (scan_albums srv tok one_week_ago recent albums log) = log @ ext
         \<and> (\<forall>rq \<in> set ext. \<not> is_post rq)"
proof -
  from scan_albums_requests [of srv tok one_week_ago recent albums log] obtain ext where
    e: "snd (scan_albums srv tok one_week_ago recent albums log) = log @ ext"
       "set ext \<subseteq> (\<Union>album \<in> set albums. set (track_request tok album))" by blast
  have "\<forall>rq \<in> set ext. \<not> is_post rq"
  proof
    fix rq assume "rq \<in> set ext"
    with e(2) obtain album where "rq \<in> set (track_request tok album)" by blast
    then show "\<not> is_post rq"
      by (auto simp add: track_request_def split: sum.splits)
  qed
  with e(1) show ?thesis by blast
qed

lemma scan_artists_calls:
  "\<exists>ext. snd (scan_artists srv tok one_week_ago recent artist_ids log) = log @ ext
         \<and> (\<forall>rq \<in> set ext. \<not> is_post rq)"
proof (induction artist_ids arbitrary: recent log)
  case Nil
  then show ?case by simp
next
  case (Cons artist_id rest)
  let ?rq = "albums_request tok artist_id"
  have rq: "\<not> is_post ?rq" by (simp add: albums_request_def)
  obtain res log1 where g: "get_artist_albums srv tok artist_id 10 log = (res, log1)"
    by (cases "get_artist_albums srv tok artist_id 10 log") auto
  with get_artist_albums_10_log [of srv tok artist_id log] have log1: "log1 = log @ [?rq]"
    by simp
  show ?case
  proof (cases res)
    case (Inl e)
    with g log1 rq show ?thesis by simp
  next
    case albums: (Inr albums)
    show ?thesis
    proof (cases "iterate albums")
      case (Inl e)
      with g albums log1 rq show ?thesis by simp
    next
      case album_list: (Inr album_list)
      obtain res2 log2 where
        s: "scan_albums srv tok one_week_ago recent album_list log1 = (res2, log2)"
        by (cases "scan_albums srv tok one_week_ago recent album_list log1") auto
      from scan_albums_calls [of srv tok one_week_ago recent album_list log1] s
      obtain ext2 where e2: "log2 = log1 @ ext2" "\<forall>rq \<in> set ext2. \<not> is_post rq"
        by auto
      show ?thesis
      proof (cases res2)
        case (Inl e)
        have "scan_artists srv tok one_week_ago recent (artist_id # rest) log = (Inl e, log2)"
          using g albums album_list s Inl by simp
        with e2 log1 rq show ?thesis
          by (intro exI [of _ "?rq # ext2"]) auto
      next
        case recent1: (Inr recent1)
        have step: "scan_artists srv tok one_week_ago recent (artist_id # rest) log
                = scan_artists srv tok one_week_ago recent1 rest log2"
          using g albums album_list s recent1 by simp
        from Cons.IH [of recent1 log2] obtain ext3 where
          "snd (scan_artists srv tok one_week_ago recent1 rest log2) = log2 @ ext3"
          "\<forall>rq \<in> set ext3. \<not> is_post rq" by blast
        with e2 log1 rq show ?thesis
          unfolding step by (intro exI [of _ "?rq # ext2 @ ext3"]) auto
      qed
    qed
  qed
qed

lemma filter_is_post_extension:
  "(\<forall>rq \<in> set ext. \<not> is_post rq) \<Longrightarrow> filter is_post (log @ ext) = filter is_post log"
  by (simp add: filter_empty_conv)

lemma scan_artists_no_post:
  "filter is_post (snd (scan_artists srv tok one_week_ago recent artist_ids log))
     = filter is_post log"
proof -
  from scan_artists_calls [of srv tok one_week_ago recent artist_ids log] obtain ext where
    "snd (scan_artists srv tok one_week_ago recent artist_ids log) = log @ ext"
    "\<forall>rq \<in> set ext. \<not> is_post rq" by (elim exE conjE)
  then show ?thesis by (simp add: filter_is_post_extension)
qed

lemma collect_artists_no_post:
  "filter is_post (snd (collect_artists srv tok s seeds log)) = filter is_post log"
proof -
  from collect_artists_calls [of srv tok s seeds log] obtain ext where
    "snd (collect_artists srv tok s seeds log) = log @ ext"
    "\<forall>rq \<in> set ext. \<not> is_post rq" by (elim exE conjE)
  then show ?thesis by (simp add: filter_is_post_extension)
qed

lemma get_followed_artists_no_post:
  assumes "get_followed_artists srv tok limit log = Some (res, log1)"
  shows "filter is_post log1 = filter is_post log"
proof -
  from assms have "followed_artists_loop srv tok limit [] JNull log = Some (res, log1)"
    by (simp add: get_followed_artists_def)
  from followed_artists_loop_calls [OF this] obtain ext where
    e: "log1 = log @ ext"
    "\<forall>rq \<in> set ext. \<exists>cursor. rq = GET tok MeFollowing (followed_params limit cursor)"
    by auto
  from e(2) have "\<forall>rq \<in> set ext. \<not> is_post rq" by fastforce
  with e(1) show ?thesis by (simp add: filter_is_post_extension)
qed

lemma publish_playlist_outcome:
  "fst (publish_playlist srv tok clk recent log) \<noteq> NoRecentReleases"
  unfolding publish_playlist_def Let_def
  by (simp split: prod.split sum.split)

lemma find_and_publish_empty:
  assumes "one_week_before (now clk) = Inr one_week_ago"
    and "scan_artists srv tok one_week_ago [] artist_ids log = (Inr [], log1)"
  shows "find_and_publish srv tok clk artist_ids log = (NoRecentReleases, log1)"
  using assms by (simp add: find_and_publish_def)

lemma find_and_publish_tracks:
  assumes "one_week_before (now clk) = Inr one_week_ago"
    and "scan_artists srv tok one_week_ago [] artist_ids log = (Inr recent, log1)"
    and "recent \<noteq> []"
  shows "find_and_publish srv tok clk artist_ids log = publish_playlist srv tok clk recent log1"
  using assms by (simp add: find_and_publish_def)

lemma find_and_publish_writes:
  assumes "find_and_publish srv tok clk artist_ids log = (outcome, final_log)"
  shows "(outcome = NoRecentReleases \<longrightarrow> filter is_post final_log = filter is_post log)
       \<and> (filter is_post final_log \<noteq> filter is_post log \<longrightarrow>
            (\<exists>one_week_ago recent log1.
                one_week_before (now clk) = Inr one_week_ago
              \<and> scan_artists srv tok one_week_ago [] artist_ids log = (Inr recent, log1)
              \<and> recent \<noteq> [] \<and> filter is_post log1 = filter is_post log
              \<and> (outcome, final_log) = publish_playlist srv tok clk recent log1))"
proof (cases "one_week_before (now clk)")
  case (Inl e)
  with assms show ?thesis by (auto simp add: find_and_publish_def)
next
  case owa: (Inr one_week_ago)
  obtain res log1 where s: "scan_artists srv tok one_week_ago [] artist_ids log = (res, log1)"
    by (cases "scan_artists srv tok one_week_ago [] artist_ids log") auto
  with scan_artists_no_post [of srv tok one_week_ago "[]" artist_ids log]
  have np: "filter is_post log1 = filter is_post log" by simp
  show ?thesis
  proof (cases res)
    case (Inl e)
    with assms owa s np show ?thesis by (auto simp add: find_and_publish_def)
  next
    case recent: (Inr recent)
    show ?thesis
    proof (cases "recent = []")
      case True
      with assms owa s recent np show ?thesis by (auto simp add: find_and_publish_def)
    next
      case False
      have p: "find_and_publish srv tok clk artist_ids log
                 = publish_playlist srv tok clk recent log1"
        using owa s recent False by (simp add: find_and_publish_def)
      with assms have eq: "(outcome, final_log) = publish_playlist srv tok clk recent log1"
        by simp
      with publish_playlist_outcome [of srv tok clk recent log1]
      have "outcome \<noteq> NoRecentReleases" by (metis fst_conv)
      with owa s recent False np eq show ?thesis by blast
    qed
  qed
qed

lemma generate_playlist_cases:
  assumes "generate_playlist srv list_of clk session = Some (outcome, final_log)"
  shows "(session = None \<and> outcome = NotAuthenticated \<and> final_log = [])
       \<or> (\<exists>e. outcome = Failed e \<and> filter is_post final_log = [])
       \<or> (\<exists>tok artist_ids log. session = Some tok \<and> filter is_post log = []
             \<and> find_and_publish srv tok clk artist_ids log = (outcome, final_log))"
proof (cases session)
  case None
  with assms show ?thesis by (simp add: generate_playlist_def)
next
  case (Some tok)
  show ?thesis
  proof (cases "get_followed_artists srv tok 50 []")
    case None
    with assms Some show ?thesis by (simp add: generate_playlist_def)
  next
    case f: (Some followed)
    obtain res log1 where fl: "followed = (res, log1)" by (cases followed) auto
    from get_followed_artists_no_post [OF f [unfolded fl]]
    have np1: "filter is_post log1 = []" by simp
    show ?thesis
    proof (cases res)
      case (Inl e)
      with assms Some f fl np1 show ?thesis by (auto simp add: generate_playlist_def)
    next
      case seeds: (Inr seeds)
      obtain res2 log2 where c: "collect_artists srv tok {} seeds log1 = (res2, log2)"
        by (cases "collect_artists srv tok {} seeds log1") auto
      with collect_artists_no_post [of srv tok "{}" seeds log1] np1
      have np2: "filter is_post log2 = []" by simp
      show ?thesis
      proof (cases res2)
        case (Inl e)
        with assms Some f fl seeds c np2 show ?thesis by (auto simp add: generate_playlist_def)
      next
        case all_artists: (Inr all_artists)
        with assms Some f fl seeds c
        have "find_and_publish srv tok clk (take 50 (list_of all_artists)) log2
                = (outcome, final_log)"
          by (simp add: generate_playlist_def)
        with Some np2 show ?thesis by blast
      qed
    qed
  qed
qed


subsection \<open>No playlist without tracks\<close>

text \<open>
  Claim C6. When the scan of the artists ends with an empty list of tracks, the handler
  returns the outcome \<open>NoRecentReleases\<close>, a message with status 200 that is not the failure
  outcome, and has made no writing call: no playlist is created and no track is added. When
  the list is not empty, the handler goes on to create and fill the playlist. For a whole
  run: an outcome \<open>NoRecentReleases\<close> comes with a log without writing calls, and a log with a
  writing call comes from a scan that found at least one track, after which the playlist was
  created and filled.
\<close>

theorem no_playlist_without_tracks:
  "(one_week_before (now clk) = Inr one_week_ago
      \<and> scan_artists srv tok one_week_ago [] artist_ids log = (Inr recent_tracks, log1) \<longrightarrow>
        (recent_tracks = [] \<longrightarrow>
           find_and_publish srv tok clk artist_ids log = (NoRecentReleases, log1)
         \<and> filter is_post log1 = filter is_post log)
      \<and> (recent_tracks \<noteq> [] \<longrightarrow>
           find_and_publish srv tok clk artist_ids log
             = publish_playlist srv tok clk recent_tracks log1))
   \<and> status_of NoRecentReleases = 200
   \<and> (\<forall>e. NoRecentReleases \<noteq> Failed e)
   \<and> (generate_playlist srv list_of clk session = Some (outcome, final_log) \<longrightarrow>
        (outcome = NoRecentReleases \<longrightarrow> filter is_post final_log = [])
      \<and> (filter is_post final_log \<noteq> [] \<longrightarrow>
           (\<exists>access_token ids log0 week_ago recent log2.
               session = Some access_token
             \<and> one_week_before (now clk) = Inr week_ago
             \<and> scan_artists srv access_token week_ago [] ids log0 = (Inr recent, log2)
             \<and> recent \<noteq> [] \<and> filter is_post log2 = []
             \<and> (outcome, final_log) = publish_playlist srv access_token clk recent log2)))"
proof (intro conjI impI allI)
  assume a: "one_week_before (now clk) = Inr one_week_ago
      \<and> scan_artists srv tok one_week_ago [] artist_ids log = (Inr recent_tracks, log1)"
  {
    assume "recent_tracks = []"
    with a show "find_and_publish srv tok clk artist_ids log = (NoRecentReleases, log1)"
      by (simp add: find_and_publish_empty)
    from a scan_artists_no_post [of srv tok one_week_ago "[]" artist_ids log]
    show "filter is_post log1 = filter is_post log" by simp
  }
  {
    assume "recent_tracks \<noteq> []"
    with a show "find_and_publish srv tok clk artist_ids log
             = publish_playlist srv tok clk recent_tracks log1"
      by (simp add: find_and_publish_tracks)
  }
next
  show "status_of NoRecentReleases = 200" by simp
next
  fix e show "NoRecentReleases \<noteq> Failed e" by simp
next
  assume g: "generate_playlist srv list_of clk session = Some (outcome, final_log)"
    and o: "outcome = NoRecentReleases"
  from generate_playlist_cases [OF g] o
  obtain tok ids log0 where
    "filter is_post log0 = []" "find_and_publish srv tok clk ids log0 = (outcome, final_log)"
    by auto
  with find_and_publish_writes [of srv tok clk ids log0 outcome final_log] o
  show "filter is_post final_log = []" by simp
next
  assume g: "generate_playlist srv list_of clk session = Some (outcome, final_log)"
    and p: "filter is_post final_log \<noteq> []"
  from generate_playlist_cases [OF g] p
  obtain tok ids log0 where
    t: "session = Some tok" "filter is_post log0 = []"
       "find_and_publish srv tok clk ids log0 = (outcome, final_log)"
    by auto
  from find_and_publish_writes [OF t(3)] p t(2)
  obtain week_ago recent log2 where
    "one_week_before (now clk) = Inr week_ago"
    "scan_artists srv tok week_ago [] ids log0 = (Inr recent, log2)"
    "recent \<noteq> []" "filter is_post log2 = []"
    "(outcome, final_log) = publish_playlist srv tok clk recent log2"
    by auto
  with t(1) show "\<exists>access_token ids log0 week_ago recent log2.
               session = Some access_token
             \<and> one_week_before (now clk) = Inr week_ago
             \<and> scan_artists srv access_token week_ago [] ids log0 = (Inr recent, log2)
             \<and> recent \<noteq> [] \<and> filter is_post log2 = []
             \<and> (outcome, final_log) = publish_playlist srv access_token clk recent log2"
    by blast
qed

lemma sample_run:
  "generate_playlist sample_service sample_list_of sample_clock (Some sample_token)
     = Some (PlaylistCreated ''Weekly Discoveries - 2024-03-15''
               (JStr ''https://open.spotify.com/playlist/playlist1'') 2
               [sample_entry, sample_entry],
             sample_run_log)"
  by code_simp

lemma unauthorized_run:
  "generate_playlist unauthorized_service sample_list_of sample_clock (Some sample_token)
     = Some (NoRecentReleases, [GET sample_token MeFollowing (followed_params 50 JNull)])"
  by code_simp

lemma sample_artist2_scan:
  "scan_artists sample_service sample_token
     (738952 * microseconds_per_day + 12 * 3600 * microseconds_per_second) [] [JStr ''artist2''] []
     = (Inr [], [albums_request sample_token (JStr ''artist2'')])"
  by code_simp

lemma sample_artist1_scan:
  "scan_artists sample_service sample_token
     (738952 * microseconds_per_day + 12 * 3600 * microseconds_per_second) [] [JStr ''artist1''] []
     = (Inr [sample_entry, sample_entry],
        [albums_request sample_token (JStr ''artist1''),
         GET sample_token (AlbumTracks (JStr ''album1'')) []])"
  by code_simp

lemma sample_run_writes: "filter is_post sample_run_log \<noteq> []"
  by (simp add: sample_run_log_def albums_request_def create_playlist_request_def
      add_tracks_request_def)

theorem no_playlist_without_tracks_witness:
  "find_and_publish sample_service sample_token sample_clock [JStr ''artist2''] []
     = (NoRecentReleases, [albums_request sample_token (JStr ''artist2'')])
   \<and> filter is_post [albums_request sample_token (JStr ''artist2'')] = []
   \<and> find_and_publish sample_service sample_token sample_clock [JStr ''artist1''] []
     = publish_playlist sample_service sample_token sample_clock [sample_entry, sample_entry]
         [albums_request sample_token (JStr ''artist1''),
          GET sample_token (AlbumTracks (JStr ''album1'')) []]
   \<and> status_of NoRecentReleases = 200
   \<and> filter is_post [GET sample_token MeFollowing (followed_params 50 JNull)] = []
   \<and> (\<exists>ids log0 week_ago recent log2.
          one_week_before (now sample_clock) = Inr week_ago
        \<and> scan_artists sample_service sample_token week_ago [] ids log0 = (Inr recent, log2)
        \<and> recent \<noteq> [] \<and> filter is_post log2 = []
        \<and> (PlaylistCreated ''Weekly Discoveries - 2024-03-15''
               (JStr ''https://open.spotify.com/playlist/playlist1'') 2
               [sample_entry, sample_entry], sample_run_log)
            = publish_playlist sample_service sample_token sample_clock recent log2)"
proof -
  let ?W = "738952 * microseconds_per_day + 12 * 3600 * microseconds_per_second"
  let ?created = "PlaylistCreated ''Weekly Discoveries - 2024-03-15''
               (JStr ''https://open.spotify.com/playlist/playlist1'') 2
               [sample_entry, sample_entry]"
  note empty = no_playlist_without_tracks
      [of sample_clock ?W sample_service sample_token "[JStr ''artist2'']" "[]" "[]"
          "[albums_request sample_token (JStr ''artist2'')]"
          sample_list_of "Some sample_token" NoRecentReleases
          "[GET sample_token MeFollowing (followed_params 50 JNull)]"]
  note found = no_playlist_without_tracks
      [of sample_clock ?W sample_service sample_token "[JStr ''artist1'']" "[]"
          "[sample_entry, sample_entry]"
          "[albums_request sample_token (JStr ''artist1''),
            GET sample_token (AlbumTracks (JStr ''album1'')) []]"
          sample_list_of "Some sample_token" ?created sample_run_log]
  note nothing = no_playlist_without_tracks
      [of sample_clock ?W unauthorized_service sample_token "[]" "[]" "[]" "[]"
          sample_list_of "Some sample_token" NoRecentReleases
          "[GET sample_token MeFollowing (followed_params 50 JNull)]"]
  have a: "find_and_publish sample_service sample_token sample_clock [JStr ''artist2''] []
             = (NoRecentReleases, [albums_request sample_token (JStr ''artist2'')])
           \<and> filter is_post [albums_request sample_token (JStr ''artist2'')] = filter is_post []"
    using empty [THEN conjunct1] sample_week_ago sample_artist2_scan by simp
  have b: "find_and_publish sample_service sample_token sample_clock [JStr ''artist1''] []
     = publish_playlist sample_service sample_token sample_clock [sample_entry, sample_entry]
         [albums_request sample_token (JStr ''artist1''),
          GET sample_token (AlbumTracks (JStr ''album1'')) []]"
    using found [THEN conjunct1] sample_week_ago sample_artist1_scan by simp
  have c: "status_of NoRecentReleases = 200"
    using empty [THEN conjunct2, THEN conjunct1] .
  have d: "filter is_post [GET sample_token MeFollowing (followed_params 50 JNull)] = []"
    using nothing [THEN conjunct2, THEN conjunct2, THEN conjunct2, THEN mp, OF unauthorized_run,
        THEN conjunct1] by simp
  have e: "\<exists>access_token ids log0 week_ago recent log2.
          Some sample_token = Some access_token
        \<and> one_week_before (now sample_clock) = Inr week_ago
        \<and> scan_artists sample_service access_token week_ago [] ids log0 = (Inr recent, log2)
        \<and> recent \<noteq> [] \<and> filter is_post log2 = []
        \<and> (?created, sample_run_log)
            = publish_playlist sample_service access_token sample_clock recent log2"
    using found [THEN conjunct2, THEN conjunct2, THEN conjunct2, THEN mp, OF sample_run,
        THEN conjunct2, THEN mp, OF sample_run_writes] .
  then have e': "\<exists>ids log0 week_ago recent log2.
          one_week_before (now sample_clock) = Inr week_ago
        \<and> scan_artists sample_service sample_token week_ago [] ids log0 = (Inr recent, log2)
        \<and> recent \<noteq> [] \<and> filter is_post log2 = []
        \<and> (?created, sample_run_log)
            = publish_playlist sample_service sample_token sample_clock recent log2"
    by (elim exE conjE) (simp only: option.inject, blast)
  from a b c d e' show ?thesis by simp
qed

subsection \<open>The walk over a paginated listing\<close>

lemma is_page_truthy: "is_page data items next_cursor \<Longrightarrow> truthy data"
  by (simp add: is_page_def)

lemma is_page_followed_page:
  assumes "is_page data items next_cursor"
  shows "followed_page artists data = Inr (artists @ items, next_cursor)"
proof -
  from assms obtain a where a: "subscript data ''artists'' = Inr a"
    by (cases "subscript data ''artists''") (simp_all add: is_page_def del: subscript.simps)
  with assms have i: "subscript a ''items'' = Inr (JArr items)"
    by (simp add: is_page_def del: subscript.simps)
  from assms a obtain nxt where n: "subscript a ''next'' = Inr nxt"
    by (cases "subscript a ''next''") (simp_all add: is_page_def del: subscript.simps)
  show "followed_page artists data = Inr (artists @ items, next_cursor)"
  proof (cases next_cursor)
    case None
    with assms a n have "\<not> truthy nxt" by (simp add: is_page_def del: subscript.simps)
    with a i n None show ?thesis
      by (simp add: followed_page_def and_then_def del: subscript.simps)
  next
    case (Some cursor)
    with assms a n have t: "truthy nxt" by (simp add: is_page_def del: subscript.simps)
    from assms a n Some t obtain c where c: "subscript a ''cursors'' = Inr c"
      by (cases "subscript a ''cursors''") (simp_all add: is_page_def del: subscript.simps)
    with assms a n Some t have "subscript c ''after'' = Inr cursor"
      by (simp add: is_page_def del: subscript.simps)
    with a i n t c Some show ?thesis
      by (simp add: followed_page_def and_then_def del: subscript.simps)
  qed
qed

lemma make_request_page:
  assumes "srv log (GET tok endpoint params) = Inr r" "status_code r = 200" "body r = Some data"
  shows "make_request srv endpoint tok params log = (Inr data, log @ [GET tok endpoint params])"
  using assms by (simp add: make_request_def response_json_def)

lemma listing_request_first:
  "GET tok MeFollowing (followed_params limit JNull) = listing_request tok limit None"
  by (simp add: followed_params_def listing_request_def)

lemma listing_request_next:
  "truthy c \<Longrightarrow> GET tok MeFollowing (followed_params limit c) = listing_request tok limit (Some c)"
  by (simp add: followed_params_def listing_request_def)

lemma serves_not_empty: "serves srv tok limit log cursor pages \<Longrightarrow> pages \<noteq> []"
  by (cases pages) simp_all

lemma followed_artists_loop_serves:
  assumes "serves srv tok limit log cursor pages"
    and "\<forall>page \<in> set pages. \<forall>c. snd page = Some c \<longrightarrow> truthy c"
    and "GET tok MeFollowing (followed_params limit after) = listing_request tok limit cursor"
  shows "followed_artists_loop srv tok limit artists after log
           = Some (Inr (artists @ concat (map fst pages)),
                   log @ map (listing_request tok limit) (cursor # butlast (map snd pages)))"
  using assms
proof (induction pages arbitrary: artists after cursor log)
  case Nil
  then show ?case by simp
next
  case (Cons page rest)
  obtain items next_cursor where page: "page = (items, next_cursor)" by (cases page) auto
  let ?rq = "listing_request tok limit cursor"
  from Cons.prems(1) page obtain r where r: "srv log ?rq = Inr r"
    by (cases "srv log ?rq") simp_all
  with Cons.prems(1) page have st: "status_code r = 200" by simp
  from Cons.prems(1) page r obtain data where data: "body r = Some data"
    by (cases "body r") simp_all
  from Cons.prems(1) page r data have p: "is_page data items next_cursor" by simp
  have m: "make_request srv MeFollowing tok (followed_params limit after) log
             = (Inr data, log @ [?rq])"
    using make_request_page [of srv log tok MeFollowing "followed_params limit after" r data]
      r st data Cons.prems(3) by simp
  note fp = is_page_truthy [OF p] is_page_followed_page [OF p, of artists]
  show ?case
  proof (cases next_cursor)
    case None
    with Cons.prems(1) page r data have "rest = []" by simp
    moreover have "followed_artists_loop srv tok limit artists after log
                     = Some (Inr (artists @ items), log @ [?rq])"
      using m fp None by (intro followed_artists_loop_last) simp_all
    ultimately show ?thesis using page by simp
  next
    case (Some c)
    with Cons.prems(1) page r data
    have s: "serves srv tok limit (log @ [?rq]) (Some c) rest" by simp
    from Cons.prems(2) page Some have t: "truthy c" by simp
    from Cons.prems(2) have c2: "\<forall>page \<in> set rest. \<forall>c. snd page = Some c \<longrightarrow> truthy c"
      by simp
    have ne: "map snd rest \<noteq> []" using serves_not_empty [OF s] by simp
    have "followed_artists_loop srv tok limit artists after log
            = followed_artists_loop srv tok limit (artists @ items) c (log @ [?rq])"
      using m fp Some by (intro followed_artists_loop_next) simp_all
    also have "\<dots> = Some (Inr ((artists @ items) @ concat (map fst rest)),
                         (log @ [?rq]) @ map (listing_request tok limit)
                                           (Some c # butlast (map snd rest)))"
      using s c2 listing_request_next [OF t] by (rule Cons.IH)
    finally show ?thesis using page Some ne by simp
  qed
qed

lemma concat_chunks: "concat (chunks page_size xs) = xs"
proof (induction page_size xs rule: chunks.induct)
  case (1 page_size xs)
  show ?case
  proof (cases "page_size = 0 \<or> length xs \<le> page_size")
    case True
    then show ?thesis by (subst chunks.simps) simp
  next
    case False
    with 1 have "concat (chunks page_size (drop page_size xs)) = drop page_size xs" by simp
    with False show ?thesis by (subst chunks.simps) simp
  qed
qed

lemma length_chunks:
  "0 < page_size \<Longrightarrow> \<forall>c \<in> set (chunks page_size xs). length c \<le> page_size"
proof (induction page_size xs rule: chunks.induct)
  case (1 page_size xs)
  show ?case
  proof (cases "length xs \<le> page_size")
    case True
    then show ?thesis by (subst chunks.simps) simp
  next
    case False
    with 1 have "\<forall>c \<in> set (chunks page_size (drop page_size xs)). length c \<le> page_size"
      by simp
    with False 1(2) show ?thesis by (subst chunks.simps) simp
  qed
qed

lemma sample_service_serves: "serves sample_service tok limit log None sample_pages"
proof -
  have p1: "is_page sample_page1 [named ''artist1'' ''First Artist''] (Some (JStr ''artist1''))"
    by (simp add: is_page_def sample_page1_def)
  have p2: "is_page sample_page2 [named ''artist2'' ''Second Artist''] None"
    by (simp add: is_page_def sample_page2_def)
  show ?thesis
    using p1 p2
    by (simp add: sample_pages_def sample_service_def sample_get_def listing_request_def)
qed

lemma sample_cursors_true: "\<forall>page \<in> set sample_pages. \<forall>c. snd page = Some c \<longrightarrow> truthy c"
  by (simp add: sample_pages_def)

lemma empty_listing_serves: "serves empty_listing_service tok limit log None [([], None)]"
proof -
  have "is_page empty_page [] None" by (simp add: is_page_def empty_page_def)
  then show ?thesis by (simp add: empty_listing_service_def)
qed

lemma sample_chunks:
  "map fst sample_pages = chunks 1 sample_followed"
  "map fst [([], None)] = chunks 50 ([] :: json list)"
  by (simp_all add: sample_pages_def sample_followed_def chunks.simps)

lemma sample_followed_distinct: "distinct sample_followed"
  by (simp add: sample_followed_def named_def)

lemma empty_cursor_request:
  "\<not> truthy after \<Longrightarrow>
   make_request empty_cursor_service MeFollowing tok (followed_params limit after) log
     = (Inr empty_cursor_page, log @ [GET tok MeFollowing (followed_params limit after)])"
  by (simp add: make_request_def empty_cursor_service_def followed_params_def response_json_def)

lemma empty_cursor_first_page:
  "truthy empty_cursor_page"
  "followed_page artists empty_cursor_page
     = Inr (artists @ [named ''artist1'' ''First Artist''], Some (JStr ''''))"
  by (simp_all add: empty_cursor_page_def followed_page_def and_then_def)

lemma empty_cursor_walk:
  assumes "followed_artists_loop srv tok limit artists after log = Some y"
  shows "\<not> (srv = empty_cursor_service \<and> \<not> truthy after)"
proof (rule followed_artists_loop.raw_induct
    [where P = "\<lambda>srv tok limit artists after log y.
                  \<not> (srv = empty_cursor_service \<and> \<not> truthy after)",
     OF _ assms])
  fix loop :: "service \<Rightarrow> string \<Rightarrow> int \<Rightarrow> json list \<Rightarrow> json \<Rightarrow> request list
                 \<Rightarrow> ((error + json list) \<times> request list) option"
  fix srv tok limit artists after log y
  assume IH: "\<And>srv tok limit artists after log y. loop srv tok limit artists after log = Some y \<Longrightarrow>
           \<not> (srv = empty_cursor_service \<and> \<not> truthy after)"
  assume step: "(case make_request srv MeFollowing tok (followed_params limit after) log of
        (Inl e, log1) \<Rightarrow> Some (Inl e, log1)
      | (Inr data, log1) \<Rightarrow>
          if \<not> truthy data then Some (Inr artists, log1)
          else
            (case followed_page artists data of
               Inl e \<Rightarrow> Some (Inl e, log1)
             | Inr (artists1, None) \<Rightarrow> Some (Inr artists1, log1)
             | Inr (artists1, Some after1) \<Rightarrow> loop srv tok limit artists1 after1 log1)) = Some y"
  show "\<not> (srv = empty_cursor_service \<and> \<not> truthy after)"
  proof
    assume a: "srv = empty_cursor_service \<and> \<not> truthy after"
    then have m: "make_request srv MeFollowing tok (followed_params limit after) log
        = (Inr empty_cursor_page, log @ [GET tok MeFollowing (followed_params limit after)])"
      by (simp add: empty_cursor_request)
    from step [unfolded m] have
      "loop srv tok limit (artists @ [named ''artist1'' ''First Artist'']) (JStr '''')
         (log @ [GET tok MeFollowing (followed_params limit after)]) = Some y"
      by (simp add: empty_cursor_first_page)
    from IH [OF this] a show False by simp
  qed
qed

lemma empty_cursor_service_serves:
  "serves empty_cursor_service tok limit log None empty_cursor_pages"
proof -
  have p1: "is_page empty_cursor_page [named ''artist1'' ''First Artist''] (Some (JStr ''''))"
    by (simp add: is_page_def empty_cursor_page_def)
  have p2: "is_page sample_page2 [named ''artist2'' ''Second Artist''] None"
    by (simp add: is_page_def sample_page2_def)
  show ?thesis
    using p1 p2
    by (simp add: empty_cursor_pages_def empty_cursor_service_def listing_request_def)
qed

text \<open>
  Claim C1, as amended. Let the service serve a paginated listing of the followed artists,
  and let every cursor that a page gives be true in Python's sense (not the empty string,
  not zero). Then \<^verbatim>\<open>get_followed_artists\<close> returns: its result is the pages' items in the order
  served, and it has made exactly one call per page, the first without a cursor and each
  later one with the cursor the page before gave, ending at the page that names no next
  page. In particular, when the pages are a listing of \<open>N\<close> items cut into pages of size \<open>P\<close>
  (a single, possibly empty, page when \<open>N \<le> P\<close>), the result is that listing itself: \<open>N\<close>
  artists in the server's order, without duplicates when the listing has none.
\<close>

theorem collect_followed_artists_complete:
  assumes "serves srv tok limit log None pages"
    and "\<forall>page \<in> set pages. \<forall>cursor. snd page = Some cursor \<longrightarrow> truthy cursor"
  shows "get_followed_artists srv tok limit log
           = Some (Inr (concat (map fst pages)),
                   log @ map (listing_request tok limit) (None # butlast (map snd pages)))
       \<and> length (map (listing_request tok limit) (None # butlast (map snd pages))) = length pages
       \<and> (0 < page_size \<and> map fst pages = chunks page_size listing \<longrightarrow>
            get_followed_artists srv tok limit log
              = Some (Inr listing,
                      log @ map (listing_request tok limit) (None # butlast (map snd pages)))
          \<and> (\<forall>page \<in> set pages. length (fst page) \<le> page_size)
          \<and> (distinct listing \<longrightarrow> distinct (concat (map fst pages))))"
proof -
  have run: "get_followed_artists srv tok limit log
           = Some (Inr (concat (map fst pages)),
                   log @ map (listing_request tok limit) (None # butlast (map snd pages)))"
    unfolding get_followed_artists_def
    using followed_artists_loop_serves [OF assms listing_request_first, of "[]"] by simp
  have "pages \<noteq> []" using assms(1) by (rule serves_not_empty)
  then have calls: "length (map (listing_request tok limit) (None # butlast (map snd pages)))
                      = length pages"
    by simp
  have cut: "0 < page_size \<and> map fst pages = chunks page_size listing \<longrightarrow>
            get_followed_artists srv tok limit log
              = Some (Inr listing,
                      log @ map (listing_request tok limit) (None # butlast (map snd pages)))
          \<and> (\<forall>page \<in> set pages. length (fst page) \<le> page_size)
          \<and> (distinct listing \<longrightarrow> distinct (concat (map fst pages)))"
  proof
    assume c: "0 < page_size \<and> map fst pages = chunks page_size listing"
    then have l: "concat (map fst pages) = listing" by (simp add: concat_chunks)
    have "\<forall>c \<in> set (map fst pages). length c \<le> page_size"
      using c length_chunks [of page_size listing] by simp
    then have s: "\<forall>page \<in> set pages. length (fst page) \<le> page_size" by simp
    from run l s show "get_followed_artists srv tok limit log
              = Some (Inr listing,
                      log @ map (listing_request tok limit) (None # butlast (map snd pages)))
          \<and> (\<forall>page \<in> set pages. length (fst page) \<le> page_size)
          \<and> (distinct listing \<longrightarrow> distinct (concat (map fst pages)))"
      by simp
  qed
  from run calls cut show ?thesis by (intro conjI)
qed

theorem collect_followed_artists_complete_witness:
  "get_followed_artists sample_service sample_token 1 []
     = Some (Inr sample_followed,
             [listing_request sample_token 1 None,
              listing_request sample_token 1 (Some (JStr ''artist1''))])
   \<and> length sample_followed = 2 \<and> distinct sample_followed
   \<and> distinct (concat (map fst sample_pages))
   \<and> get_followed_artists empty_listing_service sample_token 50 []
       = Some (Inr [], [listing_request sample_token 50 None])"
proof -
  note two = collect_followed_artists_complete
      [OF sample_service_serves sample_cursors_true, of sample_token 1 "[]" 1 sample_followed]
  have none_true: "\<forall>page \<in> set [([] :: json list, None :: json option)].
                     \<forall>cursor. snd page = Some cursor \<longrightarrow> truthy cursor"
    by simp
  note none = collect_followed_artists_complete
      [OF empty_listing_serves none_true, of sample_token 50 "[]" 50 "[]"]
  have r: "map (listing_request sample_token 1) (None # butlast (map snd sample_pages))
             = [listing_request sample_token 1 None,
                listing_request sample_token 1 (Some (JStr ''artist1''))]"
    by (simp add: sample_pages_def)
  have a: "get_followed_artists sample_service sample_token 1 []
     = Some (Inr sample_followed,
             [listing_request sample_token 1 None,
              listing_request sample_token 1 (Some (JStr ''artist1''))])"
    using two [THEN conjunct2, THEN conjunct2] sample_chunks(1) r by simp
  have b: "distinct (concat (map fst sample_pages))"
    using two [THEN conjunct2, THEN conjunct2] sample_chunks(1) sample_followed_distinct by simp
  have c: "get_followed_artists empty_listing_service sample_token 50 []
       = Some (Inr [], [listing_request sample_token 50 None])"
    using none [THEN conjunct2, THEN conjunct2] sample_chunks(2) by simp
  have d: "length sample_followed = 2" by (simp add: sample_followed_def)
  from a b c d sample_followed_distinct show ?thesis by (intro conjI)
qed

text \<open>
  Claim C1 as stated fails for a listing whose cursor is false in Python's sense: the walk
  leaves such a cursor out of the next call (\<^verbatim>\<open>if after:\<close>), so the service is asked for the
  first page again. With a service that serves two artists on two pages and gives the empty
  string as the cursor to the second page, the first page is requested again and again and
  \<^verbatim>\<open>get_followed_artists\<close> does not return.
\<close>

theorem empty_cursor_counterexample:
  "serves empty_cursor_service sample_token 1 [] None empty_cursor_pages
   \<and> concat (map fst empty_cursor_pages) = sample_followed
   \<and> get_followed_artists empty_cursor_service sample_token 1 [] = None"
proof -
  have a: "serves empty_cursor_service sample_token 1 [] None empty_cursor_pages"
    by (rule empty_cursor_service_serves)
  have b: "concat (map fst empty_cursor_pages) = sample_followed"
    by (simp add: empty_cursor_pages_def sample_followed_def)
  have c: "get_followed_artists empty_cursor_service sample_token 1 [] = None"
  proof (cases "followed_artists_loop empty_cursor_service sample_token 1 [] JNull []")
    case None
    then show ?thesis by (simp add: get_followed_artists_def)
  next
    case (Some y)
    from empty_cursor_walk [OF this] show ?thesis by simp
  qed
  from a b c show ?thesis by (intro conjI)
qed

subsection \<open>A refused call during the walk\<close>

lemma followed_artists_loop_until_unauthorized:
  assumes "serves_until_unauthorized srv tok limit log after pages"
  shows "followed_artists_loop srv tok limit artists after log
           = Some (Inr (artists @ concat (map fst pages)),
                   log @ cursor_requests tok limit after pages)"
  using assms
proof (induction pages arbitrary: artists after log)
  case Nil
  let ?rq = "GET tok MeFollowing (followed_params limit after)"
  from Nil obtain r where r: "srv log ?rq = Inr r" and s: "status_code r = 401"
    by (cases "srv log ?rq") simp_all
  then have "make_request srv MeFollowing tok (followed_params limit after) log
               = (Inr JNull, log @ [?rq])"
    by (simp add: make_request_def)
  then have "followed_artists_loop srv tok limit artists after log
               = Some (Inr artists, log @ [?rq])"
    by (rule followed_artists_loop_no_data) simp
  then show ?case by simp
next
  case (Cons page rest)
  obtain items cursor where page: "page = (items, cursor)" by (cases page) auto
  let ?rq = "GET tok MeFollowing (followed_params limit after)"
  obtain res log1 where
    m: "make_request srv MeFollowing tok (followed_params limit after) log = (res, log1)"
    by (cases "make_request srv MeFollowing tok (followed_params limit after) log") auto
  with make_request_log [of srv MeFollowing tok "followed_params limit after" log]
  have log1: "log1 = log @ [?rq]" by simp
  from Cons.prems page m obtain data where data: "res = Inr data"
    by (cases res) simp_all
  from Cons.prems page m data have p: "is_page data items (Some cursor)" by simp
  from Cons.prems page m data
  have s: "serves_until_unauthorized srv tok limit log1 cursor rest" by simp
  note fp = is_page_truthy [OF p] is_page_followed_page [OF p, of artists]
  have "followed_artists_loop srv tok limit artists after log
          = followed_artists_loop srv tok limit (artists @ items) cursor log1"
    using m [unfolded data] fp by (intro followed_artists_loop_next) simp_all
  also have "\<dots> = Some (Inr ((artists @ items) @ concat (map fst rest)),
                       log1 @ cursor_requests tok limit cursor rest)"
    using s by (rule Cons.IH)
  finally show ?case using page log1 by simp
qed

lemma length_cursor_requests:
  "length (cursor_requests tok limit after pages) = length pages + 1"
  by (induction pages arbitrary: after) auto

lemma cursor_requests_calls:
  "rq \<in> set (cursor_requests tok limit after pages) \<Longrightarrow>
   \<exists>cursor. rq = GET tok MeFollowing (followed_params limit cursor)"
  by (induction pages arbitrary: after) auto

lemma nothing_followed_run:
  assumes "get_followed_artists srv tok 50 [] = Some (Inr [], log0)"
    and "list_of {} = []"
    and "7 * microseconds_per_day \<le> now clk"
  shows "generate_playlist srv list_of clk (Some tok) = Some (NoRecentReleases, log0)"
proof -
  have c: "collect_artists srv tok {} [] log0 = (Inr {}, log0)" by simp
  have w: "one_week_before (now clk) = Inr (now clk - 7 * microseconds_per_day)"
    using assms(3) by (simp add: one_week_before_def)
  have s: "scan_artists srv tok (now clk - 7 * microseconds_per_day) [] [] log0 = (Inr [], log0)"
    by simp
  have "generate_playlist srv list_of clk (Some tok)
          = Some (find_and_publish srv tok clk (take 50 (list_of {})) log0)"
    using assms(1) c by (rule generate_playlist_stages)
  also have "\<dots> = Some (NoRecentReleases, log0)"
    using find_and_publish_empty [OF w s] assms(2) by simp
  finally show ?thesis .
qed

lemma unauthorized_service_refuses:
  "serves_until_unauthorized unauthorized_service tok limit log JNull []"
  by (simp add: unauthorized_service_def)

lemma expiring_service_serves:
  "serves_until_unauthorized expiring_service tok limit [] JNull
     [([named ''artist1'' ''First Artist''], JStr ''artist1'')]"
proof -
  have p1: "is_page sample_page1 [named ''artist1'' ''First Artist''] (Some (JStr ''artist1''))"
    by (simp add: is_page_def sample_page1_def)
  have m: "make_request expiring_service MeFollowing tok (followed_params limit JNull) []
      = (Inr sample_page1, [GET tok MeFollowing (followed_params limit JNull)])"
    by (simp add: make_request_def expiring_service_def response_json_def)
  have r: "expiring_service [GET tok MeFollowing (followed_params limit JNull)]
             (GET tok MeFollowing (followed_params limit (JStr ''artist1'')))
           = Inr \<lparr>status_code = 401, body = Some (JObj [(''error'', JStr ''expired'')])\<rparr>"
    by (simp add: expiring_service_def)
  show ?thesis using p1 m r by simp
qed

lemma sample_clock_late: "7 * microseconds_per_day \<le> now sample_clock"
  by (simp add: sample_clock_def microseconds_per_day_def microseconds_per_second_def)

lemma sample_list_of_empty: "sample_list_of {} = []"
  by (simp add: sample_list_of_def)

text \<open>
  Claim C7. Let the service serve some pages of the listing, each naming a next page, and
  answer the call after them with status 401. Then \<^verbatim>\<open>get_followed_artists\<close> returns the
  items of the pages served, in order, after exactly one call more than the pages served,
  every call a read of the followed-artists listing with the same token: the refused call
  is not repeated and the token is not refreshed. When the first call is refused the result
  is the empty list, and the handler, which starts with an empty log and the limit 50, makes
  no further call and ends with the message that no recent release was found (the clock
  being at least seven days after the first representable instant, and the empty set being
  listed as the empty list).
\<close>

theorem unauthorized_page_ends_walk:
  assumes "serves_until_unauthorized srv tok limit log JNull pages"
  shows "get_followed_artists srv tok limit log
           = Some (Inr (concat (map fst pages)), log @ cursor_requests tok limit JNull pages)
       \<and> length (cursor_requests tok limit JNull pages) = length pages + 1
       \<and> (\<forall>rq \<in> set (cursor_requests tok limit JNull pages).
            \<exists>cursor. rq = GET tok MeFollowing (followed_params limit cursor))
       \<and> (pages = [] \<longrightarrow>
            get_followed_artists srv tok limit log
              = Some (Inr [], log @ [GET tok MeFollowing (followed_params limit JNull)]))
       \<and> (pages = [] \<and> limit = 50 \<and> log = [] \<and> list_of {} = []
            \<and> 7 * microseconds_per_day \<le> now clk \<longrightarrow>
            generate_playlist srv list_of clk (Some tok)
              = Some (NoRecentReleases, [GET tok MeFollowing (followed_params 50 JNull)]))"
proof -
  have run: "get_followed_artists srv tok limit log
           = Some (Inr (concat (map fst pages)), log @ cursor_requests tok limit JNull pages)"
    unfolding get_followed_artists_def
    using followed_artists_loop_until_unauthorized [OF assms, of "[]"] by simp
  have calls: "\<forall>rq \<in> set (cursor_requests tok limit JNull pages).
            \<exists>cursor. rq = GET tok MeFollowing (followed_params limit cursor)"
    using cursor_requests_calls by blast
  have first: "pages = [] \<longrightarrow>
            get_followed_artists srv tok limit log
              = Some (Inr [], log @ [GET tok MeFollowing (followed_params limit JNull)])"
    using run by simp
  have pipeline: "pages = [] \<and> limit = 50 \<and> log = [] \<and> list_of {} = []
            \<and> 7 * microseconds_per_day \<le> now clk \<longrightarrow>
            generate_playlist srv list_of clk (Some tok)
              = Some (NoRecentReleases, [GET tok MeFollowing (followed_params 50 JNull)])"
  proof
    assume h: "pages = [] \<and> limit = 50 \<and> log = [] \<and> list_of {} = []
            \<and> 7 * microseconds_per_day \<le> now clk"
    with run have "get_followed_artists srv tok 50 []
        = Some (Inr [], [GET tok MeFollowing (followed_params 50 JNull)])" by simp
    then show "generate_playlist srv list_of clk (Some tok)
              = Some (NoRecentReleases, [GET tok MeFollowing (followed_params 50 JNull)])"
      using h by (intro nothing_followed_run) simp_all
  qed
  from run length_cursor_requests calls first pipeline show ?thesis by (intro conjI)
qed

theorem unauthorized_page_ends_walk_witness:
  "get_followed_artists unauthorized_service sample_token 50 []
     = Some (Inr [], [GET sample_token MeFollowing (followed_params 50 JNull)])
   \<and> generate_playlist unauthorized_service sample_list_of sample_clock (Some sample_token)
     = Some (NoRecentReleases, [GET sample_token MeFollowing (followed_params 50 JNull)])
   \<and> get_followed_artists expiring_service sample_token 50 []
     = Some (Inr [named ''artist1'' ''First Artist''],
             [GET sample_token MeFollowing (followed_params 50 JNull),
              GET sample_token MeFollowing (followed_params 50 (JStr ''artist1''))])"
proof -
  note first = unauthorized_page_ends_walk
      [OF unauthorized_service_refuses, of sample_token 50 "[]" sample_list_of sample_clock]
  note second = unauthorized_page_ends_walk
      [OF expiring_service_serves, of sample_token 50 sample_list_of sample_clock]
  have a: "get_followed_artists unauthorized_service sample_token 50 []
     = Some (Inr [], [GET sample_token MeFollowing (followed_params 50 JNull)])"
    using first [THEN conjunct1] by simp
  have b: "generate_playlist unauthorized_service sample_list_of sample_clock (Some sample_token)
     = Some (NoRecentReleases, [GET sample_token MeFollowing (followed_params 50 JNull)])"
    using first [THEN conjunct2, THEN conjunct2, THEN conjunct2, THEN conjunct2]
      sample_clock_late sample_list_of_empty by simp
  have c: "get_followed_artists expiring_service sample_token 50 []
     = Some (Inr [named ''artist1'' ''First Artist''],
             [GET sample_token MeFollowing (followed_params 50 JNull),
              GET sample_token MeFollowing (followed_params 50 (JStr ''artist1''))])"
    using second [THEN conjunct1] by simp
  from a b c show ?thesis by (intro conjI)
qed

subsection \<open>Absent data and absent fields\<close>

lemma followed_artists_loop_pages:
  assumes "serves_pages srv tok limit log after pages"
  shows "followed_artists_loop srv tok limit artists after log
           = followed_artists_loop srv tok limit (artists @ concat (map fst pages))
               (last_cursor after pages) (log @ pages_requests tok limit after pages)"
  using assms
proof (induction pages arbitrary: artists after log)
  case Nil
  then show ?case by simp
next
  case (Cons page rest)
  obtain items cursor where page: "page = (items, cursor)" by (cases page) auto
  let ?rq = "GET tok MeFollowing (followed_params limit after)"
  obtain res log1 where
    m: "make_request srv MeFollowing tok (followed_params limit after) log = (res, log1)"
    by (cases "make_request srv MeFollowing tok (followed_params limit after) log") auto
  with make_request_log [of srv MeFollowing tok "followed_params limit after" log]
  have log1: "log1 = log @ [?rq]" by simp
  from Cons.prems page m obtain data where data: "res = Inr data"
    by (cases res) simp_all
  from Cons.prems page m data have p: "is_page data items (Some cursor)" by simp
  from Cons.prems page m data
  have s: "serves_pages srv tok limit log1 cursor rest" by simp
  note fp = is_page_truthy [OF p] is_page_followed_page [OF p, of artists]
  have "followed_artists_loop srv tok limit artists after log
          = followed_artists_loop srv tok limit (artists @ items) cursor log1"
    using m [unfolded data] fp by (intro followed_artists_loop_next) simp_all
  also have "\<dots> = followed_artists_loop srv tok limit ((artists @ items) @ concat (map fst rest))
                      (last_cursor cursor rest) (log1 @ pages_requests tok limit cursor rest)"
    using s by (rule Cons.IH)
  finally show ?case using page log1 by simp
qed

lemma get_related_artists_missing:
  assumes "make_request srv (RelatedArtists artist_id) tok [] log = (Inr (JObj kvs), log1)"
    and "kvs \<noteq> []" "''artists'' \<notin> fst ` set kvs"
  shows "get_related_artists srv tok artist_id log = (Inl KeyError, log1)"
  using assms
  by (simp add: get_related_artists_def field_or_empty_def subscript_missing del: subscript.simps)

lemma collect_artists_missing:
  assumes "subscript artist ''id'' = Inr artist_id" "is_string artist_id"
    and "make_request srv (RelatedArtists artist_id) tok [] log = (Inr (JObj kvs), log1)"
    and "kvs \<noteq> []" "''artists'' \<notin> fst ` set kvs"
  shows "collect_artists srv tok s (artist # others) log = (Inl KeyError, log1)"
  using assms(1,2) get_related_artists_missing [OF assms(3-5)]
  by (simp add: and_then_def set_add_string del: subscript.simps)

lemma collect_artists_append:
  "collect_artists srv tok s (xs @ ys) log
     = (case collect_artists srv tok s xs log of
          (Inl e, l) \<Rightarrow> (Inl e, l)
        | (Inr s1, l) \<Rightarrow> collect_artists srv tok s1 ys l)"
proof (induction xs arbitrary: s log)
  case Nil
  show ?case by simp
next
  case (Cons a xs)
  show ?case
    by (simp add: Cons.IH split: sum.split prod.split del: subscript.simps)
qed

lemma generate_playlist_walk_raises:
  "get_followed_artists srv tok 50 [] = Some (Inl e, log1) \<Longrightarrow>
   generate_playlist srv list_of clk (Some tok) = Some (Failed e, log1)"
  by (simp add: generate_playlist_def)

lemma generate_playlist_expansion_raises:
  "get_followed_artists srv tok 50 [] = Some (Inr seeds, log0) \<Longrightarrow>
   collect_artists srv tok {} seeds log0 = (Inl e, log1) \<Longrightarrow>
   generate_playlist srv list_of clk (Some tok) = Some (Failed e, log1)"
  by (simp add: generate_playlist_def)

text \<open>
  Claim C9, as amended. A call that brings no data, that is status 401 or a body that is
  false in Python's sense (\<^verbatim>\<open>None\<close>, an empty object), is treated as "no data": the related
  artists are the empty list, and the walk over the followed artists, at whatever page the
  call was made, ends with the artists of the pages read before. A response that is a
  non-empty object without the expected field \<^verbatim>\<open>artists\<close> is not treated as "no data": the
  lookup raises KeyError, in the related-artists call, in the expansion at whatever seed
  makes the call, and in the walk at whatever page; the handler then ends the run as a
  failure with status 500.
\<close>

theorem absent_data_and_absent_fields:
  "(make_request srv (RelatedArtists artist_id) tok [] log = (Inr data, log1) \<longrightarrow>
      (\<not> truthy data \<longrightarrow>
         get_related_artists srv tok artist_id log = (Inr (JArr []), log1))
    \<and> (data = JObj kvs \<and> kvs \<noteq> [] \<and> ''artists'' \<notin> fst ` set kvs \<longrightarrow>
         get_related_artists srv tok artist_id log = (Inl KeyError, log1)
       \<and> (subscript artist ''id'' = Inr artist_id \<and> is_string artist_id \<longrightarrow>
            collect_artists srv tok all_artists (artist # others) log = (Inl KeyError, log1)
          \<and> (get_followed_artists srv tok 50 [] = Some (Inr (before @ artist # others), log0)
              \<and> collect_artists srv tok {} before log0 = (Inr all_artists, log) \<longrightarrow>
               generate_playlist srv list_of clk (Some tok) = Some (Failed KeyError, log1)))))
   \<and> (serves_pages srv tok limit log JNull pages
      \<and> make_request srv MeFollowing tok (followed_params limit (last_cursor JNull pages))
          (log @ pages_requests tok limit JNull pages) = (Inr data, log1) \<longrightarrow>
      (\<not> truthy data \<longrightarrow>
         get_followed_artists srv tok limit log = Some (Inr (concat (map fst pages)), log1))
    \<and> (data = JObj kvs \<and> kvs \<noteq> [] \<and> ''artists'' \<notin> fst ` set kvs \<longrightarrow>
         get_followed_artists srv tok limit log = Some (Inl KeyError, log1)
       \<and> (limit = 50 \<and> log = [] \<longrightarrow>
            generate_playlist srv list_of clk (Some tok) = Some (Failed KeyError, log1))))
   \<and> status_of (Failed KeyError) = 500"
proof (intro conjI impI)
  assume "make_request srv (RelatedArtists artist_id) tok [] log = (Inr data, log1)"
    and "\<not> truthy data"
  then show "get_related_artists srv tok artist_id log = (Inr (JArr []), log1)"
    by (simp add: get_related_artists_def field_or_empty_def)
next
  assume m: "make_request srv (RelatedArtists artist_id) tok [] log = (Inr data, log1)"
    and d: "data = JObj kvs \<and> kvs \<noteq> [] \<and> ''artists'' \<notin> fst ` set kvs"
  then show "get_related_artists srv tok artist_id log = (Inl KeyError, log1)"
    by (intro get_related_artists_missing [where kvs = kvs]) simp_all
  assume a: "subscript artist ''id'' = Inr artist_id \<and> is_string artist_id"
  with m d show c: "collect_artists srv tok all_artists (artist # others) log = (Inl KeyError, log1)"
    by (intro collect_artists_missing [where kvs = kvs and artist_id = artist_id]) simp_all
  assume f: "get_followed_artists srv tok 50 [] = Some (Inr (before @ artist # others), log0)
              \<and> collect_artists srv tok {} before log0 = (Inr all_artists, log)"
  then have "collect_artists srv tok {} (before @ artist # others) log0 = (Inl KeyError, log1)"
    using c by (simp add: collect_artists_append)
  with f show "generate_playlist srv list_of clk (Some tok) = Some (Failed KeyError, log1)"
    by (intro generate_playlist_expansion_raises [where seeds = "before @ artist # others"])
      simp_all
next
  assume h: "serves_pages srv tok limit log JNull pages
      \<and> make_request srv MeFollowing tok (followed_params limit (last_cursor JNull pages))
          (log @ pages_requests tok limit JNull pages) = (Inr data, log1)"
  then have walk: "get_followed_artists srv tok limit log
      = followed_artists_loop srv tok limit (concat (map fst pages)) (last_cursor JNull pages)
          (log @ pages_requests tok limit JNull pages)"
    unfolding get_followed_artists_def
    using followed_artists_loop_pages [of srv tok limit log JNull pages "[]"] by simp
  from h have m: "make_request srv MeFollowing tok (followed_params limit (last_cursor JNull pages))
          (log @ pages_requests tok limit JNull pages) = (Inr data, log1)" by simp
  {
    assume "\<not> truthy data"
    with m show "get_followed_artists srv tok limit log
                   = Some (Inr (concat (map fst pages)), log1)"
      unfolding walk by (rule followed_artists_loop_no_data)
  }
  assume d: "data = JObj kvs \<and> kvs \<noteq> [] \<and> ''artists'' \<notin> fst ` set kvs"
  then have "truthy data"
    and "followed_page (concat (map fst pages)) data = Inl KeyError"
    by (simp_all add: followed_page_missing)
  with m show r: "get_followed_artists srv tok limit log = Some (Inl KeyError, log1)"
    unfolding walk by (rule followed_artists_loop_page_error)
  assume "limit = 50 \<and> log = []"
  with r show "generate_playlist srv list_of clk (Some tok) = Some (Failed KeyError, log1)"
    by (intro generate_playlist_walk_raises) simp
next
  show "status_of (Failed KeyError) = 500" by simp
qed

lemma expiring_service_first_page:
  "serves_pages expiring_service tok limit [] JNull
     [([named ''artist1'' ''First Artist''], JStr ''artist1'')]"
proof -
  have p1: "is_page sample_page1 [named ''artist1'' ''First Artist''] (Some (JStr ''artist1''))"
    by (simp add: is_page_def sample_page1_def)
  have m: "make_request expiring_service MeFollowing tok (followed_params limit JNull) []
      = (Inr sample_page1, [GET tok MeFollowing (followed_params limit JNull)])"
    by (simp add: make_request_def expiring_service_def response_json_def)
  show ?thesis using p1 m by simp
qed

lemma expiring_service_second_call:
  "make_request expiring_service MeFollowing tok (followed_params limit (JStr ''artist1''))
     [GET tok MeFollowing (followed_params limit JNull)]
     = (Inr JNull, [GET tok MeFollowing (followed_params limit JNull),
                    GET tok MeFollowing (followed_params limit (JStr ''artist1''))])"
  by (simp add: make_request_def expiring_service_def)

lemma rate_limited_service_first_page:
  "serves_pages rate_limited_service tok limit [] JNull
     [([named ''artist1'' ''First Artist''], JStr ''artist1'')]"
proof -
  have p1: "is_page sample_page1 [named ''artist1'' ''First Artist''] (Some (JStr ''artist1''))"
    by (simp add: is_page_def sample_page1_def)
  have m: "make_request rate_limited_service MeFollowing tok (followed_params limit JNull) []
      = (Inr sample_page1, [GET tok MeFollowing (followed_params limit JNull)])"
    by (simp add: make_request_def rate_limited_service_def response_json_def)
  show ?thesis using p1 m by simp
qed

lemma rate_limited_service_second_call:
  "make_request rate_limited_service MeFollowing tok (followed_params limit (JStr ''artist1''))
     [GET tok MeFollowing (followed_params limit JNull)]
     = (Inr (JObj error_body), [GET tok MeFollowing (followed_params limit JNull),
                    GET tok MeFollowing (followed_params limit (JStr ''artist1''))])"
  by (simp add: make_request_def rate_limited_service_def response_json_def)

lemma related_error_following:
  "get_followed_artists related_error_service sample_token 50 []
     = Some (Inr (named ''artist1'' ''First Artist'' # [named ''artist2'' ''Second Artist'']),
             [GET sample_token MeFollowing (followed_params 50 JNull),
              GET sample_token MeFollowing (followed_params 50 (JStr ''artist1''))])"
  by code_simp

lemma related_error_request:
  "make_request related_error_service (RelatedArtists artist_id) tok [] log
     = (Inr (JObj error_body), log @ [GET tok (RelatedArtists artist_id) []])"
  by (simp add: make_request_def related_error_service_def response_json_def)

theorem absent_data_and_absent_fields_witness:
  "get_related_artists unauthorized_service sample_token sample_artist_id []
     = (Inr (JArr []), [GET sample_token (RelatedArtists sample_artist_id) []])
   \<and> get_followed_artists expiring_service sample_token 50 []
     = Some (Inr [named ''artist1'' ''First Artist''],
             [GET sample_token MeFollowing (followed_params 50 JNull),
              GET sample_token MeFollowing (followed_params 50 (JStr ''artist1''))])
   \<and> get_related_artists error_body_service sample_token sample_artist_id []
     = (Inl KeyError, [GET sample_token (RelatedArtists sample_artist_id) []])
   \<and> generate_playlist related_error_service sample_list_of sample_clock (Some sample_token)
     = Some (Failed KeyError,
             [GET sample_token MeFollowing (followed_params 50 JNull),
              GET sample_token MeFollowing (followed_params 50 (JStr ''artist1'')),
              GET sample_token (RelatedArtists (JStr ''artist1'')) []])
   \<and> get_followed_artists rate_limited_service sample_token 50 []
     = Some (Inl KeyError,
             [GET sample_token MeFollowing (followed_params 50 JNull),
              GET sample_token MeFollowing (followed_params 50 (JStr ''artist1''))])
   \<and> generate_playlist rate_limited_service sample_list_of sample_clock (Some sample_token)
     = Some (Failed KeyError,
             [GET sample_token MeFollowing (followed_params 50 JNull),
              GET sample_token MeFollowing (followed_params 50 (JStr ''artist1''))])"
proof -
  let ?r = "[GET sample_token (RelatedArtists sample_artist_id) []]"
  let ?f1 = "GET sample_token MeFollowing (followed_params 50 JNull)"
  let ?f2 = "GET sample_token MeFollowing (followed_params 50 (JStr ''artist1''))"
  let ?page = "([named ''artist1'' ''First Artist''], JStr ''artist1'')"
  have u1: "make_request unauthorized_service (RelatedArtists sample_artist_id) sample_token [] []
              = (Inr JNull, ?r)"
    by (simp add: unauthorized_request)
  have e1: "make_request error_body_service (RelatedArtists sample_artist_id) sample_token [] []
              = (Inr (JObj error_body), ?r)"
    by (simp add: error_body_request)
  have n: "\<not> truthy JNull" by simp
  have eb: "JObj error_body = JObj error_body \<and> error_body \<noteq> []
            \<and> ''artists'' \<notin> fst ` set error_body"
    using error_body_fields by simp
  have a: "get_related_artists unauthorized_service sample_token sample_artist_id []
             = (Inr (JArr []), ?r)"
    using absent_data_and_absent_fields
      [of unauthorized_service sample_artist_id sample_token "[]" JNull ?r,
       THEN conjunct1, THEN mp, OF u1, THEN conjunct1, THEN mp, OF n] .
  have b: "get_followed_artists expiring_service sample_token 50 []
     = Some (Inr [named ''artist1'' ''First Artist''], [?f1, ?f2])"
    using absent_data_and_absent_fields
      [where srv = expiring_service and tok = sample_token and log = "[]" and data = JNull
         and ?log1.0 = "[?f1, ?f2]" and limit = 50 and pages = "[?page]",
       THEN conjunct2, THEN conjunct1, THEN mp, THEN conjunct1, THEN mp, OF _ n]
      expiring_service_first_page [of sample_token 50]
      expiring_service_second_call [of sample_token 50]
    by simp
  have c: "get_related_artists error_body_service sample_token sample_artist_id []
             = (Inl KeyError, ?r)"
    using absent_data_and_absent_fields
      [of error_body_service sample_artist_id sample_token "[]" "JObj error_body" ?r error_body,
       THEN conjunct1, THEN mp, OF e1, THEN conjunct2, THEN mp, OF eb, THEN conjunct1] .
  have id1: "subscript (named ''artist1'' ''First Artist'') ''id'' = Inr (JStr ''artist1'')
             \<and> is_string (JStr ''artist1'')"
    by (simp add: named_id is_string_JStr del: subscript.simps)
  have d: "generate_playlist related_error_service sample_list_of sample_clock (Some sample_token)
     = Some (Failed KeyError, [?f1, ?f2, GET sample_token (RelatedArtists (JStr ''artist1'')) []])"
    using absent_data_and_absent_fields
      [where srv = related_error_service and artist_id = "JStr ''artist1''"
         and tok = sample_token and log = "[?f1, ?f2]" and data = "JObj error_body"
         and ?log1.0 = "[?f1, ?f2] @ [GET sample_token (RelatedArtists (JStr ''artist1'')) []]"
         and kvs = error_body and artist = "named ''artist1'' ''First Artist''"
         and all_artists = "{}" and others = "[named ''artist2'' ''Second Artist'']"
         and before = "[]" and ?log0.0 = "[?f1, ?f2]"
         and list_of = sample_list_of and clk = sample_clock,
       THEN conjunct1, THEN mp, OF related_error_request, THEN conjunct2, THEN mp, OF eb,
       THEN conjunct2, THEN mp, OF id1, THEN conjunct2, THEN mp]
      related_error_following
    by simp
  note limited = absent_data_and_absent_fields
      [where srv = rate_limited_service and tok = sample_token and log = "[]"
         and data = "JObj error_body" and ?log1.0 = "[?f1, ?f2]" and kvs = error_body
         and list_of = sample_list_of and clk = sample_clock and limit = 50
         and pages = "[?page]",
       THEN conjunct2, THEN conjunct1, THEN mp, THEN conjunct2, THEN mp, OF _ eb]
  have lim: "serves_pages rate_limited_service sample_token 50 [] JNull [?page]
      \<and> make_request rate_limited_service MeFollowing sample_token
          (followed_params 50 (last_cursor JNull [?page]))
          ([] @ pages_requests sample_token 50 JNull [?page]) = (Inr (JObj error_body), [?f1, ?f2])"
    using rate_limited_service_first_page [of sample_token 50]
      rate_limited_service_second_call [of sample_token 50]
    by simp
  have e: "get_followed_artists rate_limited_service sample_token 50 []
     = Some (Inl KeyError, [?f1, ?f2])"
    using limited [OF lim, THEN conjunct1] .
  have f: "generate_playlist rate_limited_service sample_list_of sample_clock (Some sample_token)
     = Some (Failed KeyError, [?f1, ?f2])"
    using limited [OF lim, THEN conjunct2] by simp
  from a b c d e f show ?thesis by (intro conjI)
qed


text \<open>
  Claim C9 as stated fails for an error object, which the remote service sends with a status
  other than 401: the response is present and lacks \<^verbatim>\<open>artists\<close>, and both the related-artists
  call and the followed-artists walk raise KeyError instead of giving an empty result; the
  run of the handler ends as a failure with status 500.
\<close>

theorem absent_field_counterexample:
  "get_related_artists error_body_service sample_token sample_artist_id []
     = (Inl KeyError, [GET sample_token (RelatedArtists sample_artist_id) []])
   \<and> get_followed_artists error_body_service sample_token 50 []
     = Some (Inl KeyError, [GET sample_token MeFollowing (followed_params 50 JNull)])
   \<and> generate_playlist error_body_service sample_list_of sample_clock (Some sample_token)
     = Some (Failed KeyError, [GET sample_token MeFollowing (followed_params 50 JNull)])
   \<and> status_of (Failed KeyError) = 500"
proof -
  have "subscript (JObj error_body) ''artists'' = Inl KeyError"
    by (simp add: error_body_def)
  then have a: "get_related_artists error_body_service sample_token sample_artist_id []
     = (Inl KeyError, [GET sample_token (RelatedArtists sample_artist_id) []])"
    by (simp add: get_related_artists_def field_or_empty_def error_body_request error_body_def
        del: subscript.simps)
  have "followed_page [] (JObj error_body) = Inl KeyError"
    by (simp add: followed_page_def and_then_def error_body_def)
  moreover have "truthy (JObj error_body)" by (simp add: error_body_def)
  ultimately have b: "get_followed_artists error_body_service sample_token 50 []
     = Some (Inl KeyError, [GET sample_token MeFollowing (followed_params 50 JNull)])"
    unfolding get_followed_artists_def
    by (intro followed_artists_loop_page_error [where data = "JObj error_body"])
      (simp_all add: error_body_request)
  then have c: "generate_playlist error_body_service sample_list_of sample_clock (Some sample_token)
     = Some (Failed KeyError, [GET sample_token MeFollowing (followed_params 50 JNull)])"
    by (simp add: generate_playlist_def)
  have d: "status_of (Failed KeyError) = 500" by simp
  from a b c d show ?thesis by (intro conjI)
qed

end
